(* ===== verification/Bridge_Prelude.thy ===== *)
theory Bridge_Prelude
  imports Main "HOL-Library.Word"
begin

text \<open>
  Shared vocabulary of the development: JavaScript exceptions as values, the result type
  every fallible routine returns, bytes and Node buffers, the little-endian reading of a
  byte string, and the generic lemmas the component theories use.

  A JavaScript string is a \<^typ>\<open>string\<close> whose characters are read as UTF-16 code units
  below 256 (the account names, hexadecimal and base-58 strings of the bridge are ASCII);
  \<open>utf8_bytes\<close> is what \<^verbatim>\<open>Buffer.from(s)\<close> makes of it.
\<close>

section \<open>Collections of rewrite rules\<close>

named_theorems res_simps \<open>equations of the result type\<close>
named_theorems bytes_simps \<open>equations of byte strings and their integer readings\<close>

section \<open>Exceptions and results\<close>

text \<open>
  The exceptions the sources raise: \<^verbatim>\<open>new Error(msg)\<close>, the engine's own \<^verbatim>\<open>TypeError\<close> and
  \<^verbatim>\<open>RangeError\<close>, the \<^verbatim>\<open>BorshError\<close> class of \<^verbatim>\<open>utils/borsh.js\<close>, an exception that comes out
  of a package the repository only calls, and \<^verbatim>\<open>process.exit(code)\<close>, which ends the process.
\<close>

datatype js_error =
    JsError string
  | JsTypeError
  | JsRangeError
  | JsBorshError
  | LibraryError string
  | ProcessExit int

type_synonym 'a res = "js_error + 'a"

text \<open>The \<^verbatim>\<open>message\<close> of an exception.\<close>

fun error_message :: "js_error \<Rightarrow> string" where
  "error_message (JsError m) = m"
| "error_message (LibraryError m) = m"
| "error_message _ = ''''"

text \<open>Sequencing; the error type is left open, since the contracts revert with errors of their own.\<close>

definition res_bind :: "'e + 'a \<Rightarrow> ('a \<Rightarrow> 'e + 'b) \<Rightarrow> 'e + 'b" where
  "res_bind r f = (case r of Inl e \<Rightarrow> Inl e | Inr x \<Rightarrow> f x)"

lemma res_bind_Inl [simp, res_simps]: "res_bind (Inl e) f = Inl e"
  by (simp add: res_bind_def)

lemma res_bind_Inr [simp, res_simps]: "res_bind (Inr x) f = f x"
  by (simp add: res_bind_def)

lemma res_bind_eq_Inr_iff [res_simps]:
  "res_bind r f = Inr y \<longleftrightarrow> (\<exists>x. r = Inr x \<and> f x = Inr y)"
  by (cases r) auto

lemma res_bind_assoc: "res_bind (res_bind r f) g = res_bind r (\<lambda>x. res_bind (f x) g)"
  by (cases r) auto

definition of_lib :: "string \<Rightarrow> 'a option \<Rightarrow> 'a res" where
  "of_lib who r = (case r of None \<Rightarrow> Inl (LibraryError who) | Some x \<Rightarrow> Inr x)"

lemma of_lib_simps [simp, res_simps]:
  "of_lib w None = Inl (LibraryError w)" "of_lib w (Some x) = Inr x"
  by (simp_all add: of_lib_def)

text \<open>Evaluating the elements of an array literal (or a \<^verbatim>\<open>map\<close>) from left to right.\<close>

fun res_list :: "('e + 'a) list \<Rightarrow> 'e + 'a list" where
  "res_list [] = Inr []"
| "res_list (r # rs) = res_bind r (\<lambda>x. res_bind (res_list rs) (\<lambda>xs. Inr (x # xs)))"

lemma res_list_map_Inr [simp]: "res_list (map Inr xs) = Inr xs"
  by (induction xs) auto

lemma res_list_all_Inr: "\<forall>r\<in>set rs. \<exists>x. r = Inr x \<Longrightarrow> \<exists>xs. res_list rs = Inr xs"
  by (induction rs) auto

lemma res_list_Inr_iff: "res_list rs = Inr xs \<longleftrightarrow> rs = map Inr xs"
proof (induction rs arbitrary: xs)
  case (Cons r rs)
  show ?case
    by (cases r; cases xs) (auto simp: Cons.IH res_bind_eq_Inr_iff)
qed auto

section \<open>Objects as association lists\<close>

text \<open>\<^verbatim>\<open>o[k] = v\<close>: a property that exists keeps its place, a new one comes last.\<close>

fun assoc_set :: "('k \<times> 'v) list \<Rightarrow> 'k \<Rightarrow> 'v \<Rightarrow> ('k \<times> 'v) list" where
  "assoc_set [] k v = [(k, v)]"
| "assoc_set ((l, w) # xs) k v = (if l = k then (l, v) # xs else (l, w) # assoc_set xs k v)"

lemma map_of_assoc_set [simp]: "map_of (assoc_set xs k v) = (map_of xs)(k \<mapsto> v)"
  by (induction xs k v rule: assoc_set.induct) auto

lemma assoc_set_new: "k \<notin> fst ` set xs \<Longrightarrow> assoc_set xs k v = xs @ [(k, v)]"
  by (induction xs k v rule: assoc_set.induct) auto

lemma keys_assoc_set [simp]: "fst ` set (assoc_set xs k v) = insert k (fst ` set xs)"
  by (induction xs k v rule: assoc_set.induct) auto

lemma distinct_assoc_set [simp]: "distinct (map fst (assoc_set xs k v)) \<longleftrightarrow> distinct (map fst xs)"
proof (induction xs k v rule: assoc_set.induct)
  case (2 l w xs k v)
  have "l \<in> set (map fst (assoc_set xs k v)) \<longleftrightarrow> l = k \<or> l \<in> set (map fst xs)"
    using keys_assoc_set [of xs k v] by auto
  with 2 show ?case by auto
qed simp

section \<open>Runs with effects\<close>

text \<open>
  A routine that talks to the outside world returns, beside its result, the list of the effects it had
  (transactions sent, counters raised, files written); an exception keeps the effects before it.
\<close>

type_synonym ('t, 'a) run = "'t list \<times> 'a res"

definition run_bind :: "('t, 'a) run \<Rightarrow> ('a \<Rightarrow> ('t, 'b) run) \<Rightarrow> ('t, 'b) run" where
  "run_bind r f = (case r of
     (ts, Inl e) \<Rightarrow> (ts, Inl e)
   | (ts, Inr x) \<Rightarrow> (case f x of (us, y) \<Rightarrow> (ts @ us, y)))"

definition run_ret :: "'a \<Rightarrow> ('t, 'a) run" where
  "run_ret x = ([], Inr x)"

text \<open>A call whose outcome is given, and one that is also an effect.\<close>

definition run_ask :: "'a res \<Rightarrow> ('t, 'a) run" where
  "run_ask r = ([], r)"

definition run_do :: "'t \<Rightarrow> 'a res \<Rightarrow> ('t, 'a) run" where
  "run_do t r = ([t], r)"

text \<open>\<^verbatim>\<open>try { r } catch (e) { h(e) }\<close>; \<^verbatim>\<open>process.exit\<close> is not caught.\<close>

definition run_catch :: "('t, 'a) run \<Rightarrow> (js_error \<Rightarrow> ('t, 'a) run) \<Rightarrow> ('t, 'a) run" where
  "run_catch r h = (case r of
     (ts, Inl (ProcessExit n)) \<Rightarrow> (ts, Inl (ProcessExit n))
   | (ts, Inl e) \<Rightarrow> (case h e of (us, y) \<Rightarrow> (ts @ us, y))
   | (ts, Inr x) \<Rightarrow> (ts, Inr x))"

named_theorems run_simps \<open>equations of runs\<close>

lemma run_bind_simps [run_simps]:
  "run_bind (ts, Inl e) f = (ts, Inl e)"
  "run_bind (ts, Inr x) f = (ts @ fst (f x), snd (f x))"
  "run_bind (run_ret x) f = f x"
  "run_bind (run_ask (Inr x)) f = f x"
  "run_bind (run_ask (Inl e)) f = ([], Inl e)"
  "run_bind (run_do t (Inr x)) f = (t # fst (f x), snd (f x))"
  "run_bind (run_do t (Inl e)) f = ([t], Inl e)"
  by (simp_all add: run_bind_def run_ret_def run_ask_def run_do_def split: prod.splits)

lemma run_bind_Inr_iff:
  "snd (run_bind r f) = Inr y \<longleftrightarrow> (\<exists>x. snd r = Inr x \<and> snd (f x) = Inr y)"
  by (auto simp: run_bind_def split: prod.splits sum.splits)

lemma run_bind_Inl_iff:
  "snd (run_bind r f) = Inl e \<longleftrightarrow> snd r = Inl e \<or> (\<exists>x. snd r = Inr x \<and> snd (f x) = Inl e)"
  by (auto simp: run_bind_def split: prod.splits sum.splits)

lemma run_bind_effects: "fst (run_bind r f) = fst r @ (case snd r of Inl _ \<Rightarrow> [] | Inr x \<Rightarrow> fst (f x))"
  by (cases r) (auto simp: run_bind_def split: prod.splits sum.splits)

lemma run_bind_assoc: "run_bind (run_bind r f) g = run_bind r (\<lambda>x. run_bind (f x) g)"
  by (auto simp: run_bind_def split: prod.splits sum.splits)

lemma set_run_bind:
  "t \<in> set (fst (run_bind r f)) \<longleftrightarrow> t \<in> set (fst r) \<or> (\<exists>x. snd r = Inr x \<and> t \<in> set (fst (f x)))"
  by (auto simp: run_bind_def split: prod.splits sum.splits)

lemma fst_run_bind: "snd r = Inr y \<Longrightarrow> fst (run_bind r f) = fst r @ fst (f y)"
  by (cases r) (simp add: run_bind_def split: prod.splits)

lemma run_bind_after: "x \<in> set (fst (run_bind r f)) \<Longrightarrow> x \<notin> set (fst r) \<Longrightarrow> \<exists>y. snd r = Inr y \<and> x \<in> set (fst (f y))"
  by (simp add: set_run_bind)

lemma fst_run_simps [simp]:
  "fst (run_ret x) = []" "snd (run_ret x) = Inr x" "fst (run_ask r) = []" "snd (run_ask r) = r"
  "fst (run_do t r) = [t]" "snd (run_do t r) = r"
  by (simp_all add: run_ret_def run_ask_def run_do_def)

lemma run_catch_simps [run_simps]:
  "run_catch (ts, Inr x) h = (ts, Inr x)"
  "run_catch (ts, Inl (ProcessExit n)) h = (ts, Inl (ProcessExit n))"
  "(\<And>n. e \<noteq> ProcessExit n) \<Longrightarrow> run_catch (ts, Inl e) h = (ts @ fst (h e), snd (h e))"
  by (auto simp: run_catch_def split: js_error.splits prod.splits)

section \<open>Bytes\<close>

type_synonym byte = "8 word"
type_synonym bytes = "byte list"

text \<open>The \<open>k\<close> low bytes of a number, least significant first, and the number they denote.\<close>

primrec le_bytes :: "nat \<Rightarrow> nat \<Rightarrow> bytes" where
  "le_bytes 0 n = []"
| "le_bytes (Suc k) n = word_of_nat n # le_bytes k (n div 256)"

primrec le_nat :: "bytes \<Rightarrow> nat" where
  "le_nat [] = 0"
| "le_nat (b # bs) = unat b + 256 * le_nat bs"

lemma unat_byte_less: "unat (b :: byte) < 256"
  using unsigned_less [of b, where ?'a = nat] by simp

lemma length_le_bytes [simp, bytes_simps]: "length (le_bytes k n) = k"
  by (induction k arbitrary: n) auto

lemma le_bytes_eq_Nil_iff [simp]: "le_bytes k n = [] \<longleftrightarrow> k = 0"
  by (cases k) auto

lemma le_nat_le_bytes_mod [bytes_simps]: "le_nat (le_bytes k n) = n mod 256 ^ k"
proof (induction k arbitrary: n)
  case (Suc k)
  have "unat (word_of_nat n :: byte) = n mod 256"
    by (simp add: unat_of_nat)
  then show ?case
    by (simp add: Suc.IH mod_mult2_eq)
qed simp

lemma le_nat_le_bytes [simp]: "n < 256 ^ k \<Longrightarrow> le_nat (le_bytes k n) = n"
  by (simp add: le_nat_le_bytes_mod)

lemma le_nat_less: "le_nat bs < 256 ^ length bs"
proof (induction bs)
  case (Cons b bs)
  have "unat b + 256 * le_nat bs < 256 * 256 ^ length bs"
    using Cons.IH unat_byte_less [of b] by linarith
  then show ?case by simp
qed simp

lemma le_bytes_le_nat: "le_bytes (length bs) (le_nat bs) = bs"
proof (induction bs)
  case (Cons b bs)
  have "word_of_nat (unat b + 256 * le_nat bs) = b"
    using unat_byte_less [of b]
    by (simp add: word_unat_eq_iff unat_of_nat del: of_nat_add of_nat_mult)
  then show ?case
    using unat_byte_less [of b] by (simp add: Cons.IH del: of_nat_add of_nat_mult)
qed simp

lemma le_nat_inj: "length xs = length ys \<Longrightarrow> le_nat xs = le_nat ys \<Longrightarrow> xs = ys"
  by (metis le_bytes_le_nat)

section \<open>Node buffers\<close>

text \<open>\<^verbatim>\<open>Buffer.concat\<close> of an array whose elements are evaluated from left to right.\<close>

definition buffer_concat :: "('e + bytes) list \<Rightarrow> 'e + bytes" where
  "buffer_concat rs = res_bind (res_list rs) (\<lambda>xs. Inr (concat xs))"

lemma buffer_concat_Nil [simp]: "buffer_concat [] = Inr []"
  by (simp add: buffer_concat_def)

lemma buffer_concat_Cons [simp]:
  "buffer_concat (r # rs) =
     res_bind r (\<lambda>x. res_bind (buffer_concat rs) (\<lambda>xs. Inr (x @ xs)))"
  by (cases r; cases "res_list rs") (simp_all add: buffer_concat_def)

lemma buffer_concat_append:
  "buffer_concat (rs @ ss) =
     res_bind (buffer_concat rs) (\<lambda>x. res_bind (buffer_concat ss) (\<lambda>y. Inr (x @ y)))"
  by (induction rs) (auto simp: res_bind_def split: sum.splits)

lemma buffer_concat_map_Inr [simp]: "buffer_concat (map (\<lambda>x. Inr (f x)) xs) = Inr (concat (map f xs))"
  by (induction xs) auto

text \<open>\<^verbatim>\<open>Buffer.from(s, 'utf8')\<close>: one byte for a code unit below 128, two for the others.\<close>

definition utf8_char :: "char \<Rightarrow> bytes" where
  "utf8_char c = (let n = of_char c :: nat in
     if n < 128 then [word_of_nat n]
     else [word_of_nat (192 + n div 64), word_of_nat (128 + n mod 64)])"

definition utf8_bytes :: "string \<Rightarrow> bytes" where
  "utf8_bytes s = concat (map utf8_char s)"

definition ascii :: "string \<Rightarrow> bool" where
  "ascii s = list_all (\<lambda>c. (of_char c :: nat) < 128) s"

lemma length_utf8_bytes_ascii [simp]: "ascii s \<Longrightarrow> length (utf8_bytes s) = length s"
  by (induction s) (auto simp: ascii_def utf8_bytes_def utf8_char_def Let_def)

lemma length_utf8_bytes_ge: "length s \<le> length (utf8_bytes s)"
  by (induction s) (auto simp: utf8_bytes_def utf8_char_def Let_def)

lemma length_utf8_bytes_eq_iff: "length (utf8_bytes s) = length s \<longleftrightarrow> ascii s"
proof (induction s)
  case (Cons c s)
  show ?case
    using Cons.IH length_utf8_bytes_ge [of s]
    by (auto simp: utf8_bytes_def utf8_char_def ascii_def Let_def)
qed (simp add: utf8_bytes_def ascii_def)

text \<open>\<^verbatim>\<open>s.startsWith(p)\<close>, \<^verbatim>\<open>s.endsWith(p)\<close> and \<^verbatim>\<open>s.includes(p)\<close> on strings.\<close>

definition startsWith :: "string \<Rightarrow> string \<Rightarrow> bool" where
  "startsWith s p = (take (length p) s = p)"

definition endsWith :: "string \<Rightarrow> string \<Rightarrow> bool" where
  "endsWith s p \<longleftrightarrow> length p \<le> length s \<and> drop (length s - length p) s = p"

fun js_includes :: "string \<Rightarrow> string \<Rightarrow> bool" where
  "js_includes [] p = (p = [])"
| "js_includes (c # s) p = (startsWith (c # s) p \<or> js_includes s p)"

lemma startsWith_append [simp]: "startsWith (p @ s) p"
  by (simp add: startsWith_def)

lemma startsWith_iff: "startsWith s p \<longleftrightarrow> (\<exists>t. s = p @ t)"
  by (metis append_eq_conv_conj append_take_drop_id startsWith_def)

section \<open>Decimal numbers\<close>

text \<open>The text of a natural number.\<close>

fun decimal :: "nat \<Rightarrow> string" where
  "decimal n = (if n < 10 then [char_of (48 + n)] else decimal (n div 10) @ [char_of (48 + n mod 10)])"

declare decimal.simps [simp del]

definition dec_value :: "string \<Rightarrow> nat" where
  "dec_value = foldl (\<lambda>a c. 10 * a + (of_char c - 48)) 0"

lemma dec_value_dec: "dec_value (decimal n) = n"
  by (induction n rule: decimal.induct) (subst decimal.simps, auto simp: dec_value_def)

lemma dec_inject: "decimal m = decimal n \<longleftrightarrow> m = n"
  by (metis dec_value_dec)

definition is_digit :: "char \<Rightarrow> bool" where
  "is_digit c \<longleftrightarrow> c \<in> set ''0123456789''"

lemma digit_char: "n < 10 \<Longrightarrow> is_digit (char_of (48 + n :: nat))"
proof -
  have "\<forall>n<10. is_digit (char_of (48 + n :: nat))" by code_simp
  then show "n < 10 \<Longrightarrow> is_digit (char_of (48 + n :: nat))" by blast
qed

lemma dec_digits: "\<forall>c\<in>set (decimal n). is_digit c"
  by (induction n rule: decimal.induct) (subst decimal.simps, auto simp: digit_char)

lemma dec_Cons: "decimal n \<noteq> []"
  by (subst decimal.simps) auto

lemma digit_chars:
  "char_of (48 :: nat) = CHR ''0''" "char_of (49 :: nat) = CHR ''1''" "char_of (50 :: nat) = CHR ''2''" "char_of (51 :: nat) = CHR ''3''"
  "char_of (52 :: nat) = CHR ''4''" "char_of (53 :: nat) = CHR ''5''" "char_of (54 :: nat) = CHR ''6''" "char_of (55 :: nat) = CHR ''7''"
  "char_of (56 :: nat) = CHR ''8''" "char_of (57 :: nat) = CHR ''9''"
  by code_simp+

end
