(* ===== verification/Byte_Cursor.thy ===== *)
theory Byte_Cursor
  imports Bridge_Prelude
begin

text \<open>
  A position in a byte string. Both decoders of the repository keep one: the class
  \<^verbatim>\<open>BinaryReader\<close> of \<^verbatim>\<open>utils/borsh.js\<close> (\<^verbatim>\<open>buf\<close> and \<^verbatim>\<open>offset\<close>) and the struct \<^verbatim>\<open>Borsh.Data\<close> of the
  contracts (\<^verbatim>\<open>ptr\<close> and \<^verbatim>\<open>end\<close>, where \<^verbatim>\<open>end\<close> is the end of the byte string).

  The locale \<open>codec\<close> is the contract between an encoder of the relay and a decoder on the
  other chain: an admissible value is encoded, and the decoder placed in front of its
  encoding returns its view of the value and stops right after it. The lemma
  \<open>dec_list\<close>, proved once inside the locale, lifts a codec to the repeated field every list
  in the wire formats is.
\<close>

record cursor =
  cbuf :: bytes
  coff :: nat

definition advance :: "nat \<Rightarrow> cursor \<Rightarrow> cursor" where
  "advance n c = c\<lparr>coff := coff c + n\<rparr>"

definition remaining :: "cursor \<Rightarrow> bytes" where
  "remaining c = drop (coff c) (cbuf c)"

text \<open>\<open>upcoming c bs\<close>: the bytes from the cursor on start with \<open>bs\<close>.\<close>

definition upcoming :: "cursor \<Rightarrow> bytes \<Rightarrow> bool" where
  "upcoming c bs \<longleftrightarrow> take (length bs) (remaining c) = bs"

named_theorems cursor_simps \<open>moving a cursor over a byte string\<close>

lemma advance_simps [simp, cursor_simps]:
  "cbuf (advance n c) = cbuf c" "coff (advance n c) = coff c + n"
  "advance 0 c = c" "advance m (advance n c) = advance (n + m) c"
  by (simp_all add: advance_def ac_simps)

lemma remaining_advance [simp, cursor_simps]: "remaining (advance n c) = drop n (remaining c)"
  by (simp add: remaining_def ac_simps)

lemma upcoming_Nil [simp, cursor_simps]: "upcoming c []"
  by (simp add: upcoming_def)

lemma upcoming_append [cursor_simps]:
  "upcoming c (xs @ ys) \<longleftrightarrow> upcoming c xs \<and> upcoming (advance (length xs) c) ys"
proof
  assume "upcoming c (xs @ ys)"
  then have split: "take (length xs + length ys) (remaining c) = xs @ ys"
    by (simp add: upcoming_def)
  then have "take (length xs) (take (length xs + length ys) (remaining c)) = xs"
    and "drop (length xs) (take (length xs + length ys) (remaining c)) = ys"
    by simp_all
  then show "upcoming c xs \<and> upcoming (advance (length xs) c) ys"
    by (simp add: upcoming_def drop_take)
qed (simp add: upcoming_def take_add)

lemma upcoming_Cons:
  "upcoming c (b # bs) \<longleftrightarrow> upcoming c [b] \<and> upcoming (advance 1 c) bs"
  using upcoming_append [of c "[b]" bs] by simp

lemma upcoming_length: "upcoming c bs \<Longrightarrow> coff c + length bs \<le> length (cbuf c) \<or> bs = []"
proof -
  assume "upcoming c bs"
  then have "length (take (length bs) (remaining c)) = length bs"
    by (simp add: upcoming_def)
  then have "length bs \<le> length (cbuf c) - coff c"
    by (simp add: remaining_def)
  then show ?thesis by (cases bs) auto
qed

lemma upcoming_take: "upcoming c bs \<Longrightarrow> take (length bs) (drop (coff c) (cbuf c)) = bs"
  by (simp add: upcoming_def remaining_def)

lemma upcoming_start [simp]: "upcoming \<lparr>cbuf = bs @ rest, coff = 0\<rparr> bs"
  "upcoming \<lparr>cbuf = bs, coff = 0\<rparr> bs"
  by (simp_all add: upcoming_def remaining_def)

section \<open>Repeated fields\<close>

text \<open>A loop that decodes \<open>n\<close> items one after the other and stops at the first error.\<close>

fun decode_n :: "(cursor \<Rightarrow> 'e + 'w \<times> cursor) \<Rightarrow> nat \<Rightarrow> cursor \<Rightarrow> 'e + 'w list \<times> cursor" where
  "decode_n dec 0 c = Inr ([], c)"
| "decode_n dec (Suc n) c = res_bind (dec c) (\<lambda>(x, c1).
     res_bind (decode_n dec n c1) (\<lambda>(xs, c2). Inr (x # xs, c2)))"

lemma decode_n_length: "decode_n dec n c = Inr (xs, c') \<Longrightarrow> length xs = n"
  by (induction n arbitrary: c xs) (auto simp: res_bind_eq_Inr_iff)

lemma decode_n_add:
  "decode_n dec (m + n) c = res_bind (decode_n dec m c) (\<lambda>(xs, c1).
     res_bind (decode_n dec n c1) (\<lambda>(ys, c2). Inr (xs @ ys, c2)))"
proof (induction m arbitrary: c)
  case 0
  show ?case by (cases "decode_n dec n c") auto
next
  case (Suc m)
  show ?case
    by (cases "dec c") (auto simp: Suc.IH res_bind_assoc split_beta intro!: arg_cong2 [where f = res_bind])
qed

locale codec =
  fixes enc :: "'v \<Rightarrow> 'f + bytes"
    and dec :: "cursor \<Rightarrow> 'e + 'w \<times> cursor"
    and view :: "'v \<Rightarrow> 'w"
    and ok :: "'v \<Rightarrow> bool"
  assumes enc_ok: "ok v \<Longrightarrow> \<exists>bs. enc v = Inr bs"
    and dec_enc: "ok v \<Longrightarrow> enc v = Inr bs \<Longrightarrow> upcoming c bs \<Longrightarrow>
      dec c = Inr (view v, advance (length bs) c)"
begin

lemma enc_list_ok: "list_all ok vs \<Longrightarrow> \<exists>bs. buffer_concat (map enc vs) = Inr bs"
proof (induction vs)
  case (Cons v vs)
  then obtain b bs where "enc v = Inr b" "buffer_concat (map enc vs) = Inr bs"
    using enc_ok [of v] by auto
  then show ?case by simp
qed simp

lemma dec_list:
  assumes "list_all ok vs" "buffer_concat (map enc vs) = Inr bs" "upcoming c bs"
  shows "decode_n dec (length vs) c = Inr (map view vs, advance (length bs) c)"
  using assms
proof (induction vs arbitrary: c bs)
  case Nil
  then show ?case by simp
next
  case (Cons v vs)
  from Cons.prems obtain b bs' where b: "enc v = Inr b" and
    bs': "buffer_concat (map enc vs) = Inr bs'" and bs: "bs = b @ bs'"
    by (auto simp: res_bind_eq_Inr_iff)
  from Cons.prems(3) have up: "upcoming c b" "upcoming (advance (length b) c) bs'"
    by (simp_all add: bs upcoming_append)
  have "dec c = Inr (view v, advance (length b) c)"
    using Cons.prems(1) b up(1) by (intro dec_enc) auto
  moreover have "decode_n dec (length vs) (advance (length b) c)
      = Inr (map view vs, advance (length bs') (advance (length b) c))"
    using Cons.prems(1) bs' up(2) by (intro Cons.IH) auto
  ultimately show ?case by (simp add: bs)
qed

end

lemma codec_ext:
  assumes "codec enc dec view ok"
    and "\<And>v. enc' v = enc v" "\<And>c. dec' c = dec c" "\<And>v. ok' v = ok v"
  shows "codec enc' dec' view ok'"
proof -
  have "enc' = enc" "dec' = dec" "ok' = ok"
    using assms(2-4) by (simp_all add: fun_eq_iff)
  then show ?thesis using assms(1) by simp
qed

end
