(* ===== verification/Sol_Borsh.thy ===== *)
theory Sol_Borsh
  imports Byte_Cursor
begin

text \<open>
  The byte decoder the contracts on Ethereum run on what the relay sends them:
  \<^verbatim>\<open>contracts/eth/nearbridge/contracts/Borsh.sol\<close> and the byte swaps of \<^verbatim>\<open>Utils.sol\<close>. A
  \<^verbatim>\<open>Borsh.Data\<close> is a cursor; \<^verbatim>\<open>require\<close> and \<^verbatim>\<open>revert\<close> are values \<open>Inl (Revert msg)\<close>; unsigned
  integers keep their width. The lemmas show that each \<^verbatim>\<open>decodeU\<close> routine, written with shifts
  and masks over a big-endian word, is the little-endian reading of its bytes.
\<close>

unbundle bit_operations_syntax

datatype sol_error = Revert string

section \<open>Utils.sol\<close>

definition swapBytes4 :: "32 word \<Rightarrow> 32 word" where
  "swapBytes4 v0 = (let v = push_bit 8 (v0 AND 0x00ff00ff) OR drop_bit 8 (v0 AND 0xff00ff00)
     in push_bit 16 v OR drop_bit 16 v)"

definition swapBytes8 :: "64 word \<Rightarrow> 64 word" where
  "swapBytes8 v0 = (let
      v1 = push_bit 8 (v0 AND 0x00ff00ff00ff00ff) OR drop_bit 8 (v0 AND 0xff00ff00ff00ff00);
      v2 = push_bit 16 (v1 AND 0x0000ffff0000ffff) OR drop_bit 16 (v1 AND 0xffff0000ffff0000)
     in push_bit 32 v2 OR drop_bit 32 v2)"

definition swapBytes16 :: "128 word \<Rightarrow> 128 word" where
  "swapBytes16 v0 = (let
      v1 = push_bit 8 (v0 AND 0x00ff00ff00ff00ff00ff00ff00ff00ff) OR
            drop_bit 8 (v0 AND 0xff00ff00ff00ff00ff00ff00ff00ff00);
      v2 = push_bit 16 (v1 AND 0x0000ffff0000ffff0000ffff0000ffff) OR
            drop_bit 16 (v1 AND 0xffff0000ffff0000ffff0000ffff0000);
      v3 = push_bit 32 (v2 AND 0x00000000ffffffff00000000ffffffff) OR
            drop_bit 32 (v2 AND 0xffffffff00000000ffffffff00000000)
     in push_bit 64 v3 OR drop_bit 64 v3)"


text \<open>\<^verbatim>\<open>uintN(bytesN(x))\<close>: the big-endian number of the first bytes of a memory word.\<close>

definition be_word :: "bytes \<Rightarrow> 'a::len word" where
  "be_word bs = word_of_nat (le_nat (rev bs))"

lemma bit_swapBytes4:
  assumes "n < 32"
  shows "bit (swapBytes4 v) n = bit v (8 * (3 - n div 8) + n mod 8)"
proof -
  have "list_all (\<lambda>n. bit (swapBytes4 v) n = bit v (8 * (3 - n div 8) + n mod 8)) [0..<32]"
    by (simp add: swapBytes4_def Let_def bit_simps upt_rec [of 0] upt_rec [of "Suc 0"]
        numeral_2_eq_2 [symmetric])
  with assms show ?thesis by (simp add: list_all_iff)
qed

lemma bit_swapBytes8:
  assumes "n < 64"
  shows "bit (swapBytes8 v) n = bit v (8 * (7 - n div 8) + n mod 8)"
proof -
  have "list_all (\<lambda>n. bit (swapBytes8 v) n = bit v (8 * (7 - n div 8) + n mod 8)) [0..<64]"
    by (simp add: swapBytes8_def Let_def bit_simps upt_rec [of 0] upt_rec [of "Suc 0"]
        numeral_2_eq_2 [symmetric])
  with assms show ?thesis by (simp add: list_all_iff)
qed

lemma bit_swapBytes16:
  assumes "n < 128"
  shows "bit (swapBytes16 v) n = bit v (8 * (15 - n div 8) + n mod 8)"
proof -
  have "list_all (\<lambda>n. bit (swapBytes16 v) n = bit v (8 * (15 - n div 8) + n mod 8)) [0..<128]"
    by (simp add: swapBytes16_def Let_def bit_simps upt_rec [of 0] upt_rec [of "Suc 0"]
        numeral_2_eq_2 [symmetric])
  with assms show ?thesis by (simp add: list_all_iff)
qed


lemma bit_le_nat: "bit (le_nat bs) n \<longleftrightarrow> n div 8 < length bs \<and> bit (bs ! (n div 8)) (n mod 8)"
proof (induction bs arbitrary: n)
  case (Cons b bs)
  have "le_nat (b # bs) = push_bit 8 (le_nat bs) + take_bit 8 (unat b)"
    using unat_byte_less [of b] by (simp add: push_bit_eq_mult take_bit_eq_mod)
  also have "\<dots> = push_bit 8 (le_nat bs) OR take_bit 8 (unat b)"
    by (rule disjunctive_add) (auto simp: bit_simps)
  finally have "le_nat (b # bs) = push_bit 8 (le_nat bs) OR take_bit 8 (unat b)" .
  then have "bit (le_nat (b # bs)) n = ((8 \<le> n \<and> bit (le_nat bs) (n - 8)) \<or> (n < 8 \<and> bit (unat b) n))"
    by (auto simp: bit_simps)
  then show ?case
    by (cases "n < 8") (auto simp: Cons.IH bit_simps nth_Cons' le_div_geq le_mod_geq)
qed simp

text \<open>A word whose bytes are those of a big-endian reading in reverse order is the little-endian reading.\<close>

lemma reversed_word:
  fixes w :: "'a::len word"
  assumes k: "LENGTH('a) = 8 * k" and len: "length bs = k"
  and sw: "\<And>n. n < LENGTH('a) \<Longrightarrow> bit w n = bit (be_word bs :: 'a word) (8 * (k - 1 - n div 8) + n mod 8)"
  shows "unat w = le_nat bs"
proof (rule bit_eqI)
  fix n
  have B: "bit (unat w) n \<longleftrightarrow> n < LENGTH('a) \<and> bit w n"
    by (auto simp: bit_simps dest: bit_imp_le_length)
  show "bit (unat w) n = bit (le_nat bs) n"
  proof (cases "n < 8 * k")
    case True
    let ?m = "8 * (k - 1 - n div 8) + n mod 8"
    from True have q: "n div 8 < k" by simp
    have md: "?m div 8 = k - 1 - n div 8" "?m mod 8 = n mod 8" by simp_all
    have m: "?m < 8 * k"
      using q mod_less_divisor [of 8 n] by linarith
    have "bit w n \<longleftrightarrow> bit (le_nat (rev bs)) ?m"
      using True m by (simp add: sw k be_word_def bit_simps)
    also have "\<dots> \<longleftrightarrow> bit (bs ! (n div 8)) (n mod 8)"
      using q len by (simp only: bit_le_nat md) (auto simp: rev_nth)
    finally show ?thesis using True q len by (simp add: B k bit_le_nat)
  next
    case False
    then show ?thesis using len by (auto simp: B k bit_le_nat)
  qed
qed

lemma unat_swapBytes4: "length bs = 4 \<Longrightarrow> unat (swapBytes4 (be_word bs)) = le_nat bs"
  by (rule reversed_word [where k = 4]) (simp_all add: bit_swapBytes4)

lemma unat_swapBytes8: "length bs = 8 \<Longrightarrow> unat (swapBytes8 (be_word bs)) = le_nat bs"
  by (rule reversed_word [where k = 8]) (simp_all add: bit_swapBytes8)

lemma unat_swapBytes16: "length bs = 16 \<Longrightarrow> unat (swapBytes16 (be_word bs)) = le_nat bs"
  by (rule reversed_word [where k = 16]) (simp_all add: bit_swapBytes16)

section \<open>Borsh.sol\<close>

text \<open>
  \<^verbatim>\<open>read\<close> returns the 32-byte word at the pointer, of which every caller keeps the first
  \<^verbatim>\<open>length\<close> bytes (\<^verbatim>\<open>bytes1\<close>, \<^verbatim>\<open>bytes4\<close>, \<dots>): the model returns these bytes. The sum in
  \<^verbatim>\<open>requireSpace\<close> does not wrap, since every length is below \<open>2 ^ 32\<close>.
\<close>

definition requireSpace :: "nat \<Rightarrow> cursor \<Rightarrow> sol_error + unit" where
  "requireSpace len c =
     (if coff c + len \<le> length (cbuf c) then Inr () else Inl (Revert ''Parse error: unexpected EOI''))"

definition sol_read :: "nat \<Rightarrow> cursor \<Rightarrow> sol_error + bytes \<times> cursor" where
  "sol_read len c = res_bind (requireSpace len c) (\<lambda>_.
     Inr (take len (drop (coff c) (cbuf c)), advance len c))"

definition sol_done :: "cursor \<Rightarrow> sol_error + unit" where
  "sol_done c = (if coff c = length (cbuf c) then Inr () else Inl (Revert ''Parse error: EOI expected''))"

definition decodeU8 :: "cursor \<Rightarrow> sol_error + byte \<times> cursor" where
  "decodeU8 c = res_bind (sol_read 1 c) (\<lambda>(bs, c1). Inr (be_word bs, c1))"

definition decodeU32 :: "cursor \<Rightarrow> sol_error + 32 word \<times> cursor" where
  "decodeU32 c = res_bind (sol_read 4 c) (\<lambda>(bs, c1). Inr (swapBytes4 (be_word bs), c1))"

definition decodeU64 :: "cursor \<Rightarrow> sol_error + 64 word \<times> cursor" where
  "decodeU64 c = res_bind (sol_read 8 c) (\<lambda>(bs, c1). Inr (swapBytes8 (be_word bs), c1))"

definition decodeU128 :: "cursor \<Rightarrow> sol_error + 128 word \<times> cursor" where
  "decodeU128 c = res_bind (sol_read 16 c) (\<lambda>(bs, c1). Inr (swapBytes16 (be_word bs), c1))"

definition decodeBytes32 :: "cursor \<Rightarrow> sol_error + bytes \<times> cursor" where
  "decodeBytes32 c = sol_read 32 c"

definition decodeBool :: "cursor \<Rightarrow> sol_error + bool \<times> cursor" where
  "decodeBool c = res_bind (decodeU8 c) (\<lambda>(b, c1).
     if b \<le> 1 then Inr (b \<noteq> 0, c1) else Inl (Revert ''Parse error: invalid bool''))"

definition skipBytes :: "cursor \<Rightarrow> sol_error + cursor" where
  "skipBytes c = res_bind (decodeU32 c) (\<lambda>(len, c1).
     res_bind (requireSpace (unat len) c1) (\<lambda>_. Inr (advance (unat len) c1)))"

definition decodeBytes :: "cursor \<Rightarrow> sol_error + bytes \<times> cursor" where
  "decodeBytes c = res_bind (decodeU32 c) (\<lambda>(len, c1).
     res_bind (requireSpace (unat len) c1) (\<lambda>_.
       Inr (take (unat len) (drop (coff c1) (cbuf c1)), advance (unat len) c1)))"

definition peekSha256 :: "(bytes \<Rightarrow> bytes) \<Rightarrow> nat \<Rightarrow> cursor \<Rightarrow> sol_error + bytes" where
  "peekSha256 sha len c = res_bind (requireSpace len c) (\<lambda>_.
     Inr (sha (take len (drop (coff c) (cbuf c)))))"

text \<open>Reading what is known to come next.\<close>

named_theorems sol_reads \<open>contract decoders in front of known bytes\<close>

lemma requireSpace_upcoming [sol_reads]:
  "upcoming c bs \<Longrightarrow> bs \<noteq> [] \<or> coff c \<le> length (cbuf c) \<Longrightarrow> requireSpace (length bs) c = Inr ()"
  using upcoming_length [of c bs] by (auto simp: requireSpace_def)

lemma sol_read_upcoming:
  "upcoming c bs \<Longrightarrow> length bs = n \<Longrightarrow> 0 < n \<Longrightarrow> sol_read n c = Inr (bs, advance n c)"
  using requireSpace_upcoming [of c bs] upcoming_take [of c bs] by (auto simp: sol_read_def)

lemma decodeU8_upcoming [sol_reads]: "upcoming c [b] \<Longrightarrow> decodeU8 c = Inr (b, advance 1 c)"
  by (simp add: decodeU8_def sol_read_upcoming [where bs = "[b]"] be_word_def)

lemma decodeU32_upcoming [sol_reads]:
  "upcoming c (le_bytes 4 n) \<Longrightarrow> n < 2 ^ 32 \<Longrightarrow> decodeU32 c = Inr (word_of_nat n, advance 4 c)"
  by (simp add: decodeU32_def sol_read_upcoming [where bs = "le_bytes 4 n"]
      word_unat_eq_iff unat_swapBytes4 unat_of_nat)

lemma decodeU64_upcoming [sol_reads]:
  "upcoming c (le_bytes 8 n) \<Longrightarrow> n < 2 ^ 64 \<Longrightarrow> decodeU64 c = Inr (word_of_nat n, advance 8 c)"
  by (simp add: decodeU64_def sol_read_upcoming [where bs = "le_bytes 8 n"]
      word_unat_eq_iff unat_swapBytes8 unat_of_nat)

lemma decodeU128_upcoming [sol_reads]:
  "upcoming c (le_bytes 16 n) \<Longrightarrow> n < 2 ^ 128 \<Longrightarrow> decodeU128 c = Inr (word_of_nat n, advance 16 c)"
  by (simp add: decodeU128_def sol_read_upcoming [where bs = "le_bytes 16 n"]
      word_unat_eq_iff unat_swapBytes16 unat_of_nat)

lemma decodeBytes32_upcoming [sol_reads]:
  "upcoming c bs \<Longrightarrow> length bs = 32 \<Longrightarrow> decodeBytes32 c = Inr (bs, advance 32 c)"
  by (simp add: decodeBytes32_def sol_read_upcoming)

lemma peekSha256_upcoming [sol_reads]:
  "upcoming c bs \<Longrightarrow> length bs = n \<Longrightarrow> 0 < n \<Longrightarrow> peekSha256 sha n c = Inr (sha bs)"
  using requireSpace_upcoming [of c bs] upcoming_take [of c bs] by (auto simp: peekSha256_def)

lemma decodeBool_upcoming [sol_reads]:
  "upcoming c [0] \<Longrightarrow> decodeBool c = Inr (False, advance 1 c)"
  "upcoming c [1] \<Longrightarrow> decodeBool c = Inr (True, advance 1 c)"
  by (simp_all add: decodeBool_def decodeU8_upcoming)

lemma upcoming_in_range: "upcoming c xs \<Longrightarrow> xs \<noteq> [] \<Longrightarrow> coff (advance (length xs) c) \<le> length (cbuf c)"
  using upcoming_length [of c xs] by auto

lemma skipBytes_upcoming [sol_reads]:
  assumes "upcoming c (le_bytes 4 (length bs) @ bs)" "length bs < 2 ^ 32"
  shows "skipBytes c = Inr (advance (4 + length bs) c)"
proof -
  have up: "upcoming c (le_bytes 4 (length bs))" "upcoming (advance 4 c) bs"
    using assms(1) by (simp_all add: upcoming_append)
  have "requireSpace (length bs) (advance 4 c) = Inr ()"
    using up(2) upcoming_in_range [OF up(1)] by (intro requireSpace_upcoming) simp_all
  then show ?thesis
    using up assms(2) by (simp add: skipBytes_def decodeU32_upcoming unat_of_nat)
qed

lemma decodeBytes_upcoming [sol_reads]:
  assumes "upcoming c (le_bytes 4 (length bs) @ bs)" "length bs < 2 ^ 32"
  shows "decodeBytes c = Inr (bs, advance (4 + length bs) c)"
proof -
  have up: "upcoming c (le_bytes 4 (length bs))" "upcoming (advance 4 c) bs"
    using assms(1) by (simp_all add: upcoming_append)
  have "requireSpace (length bs) (advance 4 c) = Inr ()"
    using up(2) upcoming_in_range [OF up(1)] by (intro requireSpace_upcoming) simp_all
  then show ?thesis
    using up assms(2) upcoming_take [OF up(2)]
    by (simp add: decodeBytes_def decodeU32_upcoming unat_of_nat)
qed

end
