(* ===== verification/Borshify.thy ===== *)
theory Borshify
  imports Byte_Cursor
begin

text \<open>
  The hand-written encoders of the NEAR-to-Ethereum direction: \<^verbatim>\<open>borshify\<close> and
  \<^verbatim>\<open>borshifyInitialValidators\<close> of \<^verbatim>\<open>utils/borsh.js\<close> and \<^verbatim>\<open>borshifyOutcomeProof\<close> of
  \<^verbatim>\<open>utils/borshify-proof.js\<close>. Their inputs are the JSON objects the NEAR node returns.

  The packages they call are fields of \<open>bridge_lib\<close>: \<open>bs58_decode\<close> is \<^verbatim>\<open>bs58.decode\<close> (\<open>None\<close>
  where it throws) and \<open>toBN_toBuffer v len\<close> is \<^verbatim>\<open>Web3.utils.toBN(v).toBuffer('le', len)\<close>. The
  predicate \<open>lib_ok\<close> states what bn.js documents of the latter: the number is padded with
  zeros to the requested length, and the call throws when the number needs more bytes.
\<close>

section \<open>The packages\<close>

record bridge_lib =
  bs58_decode :: "string \<Rightarrow> bytes option"
  toBN_toBuffer :: "nat \<Rightarrow> nat \<Rightarrow> bytes option"

definition lib_ok :: "bridge_lib \<Rightarrow> bool" where
  "lib_ok L \<longleftrightarrow> (\<forall>v len. toBN_toBuffer L v len = (if v < 256 ^ len then Some (le_bytes len v) else None))"

section \<open>The JSON objects\<close>

text \<open>
  A numeric field of a response is a JSON number or a decimal string; both denote a
  natural number, but the number zero is falsy in \<^verbatim>\<open>a || b\<close> and the string \<^verbatim>\<open>"0"\<close> is not. An
  absent field is \<open>None\<close>.
\<close>

datatype js_num = Num nat | Dec nat

fun num_value :: "js_num \<Rightarrow> nat" where
  "num_value (Num n) = n"
| "num_value (Dec n) = n"

fun num_truthy :: "js_num option \<Rightarrow> bool" where
  "num_truthy None = False"
| "num_truthy (Some (Num n)) = (n \<noteq> 0)"
| "num_truthy (Some (Dec n)) = True"

definition num_or :: "js_num option \<Rightarrow> js_num option \<Rightarrow> js_num option" where
  "num_or a b = (if num_truthy a then a else b)"

record inner_lite =
  height :: js_num
  epoch_id :: string
  next_epoch_id :: string
  prev_state_root :: string
  outcome_root :: string
  timestamp_nanosec :: "js_num option"
  timestamp :: "js_num option"
  next_bp_hash :: string
  block_merkle_root :: string

record validator =
  account_id :: string
  public_key :: string
  stake :: js_num
  validator_stake_struct_version :: "string option"

record light_client_block =
  prev_block_hash :: string
  next_block_inner_hash :: string
  lcb_inner_lite :: inner_lite
  inner_rest_hash :: string
  next_bps :: "validator list option"
  approvals_after_next :: "string option list"

section \<open>Encoders of blocks and validators\<close>

definition b58 :: "bridge_lib \<Rightarrow> string \<Rightarrow> bytes res" where
  "b58 L s = of_lib ''bs58'' (bs58_decode L s)"

definition toBuffer_le :: "bridge_lib \<Rightarrow> nat \<Rightarrow> nat \<Rightarrow> bytes res" where
  "toBuffer_le L len v = of_lib ''bn.js'' (toBN_toBuffer L v len)"

definition num_le :: "bridge_lib \<Rightarrow> nat \<Rightarrow> js_num option \<Rightarrow> bytes res" where
  "num_le L len v = (case v of None \<Rightarrow> Inl (LibraryError ''web3'')
     | Some n \<Rightarrow> toBuffer_le L len (num_value n))"

definition VALIDATOR_STAKE_V1 :: byte where
  "VALIDATOR_STAKE_V1 = 0"

definition VALIDATOR_STAKE_V2 :: byte where
  "VALIDATOR_STAKE_V2 = 1"

definition key_type :: "string \<Rightarrow> bytes" where
  "key_type k = (if take 8 k = ''ed25519:'' then [0] else [1])"

definition inner_lite_bytes :: "bridge_lib \<Rightarrow> inner_lite \<Rightarrow> bytes res" where
  "inner_lite_bytes L h = buffer_concat [
     num_le L 8 (Some (height h)),
     b58 L (epoch_id h),
     b58 L (next_epoch_id h),
     b58 L (prev_state_root h),
     b58 L (outcome_root h),
     num_le L 8 (num_or (timestamp_nanosec h) (timestamp h)),
     b58 L (next_bp_hash h),
     b58 L (block_merkle_root h)]"

definition validator_bytes :: "bridge_lib \<Rightarrow> validator \<Rightarrow> bytes res" where
  "validator_bytes L v = buffer_concat [
     Inr (if validator_stake_struct_version v = Some ''V2'' then [VALIDATOR_STAKE_V2]
          else [VALIDATOR_STAKE_V1]),
     toBuffer_le L 4 (length (account_id v)),
     Inr (utf8_bytes (account_id v)),
     Inr (key_type (public_key v)),
     b58 L (drop 8 (public_key v)),
     num_le L 16 (Some (stake v))]"

definition approval_bytes :: "bridge_lib \<Rightarrow> string option \<Rightarrow> bytes res" where
  "approval_bytes L s = (case s of
     None \<Rightarrow> Inr [0]
   | Some signature \<Rightarrow> buffer_concat [
       Inr [1], Inr (key_type signature), b58 L (drop 8 signature)])"

definition borshify :: "bridge_lib \<Rightarrow> light_client_block \<Rightarrow> bytes res" where
  "borshify L b = buffer_concat [
     b58 L (prev_block_hash b),
     b58 L (next_block_inner_hash b),
     inner_lite_bytes L (lcb_inner_lite b),
     b58 L (inner_rest_hash b),
     Inr [1],
     (case next_bps b of None \<Rightarrow> Inl JsTypeError | Some bps \<Rightarrow> toBuffer_le L 4 (length bps)),
     (case next_bps b of None \<Rightarrow> Inl JsTypeError
      | Some bps \<Rightarrow> buffer_concat (map (validator_bytes L) bps)),
     toBuffer_le L 4 (length (approvals_after_next b)),
     buffer_concat (map (approval_bytes L) (approvals_after_next b))]"

definition borshifyInitialValidators :: "bridge_lib \<Rightarrow> validator list \<Rightarrow> bytes res" where
  "borshifyInitialValidators L vs = buffer_concat [
     toBuffer_le L 4 (length vs),
     buffer_concat (map (validator_bytes L) vs)]"

section \<open>Encoder of outcome proofs\<close>

text \<open>
  \<^verbatim>\<open>Buffer.from(s, 'base64')\<close>: characters outside the two alphabets are skipped, four
  characters give three bytes, and a shorter last group gives the whole bytes it holds.
\<close>

definition b64_val :: "char \<Rightarrow> nat option" where
  "b64_val ch = (let n = of_char ch in
     if 65 \<le> n \<and> n \<le> 90 then Some (n - 65)
     else if 97 \<le> n \<and> n \<le> 122 then Some (n - 71)
     else if 48 \<le> n \<and> n \<le> 57 then Some (n + 4)
     else if n = 43 \<or> n = 45 then Some 62
     else if n = 47 \<or> n = 95 then Some 63 else None)"

fun b64_groups :: "nat list \<Rightarrow> bytes" where
  "b64_groups (a # b # c # d # r) =
     [word_of_nat (4 * a + b div 16), word_of_nat (16 * (b mod 16) + c div 4),
      word_of_nat (64 * (c mod 4) + d)] @ b64_groups r"
| "b64_groups [a, b, c] = [word_of_nat (4 * a + b div 16), word_of_nat (16 * (b mod 16) + c div 4)]"
| "b64_groups [a, b] = [word_of_nat (4 * a + b div 16)]"
| "b64_groups _ = []"

definition base64_bytes :: "string \<Rightarrow> bytes" where
  "base64_bytes s = b64_groups (List.map_filter b64_val s)"

record path_item =
  pi_hash :: string
  pi_direction :: string

record execution_status =
  SuccessValue :: "string option"
  SuccessReceiptId :: "string option"

record execution_outcome =
  logs :: "string list"
  receipt_ids :: "string list"
  gas_burnt :: js_num
  tokens_burnt :: js_num
  executor_id :: string
  status :: execution_status

record outcome_proof =
  op_proof :: "path_item list"
  op_block_hash :: string
  op_id :: string
  op_outcome :: execution_outcome

record block_header_lite =
  hl_prev_block_hash :: string
  hl_inner_rest_hash :: string
  hl_inner_lite :: inner_lite

record full_outcome_proof =
  fp_outcome_proof :: outcome_proof
  fp_block_header_lite :: block_header_lite
  fp_block_proof :: "path_item list"

definition statusToBuffer :: "bridge_lib \<Rightarrow> execution_status \<Rightarrow> bytes res" where
  "statusToBuffer L st = (case SuccessValue st of
     Some v \<Rightarrow> (let data = base64_bytes v in
       buffer_concat [Inr [2], toBuffer_le L 4 (length data), Inr data])
   | None \<Rightarrow> (case SuccessReceiptId st of
       Some r \<Rightarrow> buffer_concat [Inr [3], b58 L r]
     | None \<Rightarrow> Inl (JsError ''status not supported'')))"

definition path_item_bytes :: "bridge_lib \<Rightarrow> path_item \<Rightarrow> bytes res" where
  "path_item_bytes L p = buffer_concat [
     b58 L (pi_hash p),
     Inr [if pi_direction p = ''Right'' then 1 else 0]]"

definition outcome_bytes :: "bridge_lib \<Rightarrow> execution_outcome \<Rightarrow> bytes res" where
  "outcome_bytes L oc = buffer_concat [
     toBuffer_le L 4 (length (logs oc)),
     toBuffer_le L 4 (length (receipt_ids oc)),
     buffer_concat (map (b58 L) (receipt_ids oc)),
     num_le L 8 (Some (gas_burnt oc)),
     num_le L 16 (Some (tokens_burnt oc)),
     toBuffer_le L 4 (length (executor_id oc)),
     Inr (utf8_bytes (executor_id oc)),
     statusToBuffer L (status oc)]"

definition borshifyOutcomeProof :: "bridge_lib \<Rightarrow> full_outcome_proof \<Rightarrow> bytes res" where
  "borshifyOutcomeProof L p = (let pr = fp_outcome_proof p; hdr = fp_block_header_lite p in
     buffer_concat [
       toBuffer_le L 4 (length (op_proof pr)),
       buffer_concat (map (path_item_bytes L) (op_proof pr)),
       b58 L (op_block_hash pr),
       b58 L (op_id pr),
       outcome_bytes L (op_outcome pr),
       toBuffer_le L 4 0,
       b58 L (hl_prev_block_hash hdr),
       b58 L (hl_inner_rest_hash hdr),
       inner_lite_bytes L (hl_inner_lite hdr),
       toBuffer_le L 4 (length (fp_block_proof p)),
       buffer_concat (map (path_item_bytes L) (fp_block_proof p))])"

section \<open>Well-formed responses\<close>

text \<open>
  What the NEAR node promises of its answers: hashes are 32 bytes, keys are ed25519 keys
  of 32 bytes, signatures are 64 bytes, numbers fit their width, account names are ASCII.
\<close>

definition hash_ok :: "bridge_lib \<Rightarrow> string \<Rightarrow> bool" where
  "hash_ok L s = (case bs58_decode L s of None \<Rightarrow> False | Some bs \<Rightarrow> length bs = 32)"

definition the_hash :: "bridge_lib \<Rightarrow> string \<Rightarrow> bytes" where
  "the_hash L s = (case bs58_decode L s of None \<Rightarrow> [] | Some bs \<Rightarrow> bs)"

definition num_ok :: "nat \<Rightarrow> js_num option \<Rightarrow> bool" where
  "num_ok len v = (case v of None \<Rightarrow> False | Some n \<Rightarrow> num_value n < 256 ^ len)"

definition the_num :: "js_num option \<Rightarrow> nat" where
  "the_num v = (case v of None \<Rightarrow> 0 | Some n \<Rightarrow> num_value n)"

definition inner_lite_ok :: "bridge_lib \<Rightarrow> inner_lite \<Rightarrow> bool" where
  "inner_lite_ok L h \<longleftrightarrow> num_ok 8 (Some (height h))
     \<and> num_ok 8 (num_or (timestamp_nanosec h) (timestamp h))
     \<and> hash_ok L (epoch_id h) \<and> hash_ok L (next_epoch_id h) \<and> hash_ok L (prev_state_root h)
     \<and> hash_ok L (outcome_root h) \<and> hash_ok L (next_bp_hash h) \<and> hash_ok L (block_merkle_root h)"

definition name_ok :: "string \<Rightarrow> bool" where
  "name_ok s \<longleftrightarrow> ascii s \<and> length s < 2 ^ 32"

definition validator_ok :: "bridge_lib \<Rightarrow> validator \<Rightarrow> bool" where
  "validator_ok L v \<longleftrightarrow> name_ok (account_id v) \<and> startsWith (public_key v) ''ed25519:''
     \<and> hash_ok L (drop 8 (public_key v)) \<and> num_ok 16 (Some (stake v))"

definition approval_ok :: "bridge_lib \<Rightarrow> string option \<Rightarrow> bool" where
  "approval_ok L s = (case s of None \<Rightarrow> True
     | Some sg \<Rightarrow> startsWith sg ''ed25519:'' \<and>
         (case bs58_decode L (drop 8 sg) of None \<Rightarrow> False | Some bs \<Rightarrow> length bs = 64))"

section \<open>What the encoders produce\<close>

named_theorems enc_simps \<open>encoders on well-formed values\<close>

lemma b58_ok [enc_simps]: "hash_ok L s \<Longrightarrow> b58 L s = Inr (the_hash L s)"
  by (auto simp: b58_def hash_ok_def the_hash_def split: option.splits)

lemma the_hash_length [enc_simps]: "hash_ok L s \<Longrightarrow> length (the_hash L s) = 32"
  by (auto simp: hash_ok_def the_hash_def split: option.splits)

lemma toBuffer_le_ok [enc_simps]: "lib_ok L \<Longrightarrow> v < 256 ^ k \<Longrightarrow> toBuffer_le L k v = Inr (le_bytes k v)"
  by (simp add: toBuffer_le_def lib_ok_def)

lemma toBuffer_le_too_big: "lib_ok L \<Longrightarrow> 256 ^ k \<le> v \<Longrightarrow> toBuffer_le L k v = Inl (LibraryError ''bn.js'')"
  by (simp add: toBuffer_le_def lib_ok_def)

lemma num_le_ok [enc_simps]: "lib_ok L \<Longrightarrow> num_ok k v \<Longrightarrow> num_le L k v = Inr (le_bytes k (the_num v))"
  by (auto simp: num_le_def num_ok_def the_num_def toBuffer_le_ok split: option.splits)

lemma num_ok_bound: "num_ok k v \<Longrightarrow> the_num v < 256 ^ k"
  by (auto simp: num_ok_def the_num_def split: option.splits)

lemma key_type_ok [enc_simps]: "startsWith k ''ed25519:'' \<Longrightarrow> key_type k = [0]"
  by (simp add: key_type_def startsWith_def numeral_eq_Suc)

end
