(* ===== verification/Near_Decoder.thy ===== *)
theory Near_Decoder
  imports Sol_Borsh Borshify
begin

text \<open>
  The decoders of NEAR structures in the Ethereum contracts,
  \<^verbatim>\<open>contracts/eth/nearbridge/contracts/NearDecoder.sol\<close> and
  \<^verbatim>\<open>contracts/eth/nearprover/contracts/ProofDecoder.sol\<close>, and the agreement of the relay's
  encoders with them. SHA-256 is the parameter \<open>sha\<close>.

  Each encoder/decoder pair is an interpretation of the locale \<open>codec\<close>: block producers,
  optional signatures, merkle path items and receipt identifiers; the lists of the wire
  formats are then instances of \<open>codec.dec_list\<close>.
\<close>

section \<open>NearDecoder.sol\<close>

definition decodePublicKey :: "cursor \<Rightarrow> sol_error + bytes \<times> cursor" where
  "decodePublicKey c = res_bind (decodeU8 c) (\<lambda>(t, c1).
     if t = 0 then decodeBytes32 c1 else Inl (Revert ''Parse error: invalid key type''))"

record sol_signature =
  sig_r :: bytes
  sig_s :: bytes

definition decodeSignature :: "cursor \<Rightarrow> sol_error + sol_signature \<times> cursor" where
  "decodeSignature c = res_bind (decodeU8 c) (\<lambda>(t, c1).
     if t = 0 then
       res_bind (decodeBytes32 c1) (\<lambda>(r, c2).
       res_bind (decodeBytes32 c2) (\<lambda>(s, c3). Inr (\<lparr>sig_r = r, sig_s = s\<rparr>, c3)))
     else Inl (Revert ''Parse error: invalid signature type''))"

record sol_block_producer =
  bp_publicKey :: bytes
  bp_stake :: "128 word"
  bp_isChunkOnly :: bool

definition decodeBlockProducer :: "cursor \<Rightarrow> sol_error + sol_block_producer \<times> cursor" where
  "decodeBlockProducer c = res_bind (decodeU8 c) (\<lambda>(version, c1).
     res_bind (skipBytes c1) (\<lambda>c2.
     res_bind (decodePublicKey c2) (\<lambda>(k, c3).
     res_bind (decodeU128 c3) (\<lambda>(st, c4).
       if version = 1 then res_bind (decodeU8 c4) (\<lambda>(f, c5).
         Inr (\<lparr>bp_publicKey = k, bp_stake = st, bp_isChunkOnly = (f \<noteq> 0)\<rparr>, c5))
       else Inr (\<lparr>bp_publicKey = k, bp_stake = st, bp_isChunkOnly = False\<rparr>, c4)))))"

definition decodeBlockProducers :: "cursor \<Rightarrow> sol_error + sol_block_producer list \<times> cursor" where
  "decodeBlockProducers c = res_bind (decodeU32 c) (\<lambda>(len, c1).
     decode_n decodeBlockProducer (unat len) c1)"

record sol_optional_block_producers =
  obp_some :: bool
  obp_blockProducers :: "sol_block_producer list"
  obp_hash :: bytes

definition decodeOptionalBlockProducers ::
  "(bytes \<Rightarrow> bytes) \<Rightarrow> cursor \<Rightarrow> sol_error + sol_optional_block_producers \<times> cursor" where
  "decodeOptionalBlockProducers sha c = res_bind (decodeBool c) (\<lambda>(b, c1).
     if b then res_bind (decodeBlockProducers c1) (\<lambda>(ps, c2).
       Inr (\<lparr>obp_some = True, obp_blockProducers = ps,
             obp_hash = sha (take (coff c2 - coff c1) (drop (coff c1) (cbuf c1)))\<rparr>, c2))
     else Inr (\<lparr>obp_some = False, obp_blockProducers = [], obp_hash = replicate 32 0\<rparr>, c1))"

definition decodeOptionalSignature :: "cursor \<Rightarrow> sol_error + sol_signature option \<times> cursor" where
  "decodeOptionalSignature c = res_bind (decodeBool c) (\<lambda>(b, c1).
     if b then res_bind (decodeSignature c1) (\<lambda>(s, c2). Inr (Some s, c2)) else Inr (None, c1))"

record sol_inner_lite =
  sil_height :: "64 word"
  sil_epoch_id :: bytes
  sil_next_epoch_id :: bytes
  sil_prev_state_root :: bytes
  sil_outcome_root :: bytes
  sil_timestamp :: "64 word"
  sil_next_bp_hash :: bytes
  sil_block_merkle_root :: bytes
  sil_hash :: bytes

definition decodeBlockHeaderInnerLite ::
  "(bytes \<Rightarrow> bytes) \<Rightarrow> cursor \<Rightarrow> sol_error + sol_inner_lite \<times> cursor" where
  "decodeBlockHeaderInnerLite sha c0 = res_bind (peekSha256 sha 208 c0) (\<lambda>hsh.
     res_bind (decodeU64 c0) (\<lambda>(hgt, c1).
     res_bind (decodeBytes32 c1) (\<lambda>(ep, c2).
     res_bind (decodeBytes32 c2) (\<lambda>(nep, c3).
     res_bind (decodeBytes32 c3) (\<lambda>(psr, c4).
     res_bind (decodeBytes32 c4) (\<lambda>(outr, c5).
     res_bind (decodeU64 c5) (\<lambda>(ts, c6).
     res_bind (decodeBytes32 c6) (\<lambda>(nbp, c7).
     res_bind (decodeBytes32 c7) (\<lambda>(bmr, c8).
       Inr (\<lparr>sil_height = hgt, sil_epoch_id = ep, sil_next_epoch_id = nep,
             sil_prev_state_root = psr, sil_outcome_root = outr, sil_timestamp = ts,
             sil_next_bp_hash = nbp, sil_block_merkle_root = bmr, sil_hash = hsh\<rparr>, c8))))))))))"

record sol_light_client_block =
  slb_prev_block_hash :: bytes
  slb_next_block_inner_hash :: bytes
  slb_inner_lite :: sol_inner_lite
  slb_inner_rest_hash :: bytes
  slb_next_bps :: sol_optional_block_producers
  slb_approvals_after_next :: "sol_signature option list"
  slb_hash :: bytes
  slb_next_hash :: bytes

definition decodeLightClientBlock ::
  "(bytes \<Rightarrow> bytes) \<Rightarrow> cursor \<Rightarrow> sol_error + sol_light_client_block \<times> cursor" where
  "decodeLightClientBlock sha c0 =
     res_bind (decodeBytes32 c0) (\<lambda>(prev, c1).
     res_bind (decodeBytes32 c1) (\<lambda>(nbih, c2).
     res_bind (decodeBlockHeaderInnerLite sha c2) (\<lambda>(il, c3).
     res_bind (decodeBytes32 c3) (\<lambda>(rest, c4).
     res_bind (decodeOptionalBlockProducers sha c4) (\<lambda>(bps, c5).
     res_bind (decodeU32 c5) (\<lambda>(len, c6).
     res_bind (decode_n decodeOptionalSignature (unat len) c6) (\<lambda>(aps, c7).
       let h = sha (sha (sil_hash il @ rest) @ prev) in
       Inr (\<lparr>slb_prev_block_hash = prev, slb_next_block_inner_hash = nbih, slb_inner_lite = il,
             slb_inner_rest_hash = rest, slb_next_bps = bps, slb_approvals_after_next = aps,
             slb_hash = h, slb_next_hash = sha (nbih @ h)\<rparr>, c7))))))))"

section \<open>ProofDecoder.sol\<close>

text \<open>Fields of a struct that no branch assigns keep the default value of their type.\<close>

record sol_execution_status =
  st_enumIndex :: byte
  st_unknown :: bool
  st_failed :: bool
  st_successValue :: bytes
  st_successReceiptId :: bytes

definition zero_bytes32 :: bytes where
  "zero_bytes32 = replicate 32 0"

definition decodeExecutionStatus :: "cursor \<Rightarrow> sol_error + sol_execution_status \<times> cursor" where
  "decodeExecutionStatus c = res_bind (decodeU8 c) (\<lambda>(i, c1).
     let st = \<lparr>st_enumIndex = i, st_unknown = False, st_failed = False, st_successValue = [],
               st_successReceiptId = zero_bytes32\<rparr> in
     if i = 0 then Inr (st\<lparr>st_unknown := True\<rparr>, c1)
     else if i = 1 then Inr (st\<lparr>st_failed := True\<rparr>, c1)
     else if i = 2 then res_bind (decodeBytes c1) (\<lambda>(v, c2). Inr (st\<lparr>st_successValue := v\<rparr>, c2))
     else if i = 3 then res_bind (decodeBytes32 c1) (\<lambda>(v, c2). Inr (st\<lparr>st_successReceiptId := v\<rparr>, c2))
     else Inl (Revert ''NearDecoder: decodeExecutionStatus index out of range''))"

record sol_execution_outcome =
  so_logs :: "bytes list"
  so_receipt_ids :: "bytes list"
  so_gas_burnt :: "64 word"
  so_tokens_burnt :: "128 word"
  so_executor_id :: bytes
  so_status :: sol_execution_status
  so_merkelization_hashes :: "bytes list"

definition decodeExecutionOutcome ::
  "(bytes \<Rightarrow> bytes) \<Rightarrow> cursor \<Rightarrow> sol_error + sol_execution_outcome \<times> cursor" where
  "decodeExecutionOutcome sha c0 =
     res_bind (decodeU32 c0) (\<lambda>(nlogs, c1).
     res_bind (decode_n decodeBytes (unat nlogs) c1) (\<lambda>(lgs, c2).
     res_bind (decodeU32 c2) (\<lambda>(nrec, c3).
     res_bind (decode_n decodeBytes32 (unat nrec) c3) (\<lambda>(rids, c4).
     res_bind (decodeU64 c4) (\<lambda>(gas, c5).
     res_bind (decodeU128 c5) (\<lambda>(tok, c6).
     res_bind (decodeBytes c6) (\<lambda>(ex, c7).
     res_bind (decodeExecutionStatus c7) (\<lambda>(st, c8).
       Inr (\<lparr>so_logs = lgs, so_receipt_ids = rids, so_gas_burnt = gas, so_tokens_burnt = tok,
             so_executor_id = ex, so_status = st,
             so_merkelization_hashes =
               sha (take (coff c8 - coff c2) (drop (coff c2) (cbuf c2))) # map sha lgs\<rparr>, c8)))))))))"

definition decodeMerklePathItem :: "cursor \<Rightarrow> sol_error + (bytes \<times> byte) \<times> cursor" where
  "decodeMerklePathItem c = res_bind (decodeBytes32 c) (\<lambda>(h, c1).
     res_bind (decodeU8 c1) (\<lambda>(d, c2).
       if d < 2 then Inr ((h, d), c2)
       else Inl (Revert ''ProofDecoder: MerklePathItem direction should be 0 or 1'')))"

definition decodeMerklePath :: "cursor \<Rightarrow> sol_error + (bytes \<times> byte) list \<times> cursor" where
  "decodeMerklePath c = res_bind (decodeU32 c) (\<lambda>(len, c1).
     decode_n decodeMerklePathItem (unat len) c1)"

record sol_outcome_with_id =
  soi_id :: bytes
  soi_outcome :: sol_execution_outcome
  soi_hash :: bytes

text \<open>
  \<^verbatim>\<open>abi.encodePacked(Utils.swapBytes4(uint32(len)), id, hashes)\<close>: the length as four
  little-endian bytes, then the 32-byte values one after the other.
\<close>

definition decodeExecutionOutcomeWithId ::
  "(bytes \<Rightarrow> bytes) \<Rightarrow> cursor \<Rightarrow> sol_error + sol_outcome_with_id \<times> cursor" where
  "decodeExecutionOutcomeWithId sha c = res_bind (decodeBytes32 c) (\<lambda>(oid, c1).
     res_bind (decodeExecutionOutcome sha c1) (\<lambda>(oc, c2).
       let len = 1 + length (so_merkelization_hashes oc) in
       Inr (\<lparr>soi_id = oid, soi_outcome = oc,
             soi_hash = sha (le_bytes 4 len @ oid @ concat (so_merkelization_hashes oc))\<rparr>, c2)))"

record sol_outcome_with_proof =
  sop_proof :: "(bytes \<times> byte) list"
  sop_block_hash :: bytes
  sop_outcome_with_id :: sol_outcome_with_id

definition decodeExecutionOutcomeWithIdAndProof ::
  "(bytes \<Rightarrow> bytes) \<Rightarrow> cursor \<Rightarrow> sol_error + sol_outcome_with_proof \<times> cursor" where
  "decodeExecutionOutcomeWithIdAndProof sha c = res_bind (decodeMerklePath c) (\<lambda>(pth, c1).
     res_bind (decodeBytes32 c1) (\<lambda>(bh, c2).
     res_bind (decodeExecutionOutcomeWithId sha c2) (\<lambda>(oc, c3).
       Inr (\<lparr>sop_proof = pth, sop_block_hash = bh, sop_outcome_with_id = oc\<rparr>, c3))))"

record sol_block_header_light =
  shl_prev_block_hash :: bytes
  shl_inner_rest_hash :: bytes
  shl_inner_lite :: sol_inner_lite
  shl_hash :: bytes

definition decodeBlockHeaderLight ::
  "(bytes \<Rightarrow> bytes) \<Rightarrow> cursor \<Rightarrow> sol_error + sol_block_header_light \<times> cursor" where
  "decodeBlockHeaderLight sha c = res_bind (decodeBytes32 c) (\<lambda>(prev, c1).
     res_bind (decodeBytes32 c1) (\<lambda>(rest, c2).
     res_bind (decodeBlockHeaderInnerLite sha c2) (\<lambda>(il, c3).
       Inr (\<lparr>shl_prev_block_hash = prev, shl_inner_rest_hash = rest, shl_inner_lite = il,
             shl_hash = sha (sha (sil_hash il @ rest) @ prev)\<rparr>, c3))))"

record sol_full_outcome_proof =
  sp_outcome_proof :: sol_outcome_with_proof
  sp_outcome_root_proof :: "(bytes \<times> byte) list"
  sp_block_header_lite :: sol_block_header_light
  sp_block_proof :: "(bytes \<times> byte) list"

definition decodeFullOutcomeProof ::
  "(bytes \<Rightarrow> bytes) \<Rightarrow> cursor \<Rightarrow> sol_error + sol_full_outcome_proof \<times> cursor" where
  "decodeFullOutcomeProof sha c = res_bind (decodeExecutionOutcomeWithIdAndProof sha c) (\<lambda>(op, c1).
     res_bind (decodeMerklePath c1) (\<lambda>(rp, c2).
     res_bind (decodeBlockHeaderLight sha c2) (\<lambda>(hdr, c3).
     res_bind (decodeMerklePath c3) (\<lambda>(bp, c4).
       Inr (\<lparr>sp_outcome_proof = op, sp_outcome_root_proof = rp, sp_block_header_lite = hdr,
             sp_block_proof = bp\<rparr>, c4)))))"

end
