(* ===== verification/Near_Roundtrip.thy ===== *)
theory Near_Roundtrip
  imports Near_Decoder
begin

text \<open>
  The relay's encoders against the contracts' decoders. The views \<open>producer_view\<close>,
  \<open>approval_view\<close>, \<open>block_view\<close>, \<dots> say what the contract should hold after decoding, in
  terms of the JSON object alone; the properties state that decoding the encoded object
  gives exactly this view and consumes exactly the bytes that were sent.
\<close>

section \<open>Views\<close>

definition producer_view :: "bridge_lib \<Rightarrow> validator \<Rightarrow> sol_block_producer" where
  "producer_view L v = \<lparr>bp_publicKey = the_hash L (drop 8 (public_key v)),
     bp_stake = word_of_nat (num_value (stake v)), bp_isChunkOnly = False\<rparr>"

definition approval_view :: "bridge_lib \<Rightarrow> string option \<Rightarrow> sol_signature option" where
  "approval_view L s = (case s of None \<Rightarrow> None
     | Some sg \<Rightarrow> Some \<lparr>sig_r = take 32 (the_hash L (drop 8 sg)), sig_s = drop 32 (the_hash L (drop 8 sg))\<rparr>)"

definition inner_lite_view :: "bridge_lib \<Rightarrow> (bytes \<Rightarrow> bytes) \<Rightarrow> inner_lite \<Rightarrow> sol_inner_lite" where
  "inner_lite_view L sha h = \<lparr>sil_height = word_of_nat (num_value (height h)),
     sil_epoch_id = the_hash L (epoch_id h), sil_next_epoch_id = the_hash L (next_epoch_id h),
     sil_prev_state_root = the_hash L (prev_state_root h), sil_outcome_root = the_hash L (outcome_root h),
     sil_timestamp = word_of_nat (the_num (num_or (timestamp_nanosec h) (timestamp h))),
     sil_next_bp_hash = the_hash L (next_bp_hash h), sil_block_merkle_root = the_hash L (block_merkle_root h),
     sil_hash = (case inner_lite_bytes L h of Inl _ \<Rightarrow> [] | Inr bs \<Rightarrow> sha bs)\<rparr>"

definition v1 :: "validator \<Rightarrow> bool" where
  "v1 v \<longleftrightarrow> validator_stake_struct_version v \<noteq> Some ''V2''"

section \<open>Block producers\<close>

lemma validator_bytes_eq:
  assumes "lib_ok L" "validator_ok L v"
  shows "validator_bytes L v = Inr ([if v1 v then 0 else 1]
     @ (le_bytes 4 (length (utf8_bytes (account_id v))) @ utf8_bytes (account_id v))
     @ [0] @ the_hash L (drop 8 (public_key v)) @ le_bytes 16 (num_value (stake v)))"
  using assms
  by (simp add: validator_bytes_def validator_ok_def name_ok_def enc_simps the_num_def v1_def
      VALIDATOR_STAKE_V1_def VALIDATOR_STAKE_V2_def)

lemma decodeBlockProducer_reads:
  assumes "upcoming c ([if a then 0 else 1] @ (le_bytes 4 (length nm) @ nm) @ [0] @ k @ le_bytes 16 n)"
    and "length nm < 2 ^ 32" "length k = 32" "n < 2 ^ 128"
  shows "decodeBlockProducer c = (let c4 = advance (54 + length nm) c in
     if a then Inr (\<lparr>bp_publicKey = k, bp_stake = word_of_nat n, bp_isChunkOnly = False\<rparr>, c4)
     else res_bind (decodeU8 c4) (\<lambda>(f, c5).
       Inr (\<lparr>bp_publicKey = k, bp_stake = word_of_nat n, bp_isChunkOnly = (f \<noteq> 0)\<rparr>, c5)))"
proof -
  have up: "upcoming c [if a then 0 else 1]"
    "upcoming (advance 1 c) (le_bytes 4 (length nm) @ nm)"
    "upcoming (advance (5 + length nm) c) [0]"
    "upcoming (advance (6 + length nm) c) k"
    "upcoming (advance (38 + length nm) c) (le_bytes 16 n)"
    using assms(1,3) by (simp_all add: upcoming_append upcoming_Cons [of _ _ "_ # _"]
        upcoming_Cons [of _ _ "_ @ _"] ac_simps)
  show ?thesis
    using up assms(2-4)
    by (simp add: decodeBlockProducer_def decodePublicKey_def Let_def decodeU8_upcoming skipBytes_upcoming
        decodeBytes32_upcoming decodeU128_upcoming)
qed

interpretation block_producer: codec "validator_bytes L" decodeBlockProducer "producer_view L"
  "\<lambda>v. lib_ok L \<and> validator_ok L v \<and> v1 v" for L
proof unfold_locales
  fix v assume "lib_ok L \<and> validator_ok L v \<and> v1 v"
  then show "\<exists>bs. validator_bytes L v = Inr bs" by (simp add: validator_bytes_eq)
next
  fix v bs c
  assume ok: "lib_ok L \<and> validator_ok L v \<and> v1 v" and bs: "validator_bytes L v = Inr bs" and up: "upcoming c bs"
  have eq: "bs = [if True then 0 else 1]
     @ (le_bytes 4 (length (utf8_bytes (account_id v))) @ utf8_bytes (account_id v))
     @ [0] @ the_hash L (drop 8 (public_key v)) @ le_bytes 16 (num_value (stake v))"
    using ok bs by (simp add: validator_bytes_eq)
  have "decodeBlockProducer c = Inr (producer_view L v, advance (54 + length (utf8_bytes (account_id v))) c)"
    using decodeBlockProducer_reads [OF up [unfolded eq]] ok
    by (simp add: validator_ok_def name_ok_def num_ok_def enc_simps producer_view_def)
  moreover have "length bs = 54 + length (utf8_bytes (account_id v))"
    using ok by (simp add: eq validator_ok_def enc_simps)
  ultimately show "decodeBlockProducer c = Inr (producer_view L v, advance (length bs) c)" by simp
qed

section \<open>Approvals\<close>

lemma decodeSignature_upcoming:
  assumes "upcoming c ([0] @ sg)" "length sg = 64"
  shows "decodeSignature c = Inr (\<lparr>sig_r = take 32 sg, sig_s = drop 32 sg\<rparr>, advance 65 c)"
proof -
  have "upcoming (advance 1 c) (take 32 sg @ drop 32 sg)"
    using assms(1) unfolding upcoming_append [of c "[0]"] by simp
  then have up: "upcoming (advance 1 c) (take 32 sg)" "upcoming (advance 33 c) (drop 32 sg)"
    using assms(2) by (simp_all only: upcoming_append) simp_all
  have "upcoming c [0]"
    using assms(1) unfolding upcoming_append [of c "[0]"] by simp
  then show ?thesis
    using up assms(2) by (simp add: decodeSignature_def decodeU8_upcoming decodeBytes32_upcoming)
qed

interpretation approval: codec "approval_bytes L" decodeOptionalSignature "approval_view L" "approval_ok L" for L
proof unfold_locales
  fix s assume "approval_ok L s"
  then show "\<exists>bs. approval_bytes L s = Inr bs"
    by (auto simp: approval_bytes_def approval_ok_def b58_def split: option.splits)
next
  fix s bs c
  assume ok: "approval_ok L s" and bs: "approval_bytes L s = Inr bs" and up: "upcoming c bs"
  show "decodeOptionalSignature c = Inr (approval_view L s, advance (length bs) c)"
  proof (cases s)
    case None
    then have "bs = [0]"
      using bs by (simp add: approval_bytes_def)
    then show ?thesis
      using None up by (simp add: decodeOptionalSignature_def decodeBool_upcoming approval_view_def)
  next
    case (Some sg)
    then obtain sb where sb: "bs58_decode L (drop 8 sg) = Some sb" "length sb = 64"
      and ed: "startsWith sg ''ed25519:''"
      using ok by (auto simp: approval_ok_def split: option.splits)
    have eq: "bs = [1] @ ([0] @ sb)"
      using Some bs sb ed by (simp add: approval_bytes_def b58_def key_type_ok)
    have "upcoming c [1]" "upcoming (advance 1 c) ([0] @ sb)"
      using up unfolding eq upcoming_append [of c "[1]"] by simp_all
    then show ?thesis
      using Some sb by (simp add: decodeOptionalSignature_def decodeBool_upcoming
          decodeSignature_upcoming eq approval_view_def the_hash_def)
  qed
qed

section \<open>Block headers\<close>

lemma inner_lite_bytes_eq:
  assumes "lib_ok L" "inner_lite_ok L h"
  shows "inner_lite_bytes L h = Inr (le_bytes 8 (num_value (height h))
     @ the_hash L (epoch_id h) @ the_hash L (next_epoch_id h) @ the_hash L (prev_state_root h)
     @ the_hash L (outcome_root h) @ le_bytes 8 (the_num (num_or (timestamp_nanosec h) (timestamp h)))
     @ the_hash L (next_bp_hash h) @ the_hash L (block_merkle_root h))"
  using assms by (simp add: inner_lite_bytes_def inner_lite_ok_def enc_simps the_num_def [of "Some _"])

lemma inner_lite_bytes_length:
  assumes "lib_ok L" "inner_lite_ok L h" "inner_lite_bytes L h = Inr bs"
  shows "length bs = 208"
  using assms by (auto simp: inner_lite_bytes_eq inner_lite_ok_def enc_simps)

interpretation inner_lite: codec "inner_lite_bytes L" "decodeBlockHeaderInnerLite sha"
  "inner_lite_view L sha" "\<lambda>h. lib_ok L \<and> inner_lite_ok L h" for L sha
proof unfold_locales
  fix h assume "lib_ok L \<and> inner_lite_ok L h"
  then show "\<exists>bs. inner_lite_bytes L h = Inr bs" by (simp add: inner_lite_bytes_eq)
next
  fix h bs c
  assume ok: "lib_ok L \<and> inner_lite_ok L h" and bs: "inner_lite_bytes L h = Inr bs" and up: "upcoming c bs"
  have len: "length bs = 208"
    using ok bs inner_lite_bytes_length by blast
  have peek: "peekSha256 sha 208 c = Inr (sha bs)"
    using up len by (simp add: peekSha256_upcoming)
  have num: "num_value (height h) < 2 ^ 64" "the_num (num_or (timestamp_nanosec h) (timestamp h)) < 2 ^ 64"
    using ok num_ok_bound [of 8] by (auto simp: inner_lite_ok_def num_ok_def the_num_def)
  have hs: "length (the_hash L (epoch_id h)) = 32" "length (the_hash L (next_epoch_id h)) = 32"
    "length (the_hash L (prev_state_root h)) = 32" "length (the_hash L (outcome_root h)) = 32"
    "length (the_hash L (next_bp_hash h)) = 32" "length (the_hash L (block_merkle_root h)) = 32"
    using ok by (simp_all add: inner_lite_ok_def enc_simps)
  have ups: "upcoming c (le_bytes 8 (num_value (height h)))"
    "upcoming (advance 8 c) (the_hash L (epoch_id h))"
    "upcoming (advance 40 c) (the_hash L (next_epoch_id h))"
    "upcoming (advance 72 c) (the_hash L (prev_state_root h))"
    "upcoming (advance 104 c) (the_hash L (outcome_root h))"
    "upcoming (advance 136 c) (le_bytes 8 (the_num (num_or (timestamp_nanosec h) (timestamp h))))"
    "upcoming (advance 144 c) (the_hash L (next_bp_hash h))"
    "upcoming (advance 176 c) (the_hash L (block_merkle_root h))"
    using up ok bs hs by (auto simp: inner_lite_bytes_eq upcoming_append)
  show "decodeBlockHeaderInnerLite sha c = Inr (inner_lite_view L sha h, advance (length bs) c)"
    using ups num hs by (simp add: decodeBlockHeaderInnerLite_def peek decodeU64_upcoming
        decodeBytes32_upcoming inner_lite_view_def bs len)
qed

section \<open>Merkle paths and receipt identifiers\<close>

definition path_ok :: "bridge_lib \<Rightarrow> path_item \<Rightarrow> bool" where
  "path_ok L p \<longleftrightarrow> hash_ok L (pi_hash p)"

definition path_view :: "bridge_lib \<Rightarrow> path_item \<Rightarrow> bytes \<times> byte" where
  "path_view L p = (the_hash L (pi_hash p), if pi_direction p = ''Right'' then 1 else 0)"

interpretation path_item: codec "path_item_bytes L" decodeMerklePathItem "path_view L" "path_ok L" for L
proof unfold_locales
  fix p assume "path_ok L p"
  then show "\<exists>bs. path_item_bytes L p = Inr bs" by (simp add: path_item_bytes_def path_ok_def enc_simps)
next
  fix p bs c
  assume ok: "path_ok L p" and bs: "path_item_bytes L p = Inr bs" and up: "upcoming c bs"
  have eq: "bs = the_hash L (pi_hash p) @ [if pi_direction p = ''Right'' then 1 else 0]"
    and len: "length (the_hash L (pi_hash p)) = 32"
    using ok bs by (auto simp: path_item_bytes_def path_ok_def enc_simps)
  from up have "upcoming c (the_hash L (pi_hash p))"
    "upcoming (advance 32 c) [if pi_direction p = ''Right'' then 1 else 0]"
    unfolding eq by (simp_all add: upcoming_append len)
  then show "decodeMerklePathItem c = Inr (path_view L p, advance (length bs) c)"
    using len by (simp add: decodeMerklePathItem_def decodeBytes32_upcoming decodeU8_upcoming path_view_def eq)
qed

interpretation receipt_id: codec "b58 L" decodeBytes32 "the_hash L" "hash_ok L" for L
proof unfold_locales
  fix s assume "hash_ok L s"
  then show "\<exists>bs. b58 L s = Inr bs" by (simp add: enc_simps)
next
  fix s bs c
  assume "hash_ok L s" "b58 L s = Inr bs" "upcoming c bs"
  then show "decodeBytes32 c = Inr (the_hash L s, advance (length bs) c)"
    by (auto simp: enc_simps decodeBytes32_upcoming)
qed

section \<open>Counted lists\<close>

text \<open>A counted list is its length in four bytes followed by its items; it inherits the contract.\<close>

definition counted_bytes :: "bridge_lib \<Rightarrow> ('v \<Rightarrow> bytes res) \<Rightarrow> 'v list \<Rightarrow> bytes res" where
  "counted_bytes L enc xs = buffer_concat [toBuffer_le L 4 (length xs), buffer_concat (map enc xs)]"

definition decode_counted ::
  "(cursor \<Rightarrow> sol_error + 'w \<times> cursor) \<Rightarrow> cursor \<Rightarrow> sol_error + 'w list \<times> cursor" where
  "decode_counted dec c = res_bind (decodeU32 c) (\<lambda>(len, c1). decode_n dec (unat len) c1)"

lemma counted_codec:
  assumes C: "codec enc dec view ok"
  shows "codec (counted_bytes L enc) (decode_counted dec) (map view)
     (\<lambda>xs. lib_ok L \<and> list_all ok xs \<and> length xs < 2 ^ 32)"
proof
  fix xs assume *: "lib_ok L \<and> list_all ok xs \<and> length xs < 2 ^ 32"
  then show "\<exists>bs. counted_bytes L enc xs = Inr bs"
    using codec.enc_list_ok [OF C, of xs] by (auto simp: counted_bytes_def toBuffer_le_ok)
next
  fix xs bs c
  assume *: "lib_ok L \<and> list_all ok xs \<and> length xs < 2 ^ 32"
    and bs: "counted_bytes L enc xs = Inr bs" and up: "upcoming c bs"
  obtain items where items: "buffer_concat (map enc xs) = Inr items"
    using codec.enc_list_ok [OF C, of xs] * by blast
  have eq: "bs = le_bytes 4 (length xs) @ items"
    using bs items * by (auto simp: counted_bytes_def toBuffer_le_ok)
  have ups: "upcoming c (le_bytes 4 (length xs))" "upcoming (advance 4 c) items"
    using up by (simp_all add: eq upcoming_append)
  have "decode_n dec (length xs) (advance 4 c) = Inr (map view xs, advance (length items) (advance 4 c))"
    using codec.dec_list [OF C _ items ups(2)] * by blast
  then show "decode_counted dec c = Inr (map view xs, advance (length bs) c)"
    using ups(1) * by (simp add: decode_counted_def decodeU32_upcoming unat_of_nat eq)
qed

interpretation block_producers: codec "borshifyInitialValidators L" decodeBlockProducers
  "map (producer_view L)"
  "\<lambda>vs. lib_ok L \<and> list_all (\<lambda>v. lib_ok L \<and> validator_ok L v \<and> v1 v) vs \<and> length vs < 2 ^ 32" for L
  using counted_codec [OF block_producer.codec_axioms, of L L]
  by (simp add: counted_bytes_def [abs_def] decode_counted_def [abs_def]
      borshifyInitialValidators_def [abs_def] decodeBlockProducers_def [abs_def])

interpretation approvals: codec "counted_bytes L (approval_bytes L)" "decode_counted decodeOptionalSignature"
  "map (approval_view L)" "\<lambda>xs. lib_ok L \<and> list_all (approval_ok L) xs \<and> length xs < 2 ^ 32" for L
  by (rule counted_codec) (rule approval.codec_axioms)

interpretation merkle_path: codec "counted_bytes L (path_item_bytes L)" decodeMerklePath
  "map (path_view L)" "\<lambda>xs. lib_ok L \<and> list_all (path_ok L) xs \<and> length xs < 2 ^ 32" for L
  using counted_codec [OF path_item.codec_axioms, of L L]
  by (simp add: decode_counted_def [abs_def] decodeMerklePath_def [abs_def])

section \<open>Light client blocks\<close>

definition block_ok :: "bridge_lib \<Rightarrow> light_client_block \<Rightarrow> bool" where
  "block_ok L b \<longleftrightarrow> hash_ok L (prev_block_hash b) \<and> hash_ok L (next_block_inner_hash b)
     \<and> inner_lite_ok L (lcb_inner_lite b) \<and> hash_ok L (inner_rest_hash b)
     \<and> (case next_bps b of None \<Rightarrow> False
        | Some vs \<Rightarrow> list_all (\<lambda>v. validator_ok L v \<and> v1 v) vs \<and> length vs < 2 ^ 32)
     \<and> list_all (approval_ok L) (approvals_after_next b) \<and> length (approvals_after_next b) < 2 ^ 32"

definition producers_view :: "bridge_lib \<Rightarrow> (bytes \<Rightarrow> bytes) \<Rightarrow> validator list \<Rightarrow> sol_optional_block_producers" where
  "producers_view L sha vs = \<lparr>obp_some = True, obp_blockProducers = map (producer_view L) vs,
     obp_hash = (case borshifyInitialValidators L vs of Inl _ \<Rightarrow> [] | Inr bs \<Rightarrow> sha bs)\<rparr>"

definition block_view :: "bridge_lib \<Rightarrow> (bytes \<Rightarrow> bytes) \<Rightarrow> light_client_block \<Rightarrow> sol_light_client_block" where
  "block_view L sha b = (let
     il = inner_lite_view L sha (lcb_inner_lite b);
     rest = the_hash L (inner_rest_hash b);
     h = sha (sha (sil_hash il @ rest) @ the_hash L (prev_block_hash b)) in
     \<lparr>slb_prev_block_hash = the_hash L (prev_block_hash b),
      slb_next_block_inner_hash = the_hash L (next_block_inner_hash b),
      slb_inner_lite = il, slb_inner_rest_hash = rest,
      slb_next_bps = producers_view L sha (case next_bps b of None \<Rightarrow> [] | Some vs \<Rightarrow> vs),
      slb_approvals_after_next = map (approval_view L) (approvals_after_next b),
      slb_hash = h, slb_next_hash = sha (the_hash L (next_block_inner_hash b) @ h)\<rparr>)"

lemma decodeOptionalBlockProducers_reads:
  assumes "lib_ok L" "list_all (\<lambda>v. validator_ok L v \<and> v1 v) vs" "length vs < 2 ^ 32"
    and bs: "borshifyInitialValidators L vs = Inr bs" and up: "upcoming c ([1] @ bs)"
  shows "decodeOptionalBlockProducers sha c = Inr (producers_view L sha vs, advance (1 + length bs) c)"
proof -
  have up1: "upcoming c [1]" and up2: "upcoming (advance 1 c) bs"
    using up unfolding upcoming_append [of c "[1]"] by simp_all
  have "decodeBlockProducers (advance 1 c) = Inr (map (producer_view L) vs, advance (length bs) (advance 1 c))"
    using assms(1-3) by (intro block_producers.dec_enc [OF _ bs up2]) (auto simp: list_all_iff)
  then show ?thesis
    using up1 upcoming_take [OF up2]
    by (simp add: decodeOptionalBlockProducers_def decodeBool_upcoming producers_view_def bs)
qed

lemma borshify_parts:
  assumes "lib_ok L" "block_ok L b" "next_bps b = Some vs"
  obtains il bps aps where
    "inner_lite_bytes L (lcb_inner_lite b) = Inr il" "length il = 208"
    "borshifyInitialValidators L vs = Inr bps"
    "counted_bytes L (approval_bytes L) (approvals_after_next b) = Inr aps"
    "borshify L b = Inr (the_hash L (prev_block_hash b) @ the_hash L (next_block_inner_hash b)
       @ il @ the_hash L (inner_rest_hash b) @ ([1] @ bps) @ aps)"
proof -
  obtain il where il: "inner_lite_bytes L (lcb_inner_lite b) = Inr il"
    using assms inner_lite.enc_ok by (auto simp: block_ok_def)
  obtain bps where bps: "borshifyInitialValidators L vs = Inr bps"
    using assms block_producers.enc_ok [of L vs] by (auto simp: block_ok_def list_all_iff)
  obtain aps where aps: "counted_bytes L (approval_bytes L) (approvals_after_next b) = Inr aps"
    using assms approvals.enc_ok [of L "approvals_after_next b"] by (auto simp: block_ok_def)
  have "borshify L b = Inr (the_hash L (prev_block_hash b) @ the_hash L (next_block_inner_hash b)
       @ il @ the_hash L (inner_rest_hash b) @ ([1] @ bps) @ aps)"
    using assms il bps aps
    by (auto simp: borshify_def block_ok_def enc_simps borshifyInitialValidators_def counted_bytes_def
        res_bind_eq_Inr_iff)
  then show ?thesis
    using that il bps aps assms inner_lite_bytes_length by (auto simp: block_ok_def)
qed

interpretation light_block: codec "borshify L" "decodeLightClientBlock sha" "block_view L sha"
  "\<lambda>b. lib_ok L \<and> block_ok L b" for L sha
proof unfold_locales
  fix b assume ok: "lib_ok L \<and> block_ok L b"
  then obtain vs where "next_bps b = Some vs"
    by (auto simp: block_ok_def split: option.splits)
  then show "\<exists>bs. borshify L b = Inr bs"
    using ok borshify_parts [of L b vs] by blast
next
  fix b bs c
  assume ok: "lib_ok L \<and> block_ok L b" and enc: "borshify L b = Inr bs" and upc: "upcoming c bs"
  then obtain vs where vs: "next_bps b = Some vs"
    by (auto simp: block_ok_def split: option.splits)
  obtain il bps aps where il: "inner_lite_bytes L (lcb_inner_lite b) = Inr il" "length il = 208"
    and bps: "borshifyInitialValidators L vs = Inr bps"
    and aps: "counted_bytes L (approval_bytes L) (approvals_after_next b) = Inr aps"
    and bs: "bs = the_hash L (prev_block_hash b) @ the_hash L (next_block_inner_hash b)
       @ il @ the_hash L (inner_rest_hash b) @ ([1] @ bps) @ aps"
    using borshify_parts [of L b vs] ok vs enc by auto
  have hs: "length (the_hash L (prev_block_hash b)) = 32" "length (the_hash L (next_block_inner_hash b)) = 32"
    "length (the_hash L (inner_rest_hash b)) = 32"
    using ok by (simp_all add: block_ok_def enc_simps)
  have up: "upcoming c (the_hash L (prev_block_hash b))"
    "upcoming (advance 32 c) (the_hash L (next_block_inner_hash b))"
    "upcoming (advance 64 c) il" "upcoming (advance 272 c) (the_hash L (inner_rest_hash b))"
    "upcoming (advance 304 c) ([1] @ bps)" "upcoming (advance (305 + length bps) c) aps"
    using upc hs il(2)
    unfolding bs upcoming_append [of _ "the_hash L _"] upcoming_append [of _ il] upcoming_append [of _ "[1] @ bps"]
    by simp_all
  have d1: "decodeBlockHeaderInnerLite sha (advance 64 c)
      = Inr (inner_lite_view L sha (lcb_inner_lite b), advance 208 (advance 64 c))"
    using inner_lite.dec_enc [OF _ il(1) up(3)] ok il(2) by (simp add: block_ok_def)
  have d2: "decodeOptionalBlockProducers sha (advance 304 c)
      = Inr (producers_view L sha vs, advance (1 + length bps) (advance 304 c))"
    using decodeOptionalBlockProducers_reads [OF _ _ _ bps up(5)] ok vs by (simp add: block_ok_def)
  obtain len c6 where d3: "decodeU32 (advance (305 + length bps) c) = Inr (len, c6)"
    "decode_n decodeOptionalSignature (unat len) c6
      = Inr (map (approval_view L) (approvals_after_next b), advance (length aps) (advance (305 + length bps) c))"
    using approvals.dec_enc [OF _ aps up(6)] ok
    by (auto simp: block_ok_def decode_counted_def res_bind_eq_Inr_iff)
  show "decodeLightClientBlock sha c = Inr (block_view L sha b, advance (length bs) c)"
    using up(1,2,4) hs d1 d2 d3
    by (simp add: decodeLightClientBlock_def decodeBytes32_upcoming block_view_def Let_def vs il(2) bs ac_simps)
qed

text \<open>Placed at the start of a message, a decoder that meets its contract reads it to the end.\<close>

context codec
begin

lemma whole_message:
  assumes "ok v"
  shows "\<exists>bs. enc v = Inr bs \<and> dec \<lparr>cbuf = bs, coff = 0\<rparr> = Inr (view v, \<lparr>cbuf = bs, coff = length bs\<rparr>)"
proof -
  from enc_ok [OF assms] obtain bs where bs: "enc v = Inr bs" by blast
  have "dec \<lparr>cbuf = bs, coff = 0\<rparr> = Inr (view v, advance (length bs) \<lparr>cbuf = bs, coff = 0\<rparr>)"
    by (rule dec_enc [OF assms bs]) simp
  with bs show ?thesis by (simp add: advance_def)
qed

end

text \<open>
  A concrete instance of the packages, for the witnesses: base-58 decoding (every leading
  \<^verbatim>\<open>1\<close> is a zero byte) and little-endian bytes of a number. The block is the one of an epoch
  with one validator and two approvals, one of them missing.
\<close>

definition b58_alphabet :: string where
  "b58_alphabet = ''123456789ABCDEFGHJKLMNPQRSTUVWXYZabcdefghijkmnopqrstuvwxyz''"

fun index_of :: "char \<Rightarrow> string \<Rightarrow> nat option" where
  "index_of x [] = None"
| "index_of x (y # ys) = (if x = y then Some 0 else map_option Suc (index_of x ys))"

fun b58_number :: "nat \<Rightarrow> string \<Rightarrow> nat option" where
  "b58_number acc [] = Some acc"
| "b58_number acc (x # xs) = (case index_of x b58_alphabet of None \<Rightarrow> None
     | Some d \<Rightarrow> b58_number (58 * acc + d) xs)"

fun be_digits :: "nat \<Rightarrow> bytes" where
  "be_digits n = (if n = 0 then [] else be_digits (n div 256) @ [word_of_nat n])"

definition demo_b58 :: "string \<Rightarrow> bytes option" where
  "demo_b58 s = map_option (\<lambda>n. replicate (length (takeWhile (\<lambda>x. x = CHR ''1'') s)) 0 @ be_digits n)
     (b58_number 0 s)"

definition demo_lib :: bridge_lib where
  "demo_lib = \<lparr>bs58_decode = demo_b58,
     toBN_toBuffer = (\<lambda>v len. if v < 256 ^ len then Some (le_bytes len v) else None)\<rparr>"

definition zero_hash :: string where
  "zero_hash = ''11111111111111111111111111111111''"

definition demo_header :: inner_lite where
  "demo_header = \<lparr>height = Num 12640118, epoch_id = zero_hash, next_epoch_id = zero_hash,
     prev_state_root = zero_hash, outcome_root = zero_hash, timestamp_nanosec = Some (Dec 1597685544),
     timestamp = None, next_bp_hash = zero_hash, block_merkle_root = zero_hash\<rparr>"

definition demo_validator :: "string option \<Rightarrow> validator" where
  "demo_validator ver = \<lparr>account_id = ''node0'', public_key = ''ed25519:'' @ zero_hash, stake = Dec 50000,
     validator_stake_struct_version = ver\<rparr>"

definition demo_block :: light_client_block where
  "demo_block = \<lparr>prev_block_hash = zero_hash, next_block_inner_hash = zero_hash,
     lcb_inner_lite = demo_header, inner_rest_hash = zero_hash,
     next_bps = Some [demo_validator None],
     approvals_after_next = [None, Some (''ed25519:'' @ zero_hash @ zero_hash)]\<rparr>"

lemma demo_lib_ok: "lib_ok demo_lib"
  by (simp add: lib_ok_def demo_lib_def)

lemma demo_hash_ok: "hash_ok demo_lib zero_hash"
  by code_simp

lemma demo_signature: "demo_b58 (zero_hash @ zero_hash) = Some (replicate 64 0)"
  by code_simp

lemma demo_name_ok: "ascii ''node0''"
  by code_simp

lemma demo_validator_ok: "validator_ok demo_lib (demo_validator ver)"
  using demo_hash_ok demo_name_ok
  by (simp add: validator_ok_def name_ok_def demo_validator_def num_ok_def startsWith_def)

lemma demo_header_ok: "inner_lite_ok demo_lib demo_header"
  using demo_hash_ok by (simp add: inner_lite_ok_def demo_header_def num_ok_def num_or_def)

lemma demo_approval_ok: "approval_ok demo_lib (Some (''ed25519:'' @ zero_hash @ zero_hash))"
  using demo_signature by (simp add: approval_ok_def startsWith_def demo_lib_def)

lemma demo_block_ok: "block_ok demo_lib demo_block"
  using demo_hash_ok demo_validator_ok [of None] demo_header_ok demo_approval_ok
  by (simp add: block_ok_def demo_block_def v1_def demo_validator_def) (simp add: approval_ok_def)

text \<open>
  C7. The bytes the relay sends for a light client block are exactly what the bridge
  contract reads: for every block with hashes of 32 bytes, ed25519 keys and signatures,
  numbers that fit their width and validators of the first stake format, \<^verbatim>\<open>borshify\<close> returns a
  byte string that \<^verbatim>\<open>NearDecoder.decodeLightClientBlock\<close> decodes to that block, with every
  byte consumed and with the block hash computed over the same header.
\<close>

theorem borshify_decodes:
  assumes "lib_ok L" "block_ok L b"
  shows "\<exists>bs. borshify L b = Inr bs \<and>
    decodeLightClientBlock sha \<lparr>cbuf = bs, coff = 0\<rparr> = Inr (block_view L sha b, \<lparr>cbuf = bs, coff = length bs\<rparr>)"
  using light_block.whole_message [of L b sha] assms by simp

theorem borshify_decodes_witness:
  "lib_ok demo_lib \<and> block_ok demo_lib demo_block \<and>
   (\<exists>bs. borshify demo_lib demo_block = Inr bs \<and>
      decodeLightClientBlock (\<lambda>x. x) \<lparr>cbuf = bs, coff = 0\<rparr>
        = Inr (block_view demo_lib (\<lambda>x. x) demo_block, \<lparr>cbuf = bs, coff = length bs\<rparr>))"
  using demo_lib_ok demo_block_ok borshify_decodes [OF demo_lib_ok demo_block_ok] by blast

text \<open>
  The validator set a fresh bridge contract is initialised with: for validators of the
  first stake format, \<^verbatim>\<open>borshifyInitialValidators\<close> returns bytes from which
  \<^verbatim>\<open>NearDecoder.decodeBlockProducers\<close> reads back, in order, every validator's public key and
  stake, consuming the whole message (so the contract's final \<^verbatim>\<open>done()\<close> check passes).
\<close>

lemma borshifyInitialValidators_decodes:
  assumes "lib_ok L" "list_all (\<lambda>v. validator_ok L v \<and> v1 v) vs" "length vs < 2 ^ 32"
  shows "\<exists>bs. borshifyInitialValidators L vs = Inr bs \<and>
    decodeBlockProducers \<lparr>cbuf = bs, coff = 0\<rparr> = Inr (map (producer_view L) vs, \<lparr>cbuf = bs, coff = length bs\<rparr>) \<and>
    sol_done \<lparr>cbuf = bs, coff = length bs\<rparr> = Inr ()"
  using block_producers.whole_message [of L vs] assms by (auto simp: list_all_iff sol_done_def)

lemma demo_validators_ok: "list_all (\<lambda>v. validator_ok demo_lib v \<and> v1 v) [demo_validator None, demo_validator (Some ''V1'')]"
  using demo_validator_ok by (simp add: v1_def demo_validator_def)

section \<open>Validators of the second stake format\<close>

lemma decodeU8_at_end: "coff c = length (cbuf c) \<Longrightarrow> decodeU8 c = Inl (Revert ''Parse error: unexpected EOI'')"
  by (simp add: decodeU8_def sol_read_def requireSpace_def)

lemma decodeBlockProducer_v2_at_end:
  assumes "lib_ok L" "validator_ok L v" "\<not> v1 v" "validator_bytes L v = Inr vb"
    and "upcoming c vb" "coff c + length vb = length (cbuf c)"
  shows "decodeBlockProducer c = Inl (Revert ''Parse error: unexpected EOI'')"
proof -
  let ?nm = "utf8_bytes (account_id v)"
  have eq: "vb = [if False then 0 else 1] @ (le_bytes 4 (length ?nm) @ ?nm) @ [0]
      @ the_hash L (drop 8 (public_key v)) @ le_bytes 16 (num_value (stake v))"
    using assms(1-4) by (simp add: validator_bytes_eq)
  have len: "length ?nm < 2 ^ 32" "length (the_hash L (drop 8 (public_key v))) = 32" "num_value (stake v) < 2 ^ 128"
    using assms(2) by (simp_all add: validator_ok_def name_ok_def num_ok_def enc_simps)
  have "coff (advance (54 + length ?nm) c) = length (cbuf (advance (54 + length ?nm) c))"
    using assms(6) len(2) by (simp add: eq)
  then show ?thesis
    using decodeBlockProducer_reads [OF assms(5) [unfolded eq] len] by (simp add: Let_def decodeU8_at_end)
qed

text \<open>
  C38. A validator of the second stake format is sent in a form the contract rejects:
  \<^verbatim>\<open>borshifyInitialValidators\<close> marks it as version 2 but writes no chunk-only flag, which
  \<^verbatim>\<open>decodeBlockProducer\<close> reads for that version. A list that ends with such a validator is
  encoded without an error, and the contract reverts on it.
\<close>

theorem v2_validator_rejected:
  assumes "lib_ok L" "list_all (\<lambda>u. validator_ok L u \<and> v1 u) us" "validator_ok L v" "\<not> v1 v"
    and "length us + 1 < 2 ^ 32"
  shows "\<exists>bs. borshifyInitialValidators L (us @ [v]) = Inr bs \<and>
    decodeBlockProducers \<lparr>cbuf = bs, coff = 0\<rparr> = Inl (Revert ''Parse error: unexpected EOI'')"
proof -
  have ok: "list_all (\<lambda>u. lib_ok L \<and> validator_ok L u \<and> v1 u) us"
    using assms(1,2) by (auto simp: list_all_iff)
  obtain items where items: "buffer_concat (map (validator_bytes L) us) = Inr items"
    using block_producer.enc_list_ok [OF ok] by blast
  obtain vb where vb: "validator_bytes L v = Inr vb"
    using assms(1,3) by (simp add: validator_bytes_eq)
  let ?bs = "le_bytes 4 (length us + 1) @ items @ vb"
  let ?c = "\<lparr>cbuf = ?bs, coff = 0\<rparr>"
  have enc: "borshifyInitialValidators L (us @ [v]) = Inr ?bs"
    using assms(1,5) items vb by (simp add: borshifyInitialValidators_def buffer_concat_append toBuffer_le_ok)
  have "upcoming ?c ?bs" by simp
  then have up: "upcoming ?c (le_bytes 4 (length us + 1))" "upcoming (advance 4 ?c) items"
    "upcoming (advance (4 + length items) ?c) vb"
    by (simp_all only: upcoming_append) simp_all
  have "decode_n decodeBlockProducer (length us) (advance 4 ?c)
      = Inr (map (producer_view L) us, advance (4 + length items) ?c)"
    using block_producer.dec_list [OF ok items up(2)] by simp
  moreover have "decodeBlockProducer (advance (4 + length items) ?c) = Inl (Revert ''Parse error: unexpected EOI'')"
    by (rule decodeBlockProducer_v2_at_end [OF assms(1,3,4) vb up(3)]) simp
  ultimately have "decodeBlockProducers ?c = Inl (Revert ''Parse error: unexpected EOI'')"
    using decodeU32_upcoming [OF up(1)] assms(5)
    by (simp add: decodeBlockProducers_def unat_of_nat decode_n_add [of _ _ 1, simplified] del: of_nat_Suc)
  with enc show ?thesis by blast
qed

theorem v2_validator_rejected_witness:
  "\<exists>bs. borshifyInitialValidators demo_lib ([demo_validator None] @ [demo_validator (Some ''V2'')]) = Inr bs \<and>
    decodeBlockProducers \<lparr>cbuf = bs, coff = 0\<rparr> = Inl (Revert ''Parse error: unexpected EOI'')"
  by (rule v2_validator_rejected [OF demo_lib_ok])
    (simp_all add: demo_validator_ok, simp_all add: v1_def demo_validator_def)

end
