(* ===== verification/Proof_Roundtrip.thy ===== *)
theory Proof_Roundtrip
  imports Near_Roundtrip
begin

text \<open>
  Outcome proofs: \<^verbatim>\<open>borshifyOutcomeProof\<close> of \<^verbatim>\<open>utils/borshify-proof.js\<close> against
  \<^verbatim>\<open>ProofDecoder.decodeFullOutcomeProof\<close>, the step of a withdrawal in which the locker contract
  checks what happened on NEAR.
\<close>

section \<open>Execution status and outcome\<close>

definition status_ok :: "bridge_lib \<Rightarrow> execution_status \<Rightarrow> bool" where
  "status_ok L st = (case SuccessValue st of
     Some v \<Rightarrow> length (base64_bytes v) < 2 ^ 32
   | None \<Rightarrow> (case SuccessReceiptId st of Some r \<Rightarrow> hash_ok L r | None \<Rightarrow> False))"

definition status_view :: "bridge_lib \<Rightarrow> execution_status \<Rightarrow> sol_execution_status" where
  "status_view L st = (case SuccessValue st of
     Some v \<Rightarrow> \<lparr>st_enumIndex = 2, st_unknown = False, st_failed = False,
       st_successValue = base64_bytes v, st_successReceiptId = zero_bytes32\<rparr>
   | None \<Rightarrow> \<lparr>st_enumIndex = 3, st_unknown = False, st_failed = False, st_successValue = [],
       st_successReceiptId = (case SuccessReceiptId st of Some r \<Rightarrow> the_hash L r | None \<Rightarrow> zero_bytes32)\<rparr>)"

interpretation exec_status: codec "statusToBuffer L" decodeExecutionStatus "status_view L"
  "\<lambda>st. lib_ok L \<and> status_ok L st" for L
proof unfold_locales
  fix st assume "lib_ok L \<and> status_ok L st"
  then show "\<exists>bs. statusToBuffer L st = Inr bs"
    by (auto simp: statusToBuffer_def status_ok_def toBuffer_le_ok b58_ok Let_def split: option.splits)
next
  fix st bs c
  assume ok: "lib_ok L \<and> status_ok L st" and bs: "statusToBuffer L st = Inr bs" and up: "upcoming c bs"
  show "decodeExecutionStatus c = Inr (status_view L st, advance (length bs) c)"
  proof (cases "SuccessValue st")
    case (Some v)
    let ?d = "base64_bytes v"
    have eq: "bs = [2] @ (le_bytes 4 (length ?d) @ ?d)" and len: "length ?d < 2 ^ 32"
      using Some bs ok by (auto simp: statusToBuffer_def status_ok_def toBuffer_le_ok Let_def)
    have "upcoming c [2]" "upcoming (advance 1 c) (le_bytes 4 (length ?d) @ ?d)"
      using up unfolding eq upcoming_append [of c "[2]"] by simp_all
    then show ?thesis
      using Some len by (simp add: decodeExecutionStatus_def decodeU8_upcoming decodeBytes_upcoming status_view_def eq
          Let_def)
  next
    case None
    then obtain r where r: "SuccessReceiptId st = Some r" "hash_ok L r"
      using ok by (auto simp: status_ok_def split: option.splits)
    have eq: "bs = [3] @ the_hash L r"
      using None r bs by (auto simp: statusToBuffer_def b58_ok)
    have "upcoming c [3]" "upcoming (advance 1 c) (the_hash L r)"
      using up unfolding eq upcoming_append [of c "[3]"] by simp_all
    then show ?thesis
      using None r by (simp add: decodeExecutionStatus_def decodeU8_upcoming decodeBytes32_upcoming
          the_hash_length status_view_def eq Let_def)
  qed
qed

definition outcome_ok :: "bridge_lib \<Rightarrow> execution_outcome \<Rightarrow> bool" where
  "outcome_ok L oc \<longleftrightarrow> logs oc = [] \<and> list_all (hash_ok L) (receipt_ids oc) \<and> length (receipt_ids oc) < 2 ^ 32
     \<and> num_ok 8 (Some (gas_burnt oc)) \<and> num_ok 16 (Some (tokens_burnt oc)) \<and> name_ok (executor_id oc)
     \<and> status_ok L (status oc)"

text \<open>The part of an outcome its merkle hash covers: everything after the logs.\<close>

definition outcome_tail :: "bridge_lib \<Rightarrow> execution_outcome \<Rightarrow> bytes res" where
  "outcome_tail L oc = buffer_concat [
     counted_bytes L (b58 L) (receipt_ids oc),
     num_le L 8 (Some (gas_burnt oc)),
     num_le L 16 (Some (tokens_burnt oc)),
     toBuffer_le L 4 (length (executor_id oc)),
     Inr (utf8_bytes (executor_id oc)),
     statusToBuffer L (status oc)]"

definition outcome_view :: "bridge_lib \<Rightarrow> (bytes \<Rightarrow> bytes) \<Rightarrow> execution_outcome \<Rightarrow> sol_execution_outcome" where
  "outcome_view L sha oc = \<lparr>so_logs = [], so_receipt_ids = map (the_hash L) (receipt_ids oc),
     so_gas_burnt = word_of_nat (num_value (gas_burnt oc)),
     so_tokens_burnt = word_of_nat (num_value (tokens_burnt oc)),
     so_executor_id = utf8_bytes (executor_id oc), so_status = status_view L (status oc),
     so_merkelization_hashes = [case outcome_tail L oc of Inl _ \<Rightarrow> [] | Inr bs \<Rightarrow> sha bs]\<rparr>"

interpretation receipt_ids: codec "counted_bytes L (b58 L)" "decode_counted decodeBytes32"
  "map (the_hash L)" "\<lambda>xs. lib_ok L \<and> list_all (hash_ok L) xs \<and> length xs < 2 ^ 32" for L
  by (rule counted_codec) (rule receipt_id.codec_axioms)

lemma outcome_parts:
  assumes "lib_ok L" "outcome_ok L oc"
  obtains rb sb where
    "counted_bytes L (b58 L) (receipt_ids oc) = Inr rb" "statusToBuffer L (status oc) = Inr sb"
    "outcome_tail L oc = Inr (rb @ le_bytes 8 (num_value (gas_burnt oc)) @ le_bytes 16 (num_value (tokens_burnt oc))
       @ (le_bytes 4 (length (utf8_bytes (executor_id oc))) @ utf8_bytes (executor_id oc)) @ sb)"
    "outcome_bytes L oc = Inr (le_bytes 4 0 @ rb @ le_bytes 8 (num_value (gas_burnt oc))
       @ le_bytes 16 (num_value (tokens_burnt oc))
       @ (le_bytes 4 (length (utf8_bytes (executor_id oc))) @ utf8_bytes (executor_id oc)) @ sb)"
proof -
  obtain rb where rb: "counted_bytes L (b58 L) (receipt_ids oc) = Inr rb"
    using receipt_ids.enc_ok [of L "receipt_ids oc"] assms by (auto simp: outcome_ok_def)
  obtain sb where sb: "statusToBuffer L (status oc) = Inr sb"
    using exec_status.enc_ok [of L "status oc"] assms by (auto simp: outcome_ok_def)
  show ?thesis
  proof (rule that [OF rb sb])
    show "outcome_tail L oc = Inr (rb @ le_bytes 8 (num_value (gas_burnt oc)) @ le_bytes 16 (num_value (tokens_burnt oc))
       @ (le_bytes 4 (length (utf8_bytes (executor_id oc))) @ utf8_bytes (executor_id oc)) @ sb)"
      using assms rb sb by (simp add: outcome_tail_def outcome_ok_def name_ok_def enc_simps the_num_def)
    show "outcome_bytes L oc = Inr (le_bytes 4 0 @ rb @ le_bytes 8 (num_value (gas_burnt oc))
       @ le_bytes 16 (num_value (tokens_burnt oc))
       @ (le_bytes 4 (length (utf8_bytes (executor_id oc))) @ utf8_bytes (executor_id oc)) @ sb)"
      using assms rb sb
      by (auto simp: outcome_bytes_def outcome_ok_def name_ok_def enc_simps the_num_def counted_bytes_def
          res_bind_eq_Inr_iff)
  qed
qed

interpretation exec_outcome: codec "outcome_bytes L" "decodeExecutionOutcome sha" "outcome_view L sha"
  "\<lambda>oc. lib_ok L \<and> outcome_ok L oc" for L sha
proof unfold_locales
  fix oc assume "lib_ok L \<and> outcome_ok L oc"
  then show "\<exists>bs. outcome_bytes L oc = Inr bs"
    using outcome_parts [of L oc] by blast
next
  fix oc bs c
  assume ok: "lib_ok L \<and> outcome_ok L oc" and enc: "outcome_bytes L oc = Inr bs" and upc: "upcoming c bs"
  let ?ex = "utf8_bytes (executor_id oc)"
  let ?gas = "num_value (gas_burnt oc)" and ?tok = "num_value (tokens_burnt oc)"
  obtain rb sb where rb: "counted_bytes L (b58 L) (receipt_ids oc) = Inr rb"
    and sb: "statusToBuffer L (status oc) = Inr sb"
    and tl: "outcome_tail L oc = Inr (rb @ le_bytes 8 ?gas @ le_bytes 16 ?tok @ (le_bytes 4 (length ?ex) @ ?ex) @ sb)"
    and bs: "bs = le_bytes 4 0 @ rb @ le_bytes 8 ?gas @ le_bytes 16 ?tok @ (le_bytes 4 (length ?ex) @ ?ex) @ sb"
    using outcome_parts [of L oc] ok enc by auto
  let ?tl = "rb @ le_bytes 8 ?gas @ le_bytes 16 ?tok @ (le_bytes 4 (length ?ex) @ ?ex) @ sb"
  have up0: "upcoming c (le_bytes 4 0)" "upcoming (advance 4 c) ?tl"
    using upc unfolding bs upcoming_append [of c "le_bytes 4 0"] by simp_all
  have up: "upcoming (advance 4 c) rb" "upcoming (advance (4 + length rb) c) (le_bytes 8 ?gas)"
    "upcoming (advance (12 + length rb) c) (le_bytes 16 ?tok)"
    "upcoming (advance (28 + length rb) c) (le_bytes 4 (length ?ex) @ ?ex)"
    "upcoming (advance (32 + length rb + length ?ex) c) sb"
    using up0(2) unfolding upcoming_append [of _ rb] upcoming_append [of _ "le_bytes 8 _"]
      upcoming_append [of _ "le_bytes 16 _"] upcoming_append [of _ "le_bytes 4 _ @ _"]
    by (simp_all add: ac_simps)
  have num: "?gas < 2 ^ 64" "?tok < 2 ^ 128" "length ?ex < 2 ^ 32"
    using ok by (simp_all add: outcome_ok_def num_ok_def name_ok_def)
  obtain len c3 where d1: "decodeU32 (advance 4 c) = Inr (len, c3)"
    "decode_n decodeBytes32 (unat len) c3 = Inr (map (the_hash L) (receipt_ids oc), advance (length rb) (advance 4 c))"
    using receipt_ids.dec_enc [OF _ rb up(1)] ok
    by (auto simp: outcome_ok_def decode_counted_def res_bind_eq_Inr_iff)
  have d2: "decodeExecutionStatus (advance (32 + length rb + length ?ex) c)
      = Inr (status_view L (status oc), advance (length sb) (advance (32 + length rb + length ?ex) c))"
    using exec_status.dec_enc [OF _ sb up(5)] ok by (simp add: outcome_ok_def)
  have d0: "decodeU32 c = Inr (0, advance 4 c)"
    using decodeU32_upcoming [OF up0(1)] by simp
  show "decodeExecutionOutcome sha c = Inr (outcome_view L sha oc, advance (length bs) c)"
    using up num d0 d1 d2 upcoming_take [OF up0(2)]
    by (simp add: decodeExecutionOutcome_def decodeU64_upcoming decodeU128_upcoming decodeBytes_upcoming
        outcome_view_def tl bs ac_simps)
qed

section \<open>Full outcome proofs\<close>

definition paths_ok :: "bridge_lib \<Rightarrow> path_item list \<Rightarrow> bool" where
  "paths_ok L ps \<longleftrightarrow> list_all (path_ok L) ps \<and> length ps < 2 ^ 32"

definition proof_ok :: "bridge_lib \<Rightarrow> full_outcome_proof \<Rightarrow> bool" where
  "proof_ok L p \<longleftrightarrow> (let pr = fp_outcome_proof p; hdr = fp_block_header_lite p in
     paths_ok L (op_proof pr) \<and> hash_ok L (op_block_hash pr) \<and> hash_ok L (op_id pr)
     \<and> outcome_ok L (op_outcome pr) \<and> hash_ok L (hl_prev_block_hash hdr) \<and> hash_ok L (hl_inner_rest_hash hdr)
     \<and> inner_lite_ok L (hl_inner_lite hdr) \<and> paths_ok L (fp_block_proof p))"

definition header_view :: "bridge_lib \<Rightarrow> (bytes \<Rightarrow> bytes) \<Rightarrow> block_header_lite \<Rightarrow> sol_block_header_light" where
  "header_view L sha hdr = (let il = inner_lite_view L sha (hl_inner_lite hdr);
     prev = the_hash L (hl_prev_block_hash hdr); rest = the_hash L (hl_inner_rest_hash hdr) in
     \<lparr>shl_prev_block_hash = prev, shl_inner_rest_hash = rest, shl_inner_lite = il,
      shl_hash = sha (sha (sil_hash il @ rest) @ prev)\<rparr>)"

definition outcome_proof_view :: "bridge_lib \<Rightarrow> (bytes \<Rightarrow> bytes) \<Rightarrow> outcome_proof \<Rightarrow> sol_outcome_with_proof" where
  "outcome_proof_view L sha pr = (let oc = outcome_view L sha (op_outcome pr) in
     \<lparr>sop_proof = map (path_view L) (op_proof pr), sop_block_hash = the_hash L (op_block_hash pr),
      sop_outcome_with_id = \<lparr>soi_id = the_hash L (op_id pr), soi_outcome = oc,
        soi_hash = sha (le_bytes 4 2 @ the_hash L (op_id pr) @ concat (so_merkelization_hashes oc))\<rparr>\<rparr>)"

definition proof_view :: "bridge_lib \<Rightarrow> (bytes \<Rightarrow> bytes) \<Rightarrow> full_outcome_proof \<Rightarrow> sol_full_outcome_proof" where
  "proof_view L sha p = \<lparr>sp_outcome_proof = outcome_proof_view L sha (fp_outcome_proof p),
     sp_outcome_root_proof = [], sp_block_header_lite = header_view L sha (fp_block_header_lite p),
     sp_block_proof = map (path_view L) (fp_block_proof p)\<rparr>"

lemma empty_merkle_path: "upcoming c (le_bytes 4 0) \<Longrightarrow> decodeMerklePath c = Inr ([], advance 4 c)"
  by (simp add: decodeMerklePath_def decodeU32_upcoming)

lemma proof_parts:
  assumes "lib_ok L" "proof_ok L p"
  obtains pb ob il bb where
    "counted_bytes L (path_item_bytes L) (op_proof (fp_outcome_proof p)) = Inr pb"
    "outcome_bytes L (op_outcome (fp_outcome_proof p)) = Inr ob"
    "inner_lite_bytes L (hl_inner_lite (fp_block_header_lite p)) = Inr il"
    "counted_bytes L (path_item_bytes L) (fp_block_proof p) = Inr bb"
    "borshifyOutcomeProof L p = Inr (pb @ the_hash L (op_block_hash (fp_outcome_proof p))
       @ the_hash L (op_id (fp_outcome_proof p)) @ ob @ le_bytes 4 0
       @ the_hash L (hl_prev_block_hash (fp_block_header_lite p))
       @ the_hash L (hl_inner_rest_hash (fp_block_header_lite p)) @ il @ bb)"
proof -
  obtain pb where pb: "counted_bytes L (path_item_bytes L) (op_proof (fp_outcome_proof p)) = Inr pb"
    using merkle_path.enc_ok assms by (auto simp: proof_ok_def paths_ok_def Let_def)
  obtain ob where ob: "outcome_bytes L (op_outcome (fp_outcome_proof p)) = Inr ob"
    using exec_outcome.enc_ok assms by (auto simp: proof_ok_def Let_def)
  obtain il where il: "inner_lite_bytes L (hl_inner_lite (fp_block_header_lite p)) = Inr il"
    using inner_lite.enc_ok assms by (auto simp: proof_ok_def Let_def)
  obtain bb where bb: "counted_bytes L (path_item_bytes L) (fp_block_proof p) = Inr bb"
    using merkle_path.enc_ok assms by (auto simp: proof_ok_def paths_ok_def Let_def)
  have "borshifyOutcomeProof L p = Inr (pb @ the_hash L (op_block_hash (fp_outcome_proof p))
       @ the_hash L (op_id (fp_outcome_proof p)) @ ob @ le_bytes 4 0
       @ the_hash L (hl_prev_block_hash (fp_block_header_lite p))
       @ the_hash L (hl_inner_rest_hash (fp_block_header_lite p)) @ il @ bb)"
    using assms pb ob il bb
    by (auto simp: borshifyOutcomeProof_def proof_ok_def Let_def enc_simps counted_bytes_def res_bind_eq_Inr_iff)
  with that pb ob il bb show ?thesis by blast
qed

interpretation full_proof: codec "borshifyOutcomeProof L" "decodeFullOutcomeProof sha" "proof_view L sha"
  "\<lambda>p. lib_ok L \<and> proof_ok L p" for L sha
proof unfold_locales
  fix p assume "lib_ok L \<and> proof_ok L p"
  then show "\<exists>bs. borshifyOutcomeProof L p = Inr bs"
    using proof_parts [of L p] by blast
next
  fix p bs c
  assume ok: "lib_ok L \<and> proof_ok L p" and enc: "borshifyOutcomeProof L p = Inr bs" and upc: "upcoming c bs"
  let ?pr = "fp_outcome_proof p" and ?hd = "fp_block_header_lite p"
  let ?h1 = "the_hash L (op_block_hash ?pr)" and ?h2 = "the_hash L (op_id ?pr)"
    and ?h3 = "the_hash L (hl_prev_block_hash ?hd)" and ?h4 = "the_hash L (hl_inner_rest_hash ?hd)"
  obtain pb ob il bb where pb: "counted_bytes L (path_item_bytes L) (op_proof ?pr) = Inr pb"
    and ob: "outcome_bytes L (op_outcome ?pr) = Inr ob"
    and il: "inner_lite_bytes L (hl_inner_lite ?hd) = Inr il"
    and bb: "counted_bytes L (path_item_bytes L) (fp_block_proof p) = Inr bb"
    and bs: "bs = pb @ ?h1 @ ?h2 @ ob @ le_bytes 4 0 @ ?h3 @ ?h4 @ il @ bb"
    using proof_parts [OF ok [THEN conjunct1] ok [THEN conjunct2]] enc by (metis sum.inject(2))
  have hs: "length ?h1 = 32" "length ?h2 = 32" "length ?h3 = 32" "length ?h4 = 32"
    using ok by (simp_all add: proof_ok_def Let_def enc_simps)
  have up: "upcoming c pb" "upcoming (advance (length pb) c) ?h1"
    "upcoming (advance (length pb + 32) c) ?h2" "upcoming (advance (length pb + 64) c) ob"
    "upcoming (advance (length pb + 64 + length ob) c) (le_bytes 4 0)"
    "upcoming (advance (length pb + 68 + length ob) c) ?h3"
    "upcoming (advance (length pb + 100 + length ob) c) ?h4"
    "upcoming (advance (length pb + 132 + length ob) c) il"
    "upcoming (advance (length pb + 132 + length ob + length il) c) bb"
    using upc hs unfolding bs upcoming_append by (simp_all add: ac_simps)
  have d1: "decodeMerklePath c = Inr (map (path_view L) (op_proof ?pr), advance (length pb) c)"
    using merkle_path.dec_enc [OF _ pb up(1)] ok by (simp add: proof_ok_def paths_ok_def Let_def)
  have d2: "decodeExecutionOutcome sha (advance (length pb + 64) c)
      = Inr (outcome_view L sha (op_outcome ?pr), advance (length ob) (advance (length pb + 64) c))"
    using exec_outcome.dec_enc [OF _ ob up(4)] ok by (simp add: proof_ok_def Let_def)
  have d3: "decodeBlockHeaderInnerLite sha (advance (length pb + 132 + length ob) c)
      = Inr (inner_lite_view L sha (hl_inner_lite ?hd), advance (length il) (advance (length pb + 132 + length ob) c))"
    using inner_lite.dec_enc [OF _ il up(8)] ok by (simp add: proof_ok_def Let_def)
  have d4: "decodeMerklePath (advance (length pb + 132 + length ob + length il) c)
      = Inr (map (path_view L) (fp_block_proof p), advance (length bb) (advance (length pb + 132 + length ob + length il) c))"
    using merkle_path.dec_enc [OF _ bb up(9)] ok by (simp add: proof_ok_def paths_ok_def Let_def)
  have d5: "decodeMerklePath (advance (length pb + 64 + length ob) c) = Inr ([], advance (length pb + 68 + length ob) c)"
    using empty_merkle_path [OF up(5)] by (simp add: ac_simps)
  have hashes: "length (so_merkelization_hashes (outcome_view L sha (op_outcome ?pr))) = 1"
    by (simp add: outcome_view_def)
  show "decodeFullOutcomeProof sha c = Inr (proof_view L sha p, advance (length bs) c)"
    using up(2,3,6,7) hs d1 d2 d3 d4 d5
    by (simp add: decodeFullOutcomeProof_def decodeExecutionOutcomeWithIdAndProof_def
        decodeExecutionOutcomeWithId_def decodeBlockHeaderLight_def decodeBytes32_upcoming proof_view_def
        outcome_proof_view_def header_view_def Let_def hashes bs ac_simps numeral_2_eq_2)
qed

definition demo_proof :: "string list \<Rightarrow> full_outcome_proof" where
  "demo_proof lgs = \<lparr>
     fp_outcome_proof = \<lparr>op_proof = [\<lparr>pi_hash = zero_hash, pi_direction = ''Right''\<rparr>],
       op_block_hash = zero_hash, op_id = zero_hash,
       op_outcome = \<lparr>logs = lgs, receipt_ids = [zero_hash], gas_burnt = Num 2428395018008,
         tokens_burnt = Dec 242839501800800000000, executor_id = ''node0'',
         status = \<lparr>SuccessValue = Some ''AQI='', SuccessReceiptId = None\<rparr>\<rparr>\<rparr>,
     fp_block_header_lite = \<lparr>hl_prev_block_hash = zero_hash, hl_inner_rest_hash = zero_hash,
       hl_inner_lite = demo_header\<rparr>,
     fp_block_proof = [\<lparr>pi_hash = zero_hash, pi_direction = ''Left''\<rparr>]\<rparr>"

lemma demo_base64: "base64_bytes ''AQI='' = [1, 2]"
  by code_simp

lemma demo_proof_ok: "proof_ok demo_lib (demo_proof [])"
  using demo_hash_ok demo_header_ok demo_name_ok
  by (simp add: proof_ok_def demo_proof_def Let_def paths_ok_def path_ok_def outcome_ok_def num_ok_def
      name_ok_def status_ok_def demo_base64)

text \<open>
  C18. The outcome proof a withdrawal is unlocked with: for every well-formed proof whose
  outcome has no logs, \<^verbatim>\<open>borshifyOutcomeProof\<close> returns bytes that
  \<^verbatim>\<open>ProofDecoder.decodeFullOutcomeProof\<close> decodes to that proof (merkle paths with their
  directions, receipt identifiers, amounts, executor, status and both header hashes), and
  every byte is consumed.
\<close>

theorem borshifyOutcomeProof_decodes:
  assumes "lib_ok L" "proof_ok L p"
  shows "\<exists>bs. borshifyOutcomeProof L p = Inr bs \<and>
    decodeFullOutcomeProof sha \<lparr>cbuf = bs, coff = 0\<rparr> = Inr (proof_view L sha p, \<lparr>cbuf = bs, coff = length bs\<rparr>)"
  using full_proof.whole_message [of L p sha] assms by simp

theorem borshifyOutcomeProof_decodes_witness:
  "\<exists>bs. borshifyOutcomeProof demo_lib (demo_proof []) = Inr bs \<and>
    decodeFullOutcomeProof (\<lambda>x. x) \<lparr>cbuf = bs, coff = 0\<rparr>
      = Inr (proof_view demo_lib (\<lambda>x. x) (demo_proof []), \<lparr>cbuf = bs, coff = length bs\<rparr>)"
  by (rule borshifyOutcomeProof_decodes [OF demo_lib_ok demo_proof_ok])

section \<open>Logs\<close>

definition with_logs :: "string list \<Rightarrow> full_outcome_proof \<Rightarrow> full_outcome_proof" where
  "with_logs lgs p = p\<lparr>fp_outcome_proof := (fp_outcome_proof p)\<lparr>op_outcome :=
     (op_outcome (fp_outcome_proof p))\<lparr>logs := lgs\<rparr>\<rparr>\<rparr>"

text \<open>
  The encoder of outcome proofs drops the contents of the logs: it writes their number
  only. Two proofs that differ in the text of their logs have the same encoding, so no
  decoder can recover them, whereas \<^verbatim>\<open>decodeExecutionOutcome\<close> reads that many byte strings.
\<close>

lemma borshifyOutcomeProof_ignores_logs:
  assumes "length lgs = length lgs'"
  shows "borshifyOutcomeProof L (with_logs lgs p) = borshifyOutcomeProof L (with_logs lgs' p)"
  using assms by (simp add: borshifyOutcomeProof_def with_logs_def outcome_bytes_def Let_def)

end
