(* ===== verification/Near_Prover.thy ===== *)
theory Near_Prover
  imports Proof_Roundtrip
begin

text \<open>
  Proving an outcome on Ethereum. \<^verbatim>\<open>contracts/eth/nearprover/utils/utils.js\<close> computes from the JSON proof of
  a NEAR node the root of the block Merkle tree the proof leads to (\<^verbatim>\<open>computeMerkleRoot\<close>); the contract
  \<^verbatim>\<open>NearProver.sol\<close> computes it again from the bytes of \<^verbatim>\<open>borshifyOutcomeProof\<close> and compares it with the root
  the light client has (\<^verbatim>\<open>proveOutcome\<close>). SHA-256 is the parameter \<open>sha\<close>, and the light client is the
  parameter \<open>roots\<close>.
\<close>

section \<open>computeMerkleRoot\<close>

definition combine :: "(bytes \<Rightarrow> bytes) \<Rightarrow> bytes \<Rightarrow> bytes \<Rightarrow> bytes" where
  "combine sha data0 data1 = sha (data0 @ data1)"

fun computeRoot :: "bridge_lib \<Rightarrow> (bytes \<Rightarrow> bytes) \<Rightarrow> bytes \<Rightarrow> path_item list \<Rightarrow> bytes res" where
  "computeRoot L sha node [] = Inr node"
| "computeRoot L sha node (step # rest) = res_bind (b58 L (pi_hash step)) (\<lambda>h.
     computeRoot L sha (if pi_direction step = ''Left'' then combine sha h node else combine sha node h) rest)"

definition blockHeaderInnerLiteHash :: "bridge_lib \<Rightarrow> (bytes \<Rightarrow> bytes) \<Rightarrow> inner_lite \<Rightarrow> bytes res" where
  "blockHeaderInnerLiteHash L sha d = res_bind (buffer_concat [
     num_le L 8 (Some (height d)),
     b58 L (epoch_id d),
     b58 L (next_epoch_id d),
     b58 L (prev_state_root d),
     b58 L (outcome_root d),
     num_le L 8 (num_or (timestamp_nanosec d) (timestamp d)),
     b58 L (next_bp_hash d),
     b58 L (block_merkle_root d)]) (\<lambda>buffer. Inr (sha buffer))"

definition computeMerkleRoot :: "bridge_lib \<Rightarrow> (bytes \<Rightarrow> bytes) \<Rightarrow> full_outcome_proof \<Rightarrow> bytes res" where
  "computeMerkleRoot L sha p = (let hdr = fp_block_header_lite p in
     res_bind (blockHeaderInnerLiteHash L sha (hl_inner_lite hdr)) (\<lambda>inner_lite_hash.
     res_bind (b58 L (hl_inner_rest_hash hdr)) (\<lambda>rest.
     res_bind (b58 L (hl_prev_block_hash hdr)) (\<lambda>prev.
       computeRoot L sha (combine sha (combine sha inner_lite_hash rest) prev) (fp_block_proof p)))))"

section \<open>NearProver.sol\<close>

fun sol_computeRoot :: "(bytes \<Rightarrow> bytes) \<Rightarrow> bytes \<Rightarrow> (bytes \<times> byte) list \<Rightarrow> bytes" where
  "sol_computeRoot sha hash [] = hash"
| "sol_computeRoot sha hash ((h, direction) # items) =
     sol_computeRoot sha (if direction = 0 then sha (h @ hash) else sha (hash @ h)) items"

definition proveOutcome :: "(bytes \<Rightarrow> bytes) \<Rightarrow> (nat \<Rightarrow> sol_error + bytes) \<Rightarrow> bytes \<Rightarrow> nat \<Rightarrow> sol_error + bool" where
  "proveOutcome sha roots proofData blockHeight =
     res_bind (decodeFullOutcomeProof sha \<lparr>cbuf = proofData, coff = 0\<rparr>) (\<lambda>(p, c).
     res_bind (sol_done c) (\<lambda>_.
       let oc = sp_outcome_proof p;
           hash1 = sol_computeRoot sha (soi_hash (sop_outcome_with_id oc)) (sop_proof oc);
           hash2 = sol_computeRoot sha (sha hash1) (sp_outcome_root_proof p)
       in if hash2 \<noteq> sil_outcome_root (shl_inner_lite (sp_block_header_lite p))
          then Inl (Revert ''NearProver: outcome merkle proof is not valid'')
          else res_bind (roots blockHeight) (\<lambda>expectedBlockMerkleRoot.
            if sol_computeRoot sha (shl_hash (sp_block_header_lite p)) (sp_block_proof p) \<noteq> expectedBlockMerkleRoot
            then Inl (Revert ''NearProver: block proof is not valid'')
            else Inr True)))"

section \<open>Agreement\<close>

definition directed :: "path_item list \<Rightarrow> bool" where
  "directed ps = list_all (\<lambda>s. pi_direction s = ''Left'' \<or> pi_direction s = ''Right'') ps"

lemma computeRoot_agrees:
  assumes "list_all (path_ok L) ps" "directed ps"
  shows "computeRoot L sha node ps = Inr (sol_computeRoot sha node (map (path_view L) ps))"
  using assms
proof (induction ps arbitrary: node)
  case (Cons s ps)
  then have "b58 L (pi_hash s) = Inr (the_hash L (pi_hash s))"
    by (simp add: path_ok_def enc_simps)
  then show ?case
    using Cons by (auto simp: path_view_def combine_def directed_def)
qed simp

lemma blockHeaderInnerLiteHash_eq: "blockHeaderInnerLiteHash L sha d = res_bind (inner_lite_bytes L d) (\<lambda>b. Inr (sha b))"
  by (simp add: blockHeaderInnerLiteHash_def inner_lite_bytes_def)

lemma computeMerkleRoot_agrees:
  assumes "lib_ok L" "proof_ok L p" "directed (fp_block_proof p)"
  shows "computeMerkleRoot L sha p = Inr (sol_computeRoot sha
    (shl_hash (sp_block_header_lite (proof_view L sha p))) (sp_block_proof (proof_view L sha p)))"
proof -
  let ?hdr = "fp_block_header_lite p"
  obtain il where il: "inner_lite_bytes L (hl_inner_lite ?hdr) = Inr il"
    using inner_lite.enc_ok assms(1,2) by (auto simp: proof_ok_def Let_def)
  have "hash_ok L (hl_inner_rest_hash ?hdr)" "hash_ok L (hl_prev_block_hash ?hdr)" "list_all (path_ok L) (fp_block_proof p)"
    using assms(2) by (simp_all add: proof_ok_def paths_ok_def Let_def)
  then show ?thesis
    using il computeRoot_agrees [OF _ assms(3)]
    by (simp add: computeMerkleRoot_def blockHeaderInnerLiteHash_eq proof_view_def header_view_def inner_lite_view_def
        combine_def Let_def enc_simps)
qed

text \<open>The root of the outcome tree that the outcome part of a proof leads to.\<close>

definition outcome_root_of :: "bridge_lib \<Rightarrow> (bytes \<Rightarrow> bytes) \<Rightarrow> outcome_proof \<Rightarrow> bytes" where
  "outcome_root_of L sha pr = sha (sol_computeRoot sha
     (soi_hash (sop_outcome_with_id (outcome_proof_view L sha pr))) (map (path_view L) (op_proof pr)))"

text \<open>\<open>proveOutcome\<close> on an encoded proof, whatever the light client answers.\<close>

lemma proveOutcome_encoded:
  assumes "lib_ok L" "proof_ok L p" "directed (fp_block_proof p)"
  shows "\<exists>bs root. borshifyOutcomeProof L p = Inr bs \<and> computeMerkleRoot L sha p = Inr root
    \<and> (\<forall>roots h. proveOutcome sha roots bs h =
       (if outcome_root_of L sha (fp_outcome_proof p) \<noteq> the_hash L (outcome_root (hl_inner_lite (fp_block_header_lite p)))
        then Inl (Revert ''NearProver: outcome merkle proof is not valid'')
        else res_bind (roots h) (\<lambda>expected. if root \<noteq> expected then Inl (Revert ''NearProver: block proof is not valid'')
        else Inr True)))"
proof -
  obtain bs where bs: "borshifyOutcomeProof L p = Inr bs"
    "decodeFullOutcomeProof sha \<lparr>cbuf = bs, coff = 0\<rparr> = Inr (proof_view L sha p, \<lparr>cbuf = bs, coff = length bs\<rparr>)"
    using full_proof.whole_message [of L p sha] assms(1,2) by blast
  have "outcome_root_of L sha (fp_outcome_proof p) = sol_computeRoot sha (sha (sol_computeRoot sha
      (soi_hash (sop_outcome_with_id (sp_outcome_proof (proof_view L sha p)))) (sop_proof (sp_outcome_proof (proof_view L sha p)))))
      (sp_outcome_root_proof (proof_view L sha p))"
    by (simp add: outcome_root_of_def proof_view_def outcome_proof_view_def Let_def)
  moreover have "the_hash L (outcome_root (hl_inner_lite (fp_block_header_lite p)))
      = sil_outcome_root (shl_inner_lite (sp_block_header_lite (proof_view L sha p)))"
    by (simp add: proof_view_def header_view_def inner_lite_view_def Let_def)
  ultimately show ?thesis
    using bs computeMerkleRoot_agrees [OF assms, of sha]
    by (simp add: proveOutcome_def sol_done_def Let_def)
qed


lemma demo_proof_directed: "directed (fp_block_proof (demo_proof []))"
  by (simp add: directed_def demo_proof_def)


end
