(* ===== verification/Search_Estimate.thy ===== *)
theory Search_Estimate
  imports Bridge_Prelude
begin

text \<open>
  \<^verbatim>\<open>binarySearchWithEstimate\<close> of \<^verbatim>\<open>eth2near-block-relay/index.js\<close>: with it the relay finds how many
  blocks the client contract has to go back to meet the main chain again. The predicate is a
  function on positions; every routine also returns the positions it asked for, in order, since
  each of them is two network requests. The variable \<^verbatim>\<open>step\<close> of the code is \<open>2 ^ k\<close>.
\<close>

section \<open>The algorithm\<close>

function gallop_down :: "(int \<Rightarrow> bool) \<Rightarrow> int \<Rightarrow> int \<Rightarrow> nat \<Rightarrow> nat \<times> int list" where
  "gallop_down p lo hi k = (if hi - 2 ^ k > lo then
     (if p (hi - 2 ^ k) then (let (k', qs) = gallop_down p lo hi (Suc k) in (k', (hi - 2 ^ k) # qs))
      else (k, [hi - 2 ^ k]))
   else (k, []))"
  by auto
termination
  by (relation "measure (\<lambda>(p, lo, hi, k). nat (hi - 2 ^ k - lo))") auto

function gallop_up :: "(int \<Rightarrow> bool) \<Rightarrow> int \<Rightarrow> int \<Rightarrow> nat \<Rightarrow> nat \<times> int list" where
  "gallop_up p lo hi k = (if lo + 2 ^ k < hi then
     (if \<not> p (lo + 2 ^ k) then (let (k', qs) = gallop_up p lo hi (Suc k) in (k', (lo + 2 ^ k) # qs))
      else (k, [lo + 2 ^ k]))
   else (k, []))"
  by auto
termination
  by (relation "measure (\<lambda>(p, lo, hi, k). nat (hi - lo - 2 ^ k))") auto

function bisect :: "(int \<Rightarrow> bool) \<Rightarrow> int \<Rightarrow> int \<Rightarrow> int \<times> int list" where
  "bisect p lo hi = (if lo + 1 < hi then
     (let mid = (lo + hi) div 2;
          (r, qs) = (if p mid then bisect p lo mid else bisect p mid hi)
      in (r, mid # qs))
   else (hi, []))"
  by auto
termination
  by (relation "measure (\<lambda>(p, lo, hi). nat (hi - lo))") auto

declare gallop_down.simps [simp del] gallop_up.simps [simp del] bisect.simps [simp del]

definition binarySearchWithEstimate :: "int \<Rightarrow> int \<Rightarrow> int \<Rightarrow> (int \<Rightarrow> bool) \<Rightarrow> int \<times> int list" where
  "binarySearchWithEstimate limitLo limitHi estimatedPosition p =
     (if p estimatedPosition then
        (let (k, qs) = gallop_down p limitLo estimatedPosition 0;
             hi = estimatedPosition - 2 ^ k div 2;
             lo = max limitLo (hi - 2 ^ k);
             (r, rs) = bisect p lo hi
         in (r, estimatedPosition # qs @ rs))
      else
        (let (k, qs) = gallop_up p estimatedPosition limitHi 0;
             lo = estimatedPosition + 2 ^ k div 2;
             hi = min limitHi (lo + 2 ^ k);
             (r, rs) = bisect p lo hi
         in (r, estimatedPosition # qs @ rs)))"

section \<open>Correctness\<close>

text \<open>Once true, the predicate stays true up to the upper limit.\<close>

definition mono_upto :: "int \<Rightarrow> (int \<Rightarrow> bool) \<Rightarrow> bool" where
  "mono_upto limitHi p \<longleftrightarrow> (\<forall>i j. i \<le> j \<longrightarrow> j \<le> limitHi \<longrightarrow> p i \<longrightarrow> p j)"

lemma mono_uptoD: "mono_upto h p \<Longrightarrow> p i \<Longrightarrow> i \<le> j \<Longrightarrow> j \<le> h \<Longrightarrow> p j"
  by (auto simp: mono_upto_def)

lemma gallop_down_result:
  assumes "gallop_down p lo hi k0 = (k, qs)"
  shows "k0 \<le> k \<and> length qs \<le> Suc (k - k0)
    \<and> (k0 < k \<longrightarrow> p (hi - 2 ^ (k - 1)) \<and> lo < hi - 2 ^ (k - 1))
    \<and> (lo < hi - 2 ^ k \<longrightarrow> \<not> p (hi - 2 ^ k))"
  using assms
proof (induction p lo hi k0 arbitrary: k qs rule: gallop_down.induct)
  case (1 p lo hi k0)
  show ?case
  proof (cases "hi - 2 ^ k0 > lo \<and> p (hi - 2 ^ k0)")
    case True
    obtain k1 qs1 where rec: "gallop_down p lo hi (Suc k0) = (k1, qs1)" by fastforce
    with True 1(2) have eq: "k = k1" "qs = (hi - 2 ^ k0) # qs1"
      by (simp_all add: gallop_down.simps [of p lo hi k0])
    from 1(1) [OF _ _ rec] True have IH: "Suc k0 \<le> k" "length qs1 \<le> Suc (k - Suc k0)"
      "Suc k0 < k \<Longrightarrow> p (hi - 2 ^ (k - 1)) \<and> lo < hi - 2 ^ (k - 1)" "lo < hi - 2 ^ k \<Longrightarrow> \<not> p (hi - 2 ^ k)"
      by (auto simp: eq(1))
    have "p (hi - 2 ^ (k - 1)) \<and> lo < hi - 2 ^ (k - 1)"
      using IH(1,3) True by (cases "k = Suc k0") auto
    then show ?thesis using IH eq by auto
  next
    case False
    then show ?thesis
      using 1(2) by (auto simp: gallop_down.simps [of p lo hi k0] split: if_splits)
  qed
qed

lemma gallop_up_result:
  assumes "gallop_up p lo hi k0 = (k, qs)"
  shows "k0 \<le> k \<and> length qs \<le> Suc (k - k0)
    \<and> (k0 < k \<longrightarrow> \<not> p (lo + 2 ^ (k - 1)) \<and> lo + 2 ^ (k - 1) < hi)
    \<and> (lo + 2 ^ k < hi \<longrightarrow> p (lo + 2 ^ k))"
  using assms
proof (induction p lo hi k0 arbitrary: k qs rule: gallop_up.induct)
  case (1 p lo hi k0)
  show ?case
  proof (cases "lo + 2 ^ k0 < hi \<and> \<not> p (lo + 2 ^ k0)")
    case True
    obtain k1 qs1 where rec: "gallop_up p lo hi (Suc k0) = (k1, qs1)" by fastforce
    with True 1(2) have eq: "k = k1" "qs = (lo + 2 ^ k0) # qs1"
      by (simp_all add: gallop_up.simps [of p lo hi k0])
    from 1(1) [OF _ _ rec] True have IH: "Suc k0 \<le> k" "length qs1 \<le> Suc (k - Suc k0)"
      "Suc k0 < k \<Longrightarrow> \<not> p (lo + 2 ^ (k - 1)) \<and> lo + 2 ^ (k - 1) < hi" "lo + 2 ^ k < hi \<Longrightarrow> p (lo + 2 ^ k)"
      by (auto simp: eq(1))
    have "\<not> p (lo + 2 ^ (k - 1)) \<and> lo + 2 ^ (k - 1) < hi"
      using IH(1,3) True by (cases "k = Suc k0") auto
    then show ?thesis using IH eq by auto
  next
    case False
    then show ?thesis
      using 1(2) by (auto simp: gallop_up.simps [of p lo hi k0] split: if_splits)
  qed
qed

text \<open>
  The bisection keeps the predicate false at the lower end (or that end untested) and true at the
  upper one; an interval of length at most \<open>2 ^ k\<close> takes at most \<open>k\<close> queries.
\<close>

lemma bisect_result:
  assumes "bisect p lo hi = (r, qs)" "lo < hi"
  shows "lo < r \<and> r \<le> hi \<and> (p hi \<longrightarrow> p r) \<and> (r = lo + 1 \<or> \<not> p (r - 1))"
  using assms
proof (induction p lo hi arbitrary: r qs rule: bisect.induct)
  case (1 p lo hi)
  show ?case
  proof (cases "lo + 1 < hi")
    case True
    let ?mid = "(lo + hi) div 2"
    have mid: "lo < ?mid" "?mid < hi" using True by auto
    show ?thesis
    proof (cases "p ?mid")
      case pm: True
      obtain qs1 where "bisect p lo ?mid = (r, qs1)"
        using 1(3) True pm by (auto simp: bisect.simps [of p lo hi] Let_def split: prod.splits)
      from 1(1) [OF True refl pm this mid(1)] pm mid show ?thesis by auto
    next
      case pm: False
      obtain qs1 where "bisect p ?mid hi = (r, qs1)"
        using 1(3) True pm by (auto simp: bisect.simps [of p lo hi] Let_def split: prod.splits)
      from 1(2) [OF True refl pm this mid(2)] pm mid show ?thesis by auto
    qed
  qed (use 1(3,4) in \<open>auto simp: bisect.simps [of p lo hi]\<close>)
qed

lemma bisect_queries: "hi - lo \<le> 2 ^ k \<Longrightarrow> length (snd (bisect p lo hi)) \<le> k"
proof (induction k arbitrary: lo hi)
  case 0
  then show ?case by (simp add: bisect.simps [of p lo hi])
next
  case (Suc k)
  let ?mid = "(lo + hi) div 2"
  have "?mid - lo \<le> 2 ^ k" "hi - ?mid \<le> 2 ^ k" using Suc.prems by simp_all
  then show ?case
    using Suc.IH [of ?mid lo] Suc.IH [of hi ?mid]
    by (auto simp: bisect.simps [of p lo hi] Let_def split: prod.splits)
qed

lemma half_power: "(2 :: int) ^ k div 2 = (if k = 0 then 0 else 2 ^ (k - 1))"
  by (cases k) simp_all

lemma search_down:
  assumes mono: "mono_upto limitHi p" and "est \<le> limitHi" "p est"
    and search: "binarySearchWithEstimate limitLo limitHi est p = (r, qs)"
  shows "p r \<and> r \<le> limitHi \<and> (\<forall>i. limitLo < i \<and> i < r \<longrightarrow> \<not> p i)
    \<and> (\<exists>k. length qs \<le> 2 * k + 2 \<and> (k = 0 \<or> 2 ^ k \<le> 2 * \<bar>est - r\<bar>))"
proof -
  obtain k gs where gallop: "gallop_down p limitLo est 0 = (k, gs)" by fastforce
  define hi where "hi = est - 2 ^ k div 2"
  define lo where "lo = max limitLo (hi - 2 ^ k)"
  obtain rs where bis: "bisect p lo hi = (r, rs)" and qs: "qs = est # gs @ rs"
    using search assms(3) gallop
    by (auto simp: binarySearchWithEstimate_def Let_def hi_def lo_def split: prod.splits)
  note g = gallop_down_result [OF gallop]
  have hi: "p hi" "hi \<le> est" "k \<noteq> 0 \<Longrightarrow> limitLo < hi"
    using g assms(3) by (auto simp: hi_def half_power)
  have below: "\<not> p i" if "limitLo < i" "i \<le> hi - 2 ^ k" for i
  proof -
    have "\<not> p (est - 2 ^ k)" using g hi(2) that by auto
    moreover have "i \<le> est - 2 ^ k" "est - 2 ^ k \<le> limitHi"
      using hi(2) that(2) assms(2) zero_less_power [of "2 :: int" k] by linarith+
    ultimately show ?thesis using mono_uptoD [OF mono] by blast
  qed
  have r: "p r \<and> r \<le> hi \<and> (\<forall>i. limitLo < i \<and> i < r \<longrightarrow> \<not> p i)"
  proof (cases "lo < hi")
    case True
    from bisect_result [OF bis True] hi(1) have r: "p r" "r \<le> hi" "r = lo + 1 \<or> \<not> p (r - 1)" by auto
    have "\<not> p i" if i: "limitLo < i" "i < r" for i
    proof (cases "p (r - 1)")
      case True
      then have "i \<le> hi - 2 ^ k" using r(3) i by (auto simp: lo_def max_def split: if_splits)
      then show ?thesis using below i by blast
    next
      case False
      then show ?thesis
        using mono_uptoD [OF mono, of i "r - 1"] i r(2) hi(2) assms(2) by auto
    qed
    with r show ?thesis by blast
  next
    case False
    then have "r = hi" using bis by (auto simp: bisect.simps [of p lo hi])
    moreover have "hi \<le> limitLo" using False by (auto simp: lo_def max_def split: if_splits)
    ultimately show ?thesis using hi(1) by auto
  qed
  have "length rs \<le> k"
    using bisect_queries [of hi lo k p] bis by (simp add: lo_def)
  then have "length qs \<le> 2 * k + 2" using g by (simp add: qs)
  moreover have "k = 0 \<or> 2 ^ k \<le> 2 * \<bar>est - r\<bar>"
    using r by (cases k) (auto simp: hi_def)
  ultimately show ?thesis using r hi(2) assms(2) by auto
qed

lemma search_up:
  assumes mono: "mono_upto limitHi p" and "p limitHi" "est \<le> limitHi" "\<not> p est"
    and search: "binarySearchWithEstimate limitLo limitHi est p = (r, qs)"
  shows "p r \<and> r \<le> limitHi \<and> (\<forall>i. i < r \<longrightarrow> \<not> p i)
    \<and> (\<exists>k. length qs \<le> 2 * k + 2 \<and> (k = 0 \<or> 2 ^ k \<le> 2 * \<bar>est - r\<bar>))"
proof -
  obtain k gs where gallop: "gallop_up p est limitHi 0 = (k, gs)" by fastforce
  define lo where "lo = est + 2 ^ k div 2"
  define hi where "hi = min limitHi (lo + 2 ^ k)"
  obtain rs where bis: "bisect p lo hi = (r, rs)" and qs: "qs = est # gs @ rs"
    using search assms(4) gallop
    by (auto simp: binarySearchWithEstimate_def Let_def hi_def lo_def split: prod.splits)
  note g = gallop_up_result [OF gallop]
  have "est < limitHi" using assms(2-4) by (metis order_le_less)
  then have lo: "\<not> p lo" "est \<le> lo" "lo < limitHi"
    using g assms(4) by (auto simp: lo_def half_power)
  have "p (est + 2 ^ k)" if "hi \<noteq> limitHi" using that g lo(2) by (auto simp: hi_def)
  then have phi: "p hi" and hi: "hi \<le> limitHi"
    using assms(2) lo(2) mono_uptoD [OF mono, of "est + 2 ^ k" hi] by (auto simp: hi_def min_def)
  have "lo < hi" using lo(3) by (simp add: hi_def)
  from bisect_result [OF bis this] phi lo(1) have r: "lo < r" "r \<le> hi" "p r" "\<not> p (r - 1)" by auto
  have least: "\<not> p i" if "i < r" for i
    using mono_uptoD [OF mono, of i "r - 1"] r(2,4) hi that by auto
  have "length rs \<le> k"
    using bisect_queries [of hi lo k p] bis by (simp add: hi_def)
  then have "length qs \<le> 2 * k + 2" using g by (simp add: qs)
  moreover have "k = 0 \<or> 2 ^ k \<le> 2 * \<bar>est - r\<bar>"
    using r(1) by (cases k) (auto simp: lo_def)
  ultimately show ?thesis using r(2,3) hi least by auto
qed

lemma search_at_lower_limit: "p lo \<Longrightarrow> binarySearchWithEstimate lo hi lo p = (lo, [lo])"
proof -
  assume "p lo"
  moreover have "gallop_down p lo lo 0 = (0, [])" by (subst gallop_down.simps) simp
  moreover have "bisect p lo lo = (lo, [])" by (subst bisect.simps) simp
  ultimately show ?thesis by (simp add: binarySearchWithEstimate_def)
qed

lemma search_result:
  assumes "mono_upto limitHi p" "p limitHi" "est \<le> limitHi"
  shows "p (fst (binarySearchWithEstimate limitLo limitHi est p))
    \<and> fst (binarySearchWithEstimate limitLo limitHi est p) \<le> limitHi
    \<and> (\<forall>i. limitLo < i \<and> i < fst (binarySearchWithEstimate limitLo limitHi est p) \<longrightarrow> \<not> p i)
    \<and> (\<exists>k. length (snd (binarySearchWithEstimate limitLo limitHi est p)) \<le> 2 * k + 2
      \<and> (k = 0 \<or> 2 ^ k \<le> 2 * \<bar>est - fst (binarySearchWithEstimate limitLo limitHi est p)\<bar>))"
proof (cases "p est")
  case True
  show ?thesis
    using search_down [OF assms(1,3) True surjective_pairing] .
next
  case False
  show ?thesis
    using search_up [OF assms False surjective_pairing [of "binarySearchWithEstimate limitLo limitHi est p"]]
    by blast
qed

text \<open>
  C25. \<^verbatim>\<open>binarySearchWithEstimate\<close> finds the first position: when the predicate holds at the upper limit,
  stays true once it is true, and the estimate is not above the upper limit, then the result
  satisfies the predicate and no position strictly between the lower limit and the result does,
  whatever the estimate is.
\<close>

theorem binarySearch_finds_first:
  assumes "mono_upto limitHi p" "p limitHi" "est \<le> limitHi"
  shows "p (fst (binarySearchWithEstimate limitLo limitHi est p))
    \<and> fst (binarySearchWithEstimate limitLo limitHi est p) \<le> limitHi
    \<and> (\<forall>i. limitLo < i \<and> i < fst (binarySearchWithEstimate limitLo limitHi est p) \<longrightarrow> \<not> p i)"
  using search_result [OF assms, of limitLo] by blast

lemma demo_mono: "mono_upto 100 (\<lambda>i. 37 \<le> i)"
  by (simp add: mono_upto_def)

theorem binarySearch_finds_first_witness:
  "fst (binarySearchWithEstimate 0 100 50 (\<lambda>i. 37 \<le> i)) = 37"
proof -
  let ?r = "fst (binarySearchWithEstimate 0 100 50 (\<lambda>i. 37 \<le> i))"
  have "37 \<le> ?r \<and> (\<forall>i. 0 < i \<and> i < ?r \<longrightarrow> \<not> 37 \<le> i)"
    using binarySearch_finds_first [OF demo_mono, of 50 0] by simp
  then show ?thesis by (auto dest: spec [of _ 37])
qed

text \<open>
  C26. The number of calls of the predicate is logarithmic in the distance between the estimate and the
  result: at most \<open>2 * k + 2\<close> calls for some \<open>k\<close> that is 0 or has \<open>2 ^ k\<close> at most twice the distance.
  In particular an estimate that is the result costs at most two calls, as the comment in the code says.
\<close>

theorem binarySearch_query_bound:
  assumes "mono_upto limitHi p" "p limitHi" "est \<le> limitHi"
  shows "\<exists>k. length (snd (binarySearchWithEstimate limitLo limitHi est p)) \<le> 2 * k + 2
    \<and> (k = 0 \<or> 2 ^ k \<le> 2 * \<bar>est - fst (binarySearchWithEstimate limitLo limitHi est p)\<bar>)"
  using search_result [OF assms, of limitLo] by blast

theorem binarySearch_query_bound_witness:
  "\<exists>k. length (snd (binarySearchWithEstimate 0 100 50 (\<lambda>i. 37 \<le> i))) \<le> 2 * k + 2
    \<and> (k = 0 \<or> 2 ^ k \<le> 2 * \<bar>50 - fst (binarySearchWithEstimate 0 100 50 (\<lambda>i. 37 \<le> i))\<bar>)"
  by (rule binarySearch_query_bound [OF demo_mono]) simp_all

end
