(* ===== verification/Borsh_Schema.thy ===== *)
theory Borsh_Schema
  imports Byte_Cursor
begin

text \<open>
  The schema-driven serializer of \<^verbatim>\<open>utils/borsh.js\<close>, with which the Ethereum-to-NEAR relay
  talks to the contracts on NEAR: \<^verbatim>\<open>serializeField\<close>, \<^verbatim>\<open>deserializeField\<close>, the class
  \<^verbatim>\<open>BinaryReader\<close>, \<^verbatim>\<open>serialize\<close> and \<^verbatim>\<open>deserialize\<close>.

  The \<^verbatim>\<open>BinaryWriter\<close> comes from near-api-js and is the parameter \<open>writer\<close>; \<open>writer_ok\<close> states
  what its documentation promises (Borsh: little-endian integers of fixed width, a four-byte
  length before strings and arrays). The two recursive routines take the depth of the call
  stack as fuel; running out of it is the \<^verbatim>\<open>RangeError\<close> the engine raises.
\<close>

section \<open>Values and schemas\<close>

text \<open>\<open>JInt\<close> is a number or a BN, \<open>JBytes\<close> a Buffer or Uint8Array, \<open>JUndefined\<close> a missing property.\<close>

datatype js_value =
    JUndefined
  | JNull
  | JBool bool
  | JInt int
  | JStr string
  | JBytes bytes
  | JArr "js_value list"
  | JObj "(string \<times> js_value) list"

datatype field_type =
    FName string
  | FFixed nat
  | FArray field_type

datatype schema_entry =
    SOption field_type
  | SStruct "(string \<times> field_type) list"
  | SFunction "js_value \<Rightarrow> bytes res" "cursor \<Rightarrow> (js_value \<times> cursor) res"
  | SOther string

type_synonym borsh_schema = "string \<Rightarrow> schema_entry option"

record writer =
  write_u8 :: "js_value \<Rightarrow> bytes option"
  write_u64 :: "js_value \<Rightarrow> bytes option"
  write_u128 :: "js_value \<Rightarrow> bytes option"
  write_string :: "js_value \<Rightarrow> bytes option"
  write_fixed_array :: "js_value \<Rightarrow> bytes option"
  write_array :: "js_value \<Rightarrow> (js_value \<Rightarrow> bytes res) \<Rightarrow> bytes res"

definition writer_ok :: "writer \<Rightarrow> bool" where
  "writer_ok W \<longleftrightarrow>
     (\<forall>n. n < 256 \<longrightarrow> write_u8 W (JInt (int n)) = Some (le_bytes 1 n))
   \<and> (\<forall>n. n < 256 ^ 8 \<longrightarrow> write_u64 W (JInt (int n)) = Some (le_bytes 8 n))
   \<and> (\<forall>n. n < 256 ^ 16 \<longrightarrow> write_u128 W (JInt (int n)) = Some (le_bytes 16 n))
   \<and> (\<forall>bs. write_fixed_array W (JBytes bs) = Some bs)
   \<and> (\<forall>xs f. length xs < 256 ^ 4 \<longrightarrow>
        write_array W (JArr xs) f = buffer_concat (Inr (le_bytes 4 (length xs)) # map f xs))
   \<and> (\<forall>bs f. write_array W (JBytes bs) f = write_array W (JArr (map (\<lambda>b. JInt (int (unat b))) bs)) f)"

text \<open>
  Truth values and the property access \<^verbatim>\<open>value[name]\<close>.
\<close>

fun truthy :: "js_value \<Rightarrow> bool" where
  "truthy JUndefined = False"
| "truthy JNull = False"
| "truthy (JBool b) = b"
| "truthy (JInt n) = (n \<noteq> 0)"
| "truthy (JStr s) = (s \<noteq> [])"
| "truthy _ = True"

definition length_or_undefined :: "string \<Rightarrow> nat \<Rightarrow> js_value" where
  "length_or_undefined n len = (if n = ''length'' then JInt (int len) else JUndefined)"

fun js_get :: "js_value \<Rightarrow> string \<Rightarrow> js_value res" where
  "js_get JUndefined n = Inl JsTypeError"
| "js_get JNull n = Inl JsTypeError"
| "js_get (JObj kvs) n = Inr (case map_of kvs n of None \<Rightarrow> JUndefined | Some v \<Rightarrow> v)"
| "js_get (JBytes bs) n = Inr (length_or_undefined n (length bs))"
| "js_get (JArr xs) n = Inr (length_or_undefined n (length xs))"
| "js_get (JStr s) n = Inr (length_or_undefined n (length s))"
| "js_get _ n = Inr JUndefined"

section \<open>BinaryReader\<close>

text \<open>\<^verbatim>\<open>buf.readUInt8\<close> and \<^verbatim>\<open>buf.readUInt32LE\<close> raise a RangeError past the end of the buffer.\<close>

definition readU8 :: "cursor \<Rightarrow> (nat \<times> cursor) res" where
  "readU8 c = (if coff c < length (cbuf c)
     then Inr (unat (cbuf c ! coff c), advance 1 c) else Inl JsRangeError)"

definition readU32 :: "cursor \<Rightarrow> (nat \<times> cursor) res" where
  "readU32 c = (if coff c + 4 \<le> length (cbuf c)
     then Inr (le_nat (take 4 (drop (coff c) (cbuf c))), advance 4 c) else Inl JsRangeError)"

definition readBuffer :: "nat \<Rightarrow> cursor \<Rightarrow> (bytes \<times> cursor) res" where
  "readBuffer len c = (if coff c + len > length (cbuf c) then Inl JsBorshError
     else Inr (take len (drop (coff c) (cbuf c)), advance len c))"

definition readU64 :: "cursor \<Rightarrow> (nat \<times> cursor) res" where
  "readU64 c = res_bind (readBuffer 8 c) (\<lambda>(bs, c1). Inr (le_nat bs, c1))"

definition readU128 :: "cursor \<Rightarrow> (nat \<times> cursor) res" where
  "readU128 c = res_bind (readBuffer 16 c) (\<lambda>(bs, c1). Inr (le_nat bs, c1))"

text \<open>
  \<^verbatim>\<open>const textDecoder = TextDecoder()\<close> calls a class without \<^verbatim>\<open>new\<close>, outside the \<^verbatim>\<open>try\<close> block:
  once the bytes of the string have been read, the engine raises a TypeError.
\<close>

definition readString :: "cursor \<Rightarrow> (js_value \<times> cursor) res" where
  "readString c = res_bind (readU32 c) (\<lambda>(len, c1).
     res_bind (readBuffer len c1) (\<lambda>(bs, c2). Inl JsTypeError))"

definition readFixedArray :: "nat \<Rightarrow> cursor \<Rightarrow> (js_value \<times> cursor) res" where
  "readFixedArray len c = res_bind (readBuffer len c) (\<lambda>(bs, c1). Inr (JBytes bs, c1))"

definition readArray :: "(cursor \<Rightarrow> (js_value \<times> cursor) res) \<Rightarrow> cursor \<Rightarrow> (js_value \<times> cursor) res" where
  "readArray fn c = res_bind (readU32 c) (\<lambda>(len, c1).
     res_bind (decode_n fn len c1) (\<lambda>(xs, c2). Inr (JArr xs, c2)))"

section \<open>serializeField and deserializeField\<close>

fun serializeField :: "nat \<Rightarrow> writer \<Rightarrow> borsh_schema \<Rightarrow> js_value \<Rightarrow> field_type \<Rightarrow> bytes res" where
  "serializeField 0 W S v ft = Inl JsRangeError"
| "serializeField (Suc d) W S v (FName t) =
     (if t = ''u8'' then of_lib ''near-api-js'' (write_u8 W v)
      else if t = ''u64'' then of_lib ''near-api-js'' (write_u64 W v)
      else if t = ''u128'' then of_lib ''near-api-js'' (write_u128 W v)
      else if t = ''bool'' then of_lib ''near-api-js'' (write_u8 W (JInt (if truthy v then 1 else 0)))
      else if t = ''string'' then of_lib ''near-api-js'' (write_string W v)
      else (case S t of
        None \<Rightarrow> Inl (JsError (''Schema type '' @ t @ '' is missing in schema''))
      | Some (SOption ty) \<Rightarrow>
          if v = JNull then of_lib ''near-api-js'' (write_u8 W (JInt 0))
          else buffer_concat [of_lib ''near-api-js'' (write_u8 W (JInt 1)), serializeField d W S v ty]
      | Some (SStruct flds) \<Rightarrow>
          buffer_concat (map (\<lambda>(n, ty). res_bind (js_get v n) (\<lambda>x. serializeField d W S x ty)) flds)
      | Some (SFunction ser deser) \<Rightarrow> ser v
      | Some (SOther k) \<Rightarrow> Inl (JsError (''Unexpected schema kind: '' @ k))))"
| "serializeField (Suc d) W S v (FFixed n) = res_bind (js_get v ''length'') (\<lambda>len.
     if len \<noteq> JInt (int n) then Inl (JsError ''Expecting byte array of length'')
     else of_lib ''near-api-js'' (write_fixed_array W v))"
| "serializeField (Suc d) W S v (FArray ty) = write_array W v (\<lambda>x. serializeField d W S x ty)"

text \<open>The loop over the fields of a struct, with the object built so far.\<close>

fun deserializeStruct :: "(field_type \<Rightarrow> cursor \<Rightarrow> (js_value \<times> cursor) res) \<Rightarrow> (string \<times> js_value) list \<Rightarrow>
    (string \<times> field_type) list \<Rightarrow> cursor \<Rightarrow> ((string \<times> js_value) list \<times> cursor) res" where
  "deserializeStruct f obj [] c = Inr (obj, c)"
| "deserializeStruct f obj ((n, ty) # fs) c = res_bind (f ty c) (\<lambda>(v, c1).
     deserializeStruct f (assoc_set obj n v) fs c1)"

fun deserializeField :: "nat \<Rightarrow> borsh_schema \<Rightarrow> field_type \<Rightarrow> cursor \<Rightarrow> (js_value \<times> cursor) res" where
  "deserializeField 0 S ft c = Inl JsRangeError"
| "deserializeField (Suc d) S (FName t) c =
     (if t = ''u8'' then res_bind (readU8 c) (\<lambda>(n, c1). Inr (JInt (int n), c1))
      else if t = ''u64'' then res_bind (readU64 c) (\<lambda>(n, c1). Inr (JInt (int n), c1))
      else if t = ''u128'' then res_bind (readU128 c) (\<lambda>(n, c1). Inr (JInt (int n), c1))
      else if t = ''bool'' then res_bind (readU8 c) (\<lambda>(n, c1). Inr (JBool (n \<noteq> 0), c1))
      else if t = ''string'' then readString c
      else (case S t of
        None \<Rightarrow> Inl (JsError (''Schema type '' @ t @ '' is missing in schema''))
      | Some (SOption ty) \<Rightarrow> res_bind (readU8 c) (\<lambda>(n, c1).
          if n = 0 then Inr (JNull, c1)
          else if n = 1 then deserializeField d S ty c1
          else Inl (JsError ''Unexpected option flag''))
      | Some (SStruct flds) \<Rightarrow>
          res_bind (deserializeStruct (deserializeField d S) [] flds c) (\<lambda>(kvs, c1). Inr (JObj kvs, c1))
      | Some (SFunction ser deser) \<Rightarrow> deser c
      | Some (SOther k) \<Rightarrow> Inl (JsError (''Unexpected schema kind: '' @ k))))"
| "deserializeField (Suc d) S (FFixed n) c = readFixedArray n c"
| "deserializeField (Suc d) S (FArray ty) c = readArray (deserializeField d S ty) c"

text \<open>A field type of \<open>None\<close> is the \<^verbatim>\<open>null\<close> of a method without arguments or without a result.\<close>

definition serialize :: "nat \<Rightarrow> writer \<Rightarrow> borsh_schema \<Rightarrow> field_type option \<Rightarrow> js_value \<Rightarrow> bytes res" where
  "serialize d W S ft v = (case ft of None \<Rightarrow> Inr [] | Some ty \<Rightarrow> serializeField d W S v ty)"

definition deserialize :: "nat \<Rightarrow> borsh_schema \<Rightarrow> field_type option \<Rightarrow> bytes \<Rightarrow> js_value res" where
  "deserialize d S ft buf = (case ft of None \<Rightarrow> Inr JNull
   | Some ty \<Rightarrow> res_bind (deserializeField d S ty \<lparr>cbuf = buf, coff = 0\<rparr>) (\<lambda>(v, c).
       if coff c < length buf then Inl (JsError ''Unexpected bytes after deserialized data'') else Inr v))"

text \<open>
  The hash types of the schemas: \<^verbatim>\<open>hexToBuffer\<close> and \<^verbatim>\<open>readerToHex(len)\<close>; the conversions of
  web3 are the parameter \<open>hexlib\<close>.
\<close>

record hexlib =
  hexToBytes :: "js_value \<Rightarrow> bytes option"
  bytesToHex :: "bytes \<Rightarrow> string"

definition hexToBuffer :: "hexlib \<Rightarrow> js_value \<Rightarrow> bytes res" where
  "hexToBuffer H v = of_lib ''web3'' (hexToBytes H v)"

definition readerToHex :: "hexlib \<Rightarrow> nat \<Rightarrow> cursor \<Rightarrow> (js_value \<times> cursor) res" where
  "readerToHex H len c = res_bind (readFixedArray len c) (\<lambda>(v, c1).
     case v of JBytes bs \<Rightarrow> Inr (JStr (bytesToHex H bs), c1) | _ \<Rightarrow> Inl JsTypeError)"

section \<open>Values that fit a schema\<close>

text \<open>
  \<open>typed d S fok ft v\<close>: the value \<open>v\<close> has the field type \<open>ft\<close>, looking at most \<open>d\<close> levels deep;
  \<open>fok t\<close> says which values the entries of kind \<^verbatim>\<open>function\<close> of the schema admit. Strings are
  left out: \<open>readString\<close> never returns one.
\<close>

fun uint_below :: "nat \<Rightarrow> js_value \<Rightarrow> bool" where
  "uint_below k (JInt n) = (0 \<le> n \<and> n < 256 ^ k)"
| "uint_below k _ = False"

fun typed :: "nat \<Rightarrow> borsh_schema \<Rightarrow> (string \<Rightarrow> js_value \<Rightarrow> bool) \<Rightarrow> field_type \<Rightarrow> js_value \<Rightarrow> bool" where
  "typed 0 S fok ft v = False"
| "typed (Suc d) S fok (FName t) v =
     (if t = ''u8'' then uint_below 1 v
      else if t = ''u64'' then uint_below 8 v
      else if t = ''u128'' then uint_below 16 v
      else if t = ''bool'' then (case v of JBool _ \<Rightarrow> True | _ \<Rightarrow> False)
      else if t = ''string'' then False
      else (case S t of
        None \<Rightarrow> False
      | Some (SOption ty) \<Rightarrow> v = JNull \<or> typed d S fok ty v
      | Some (SStruct flds) \<Rightarrow> distinct (map fst flds) \<and>
          (case v of JObj kvs \<Rightarrow>
             list_all2 (\<lambda>f kv. fst kv = fst f \<and> typed d S fok (snd f) (snd kv)) flds kvs
           | _ \<Rightarrow> False)
      | Some (SFunction ser deser) \<Rightarrow> fok t v
      | Some (SOther k) \<Rightarrow> False))"
| "typed (Suc d) S fok (FFixed n) v = (case v of JBytes bs \<Rightarrow> 0 < n \<and> length bs = n | _ \<Rightarrow> False)"
| "typed (Suc d) S fok (FArray ty) v =
     (case v of JArr xs \<Rightarrow> length xs < 256 ^ 4 \<and> list_all (typed d S fok ty) xs | _ \<Rightarrow> False)"

lemma typed_Suc: "typed d S fok ft v \<Longrightarrow> typed (Suc d) S fok ft v"
proof (induction d arbitrary: ft v)
  case (Suc d)
  show ?case
  proof (cases ft)
    case (FName t)
    show ?thesis
    proof (cases "S t")
      case (Some e)
      then show ?thesis
        using Suc.prems unfolding FName
        by (cases e) (auto split: if_splits js_value.splits intro: Suc.IH elim!: list_all2_mono)
    qed (use Suc.prems in \<open>auto simp: FName split: if_splits\<close>)
  next
    case (FArray ty)
    then show ?thesis
      using Suc.prems by (cases v) (auto intro: Suc.IH elim!: list.pred_mono_strong)
  qed (use Suc.prems in auto)
qed simp

lemma typed_mono: "d \<le> e \<Longrightarrow> typed d S fok ft v \<Longrightarrow> typed e S fok ft v"
  by (induction e rule: dec_induct) (auto intro: typed_Suc)

section \<open>The reader on encoded numbers and buffers\<close>

lemma readBuffer_upcoming:
  "upcoming c bs \<Longrightarrow> bs \<noteq> [] \<Longrightarrow> readBuffer (length bs) c = Inr (bs, advance (length bs) c)"
  using upcoming_length [of c bs] upcoming_take [of c bs] by (auto simp: readBuffer_def)

lemma readBuffer_le:
  "upcoming c (le_bytes k n) \<Longrightarrow> 0 < k \<Longrightarrow> readBuffer k c = Inr (le_bytes k n, advance k c)"
  using readBuffer_upcoming [of c "le_bytes k n"] by simp

lemma readU8_upcoming: "upcoming c (le_bytes 1 n) \<Longrightarrow> n < 256 \<Longrightarrow> readU8 c = Inr (n, advance 1 c)"
proof -
  assume up: "upcoming c (le_bytes 1 n)" and n: "n < 256"
  have "coff c < length (cbuf c)" and "take 1 (drop (coff c) (cbuf c)) = le_bytes 1 n"
    using upcoming_length [OF up] upcoming_take [OF up] by simp_all
  then show ?thesis
    using n by (simp add: readU8_def take_Suc hd_drop_conv_nth unat_of_nat)
qed

lemma readU32_upcoming:
  assumes up: "upcoming c (le_bytes 4 n)" and n: "n < 256 ^ 4"
  shows "readU32 c = Inr (n, advance 4 c)"
  using upcoming_length [OF up] upcoming_take [OF up] n by (simp add: readU32_def)

lemma readU64_upcoming:
  "upcoming c (le_bytes 8 n) \<Longrightarrow> n < 256 ^ 8 \<Longrightarrow> readU64 c = Inr (n, advance 8 c)"
  by (simp add: readU64_def readBuffer_le)

lemma readU128_upcoming:
  "upcoming c (le_bytes 16 n) \<Longrightarrow> n < 256 ^ 16 \<Longrightarrow> readU128 c = Inr (n, advance 16 c)"
  by (simp add: readU128_def readBuffer_le)

lemmas reads_upcoming = readU8_upcoming readU32_upcoming readU64_upcoming readU128_upcoming

lemma uint_below_nat: "uint_below k v \<Longrightarrow> \<exists>n. v = JInt (int n) \<and> n < 256 ^ k"
proof (cases v)
  case (JInt i)
  assume "uint_below k v"
  then have i: "0 \<le> i" "i < 256 ^ k" by (simp_all add: JInt)
  then have "nat i < nat (256 ^ k)" by (simp add: nat_less_iff)
  then show ?thesis
    using i JInt by (intro exI [of _ "nat i"]) (simp add: nat_power_eq)
qed simp_all

lemma uint_codec:
  assumes wr: "\<forall>n<256 ^ k. wr (JInt (int n)) = Some (le_bytes k n)"
    and rd: "\<And>n c. upcoming c (le_bytes k n) \<Longrightarrow> n < 256 ^ k \<Longrightarrow> rd c = Inr (n, advance k c)"
  shows "codec (\<lambda>v. of_lib who (wr v)) (\<lambda>c. res_bind (rd c) (\<lambda>(n, c1). Inr (JInt (int n), c1)))
     id (uint_below k)"
proof
  fix v assume "uint_below k v"
  then show "\<exists>bs. of_lib who (wr v) = Inr bs"
    using wr by (auto dest: uint_below_nat)
next
  fix v bs c
  assume "uint_below k v" and enc: "of_lib who (wr v) = Inr bs" and up: "upcoming c bs"
  then obtain n where n: "v = JInt (int n)" "n < 256 ^ k"
    by (auto dest: uint_below_nat)
  with enc wr have "bs = le_bytes k n" by simp
  with n up show "res_bind (rd c) (\<lambda>(n, c1). Inr (JInt (int n), c1)) = Inr (id v, advance (length bs) c)"
    by (simp add: rd)
qed

definition builtin_types :: "string set" where
  "builtin_types = {''u8'', ''u64'', ''u128'', ''bool'', ''string''}"

lemma struct_values_aux:
  assumes "list_all2 (\<lambda>f kv. fst kv = fst f \<and> P f kv) flds kvs"
    and "\<And>n x. (n, x) \<in> set kvs \<Longrightarrow> map_of obj n = Some x"
  shows "map (\<lambda>(n, ty). res_bind (js_get (JObj obj) n) (\<lambda>x. g x ty)) flds
    = map2 (\<lambda>f kv. g (snd kv) (snd f)) flds kvs"
  using assms
  by (induction rule: list_all2_induct) (auto simp: split_beta, metis prod.collapse option.simps(5))

lemma struct_values:
  assumes "list_all2 (\<lambda>f kv. fst kv = fst f \<and> P f kv) flds kvs" "distinct (map fst flds)"
  shows "map (\<lambda>(n, ty). res_bind (js_get (JObj kvs) n) (\<lambda>x. g x ty)) flds
    = map2 (\<lambda>f kv. g (snd kv) (snd f)) flds kvs"
proof (rule struct_values_aux [OF assms(1)])
  have "map fst kvs = map fst flds"
    using assms(1) by (induction rule: list_all2_induct) auto
  then show "map_of kvs n = Some x" if "(n, x) \<in> set kvs" for n x
    using that assms(2) by simp
qed

section \<open>The schema round trip\<close>

text \<open>
  The contract a schema relies on: the writer keeps the Borsh format, and every entry of kind
  \<^verbatim>\<open>function\<close> is a codec for the values it admits.
\<close>

locale schema_codecs =
  fixes S :: borsh_schema and fok :: "string \<Rightarrow> js_value \<Rightarrow> bool"
  assumes entry: "S t = Some (SFunction ser deser) \<Longrightarrow> codec ser deser id (fok t)"
begin

abbreviation field_codec :: "writer \<Rightarrow> nat \<Rightarrow> field_type \<Rightarrow> bool" where
  "field_codec W d ft \<equiv> codec (\<lambda>v. serializeField d W S v ft) (deserializeField d S ft) id (typed d S fok ft)"

lemma write_byte: "writer_ok W \<Longrightarrow> n < 256 \<Longrightarrow> write_u8 W (JInt (int n)) = Some (le_bytes 1 n)"
  by (auto simp: writer_ok_def)

lemma u8_codec: "writer_ok W \<Longrightarrow> field_codec W (Suc d) (FName ''u8'')"
  by (rule codec_ext [OF uint_codec [of 1 "write_u8 W" readU8 "''near-api-js''"]])
    (auto simp: writer_ok_def readU8_upcoming)

lemma u64_codec: "writer_ok W \<Longrightarrow> field_codec W (Suc d) (FName ''u64'')"
  by (rule codec_ext [OF uint_codec [of 8 "write_u64 W" readU64 "''near-api-js''"]])
    (auto simp: writer_ok_def readU64_upcoming)

lemma u128_codec: "writer_ok W \<Longrightarrow> field_codec W (Suc d) (FName ''u128'')"
  by (rule codec_ext [OF uint_codec [of 16 "write_u128 W" readU128 "''near-api-js''"]])
    (auto simp: writer_ok_def readU128_upcoming)

lemma bool_codec:
  assumes writer: "writer_ok W"
  shows "field_codec W (Suc d) (FName ''bool'')"
proof
  fix v assume "typed (Suc d) S fok (FName ''bool'') v"
  then show "\<exists>bs. serializeField (Suc d) W S v (FName ''bool'') = Inr bs"
    using write_byte [OF writer, of 0] write_byte [OF writer, of 1] by (auto split: js_value.splits)
next
  fix v bs c
  assume "typed (Suc d) S fok (FName ''bool'') v" "upcoming c bs"
    "serializeField (Suc d) W S v (FName ''bool'') = Inr bs"
  then show "deserializeField (Suc d) S (FName ''bool'') c = Inr (id v, advance (length bs) c)"
    using write_byte [OF writer, of 0] write_byte [OF writer, of 1] readU8_upcoming [of c 0] readU8_upcoming [of c 1]
    by (auto split: js_value.splits bool.splits if_splits)
qed

lemma fixed_codec:
  assumes writer: "writer_ok W"
  shows "field_codec W (Suc d) (FFixed n)"
proof
  fix v bs c
  assume "typed (Suc d) S fok (FFixed n) v" "upcoming c bs"
    "serializeField (Suc d) W S v (FFixed n) = Inr bs"
  then show "deserializeField (Suc d) S (FFixed n) c = Inr (id v, advance (length bs) c)"
    using writer [unfolded writer_ok_def] readBuffer_upcoming [of c bs]
    by (auto simp: readFixedArray_def length_or_undefined_def split: js_value.splits)
qed (use writer [unfolded writer_ok_def] in \<open>auto simp: length_or_undefined_def split: js_value.splits\<close>)

lemma array_codec:
  assumes writer: "writer_ok W" and "field_codec W d ty"
  shows "field_codec W (Suc d) (FArray ty)"
proof
  fix v assume "typed (Suc d) S fok (FArray ty) v"
  then obtain xs where xs: "v = JArr xs" "length xs < 256 ^ 4" "list_all (typed d S fok ty) xs"
    by (auto split: js_value.splits)
  then show "\<exists>bs. serializeField (Suc d) W S v (FArray ty) = Inr bs"
    using writer [unfolded writer_ok_def] codec.enc_list_ok [OF assms(2) xs(3)] by auto
next
  fix v bs c
  assume *: "typed (Suc d) S fok (FArray ty) v" "upcoming c bs"
    "serializeField (Suc d) W S v (FArray ty) = Inr bs"
  then obtain xs where xs: "v = JArr xs" "length xs < 256 ^ 4" "list_all (typed d S fok ty) xs"
    by (auto split: js_value.splits)
  then obtain b where b: "buffer_concat (map (\<lambda>x. serializeField d W S x ty) xs) = Inr b"
    "bs = le_bytes 4 (length xs) @ b"
    using * writer [unfolded writer_ok_def] by (auto simp: res_bind_eq_Inr_iff)
  have up: "upcoming c (le_bytes 4 (length xs))" "upcoming (advance 4 c) b"
    using * by (simp_all add: b upcoming_append)
  show "deserializeField (Suc d) S (FArray ty) c = Inr (id v, advance (length bs) c)"
    using codec.dec_list [OF assms(2) xs(3) b(1) up(2)] xs(2)
    by (simp add: readArray_def readU32_upcoming [OF up(1)] b(2) xs(1))
qed

lemma option_codec:
  assumes "t \<notin> builtin_types" "S t = Some (SOption ty)" "field_codec W d ty"
    and writer: "writer_ok W"
  shows "field_codec W (Suc d) (FName t)"
proof
  fix v assume "typed (Suc d) S fok (FName t) v"
  then show "\<exists>bs. serializeField (Suc d) W S v (FName t) = Inr bs"
    using assms(1,2) codec.enc_ok [OF assms(3), of v] write_byte [OF writer, of 0] write_byte [OF writer, of 1]
    by (auto simp: builtin_types_def)
next
  fix v bs c
  assume *: "typed (Suc d) S fok (FName t) v" "serializeField (Suc d) W S v (FName t) = Inr bs"
    "upcoming c bs"
  show "deserializeField (Suc d) S (FName t) c = Inr (id v, advance (length bs) c)"
  proof (cases "v = JNull")
    case True
    then show ?thesis
      using * assms(1,2) write_byte [OF writer, of 0] readU8_upcoming [of c 0] by (auto simp: builtin_types_def)
  next
    case False
    then obtain b where b: "serializeField d W S v ty = Inr b" "bs = le_bytes 1 1 @ b"
      using * assms(1,2) write_byte [OF writer, of 1] by (auto simp: builtin_types_def res_bind_eq_Inr_iff)
    have ty: "typed d S fok ty v"
      using * False assms(1,2) by (auto simp: builtin_types_def)
    have up: "upcoming c (le_bytes 1 1)" "upcoming (advance 1 c) b"
      using *(3) unfolding b(2) upcoming_append by simp_all
    show ?thesis
      using assms(1,2) codec.dec_enc [OF assms(3) ty b(1) up(2)] readU8_upcoming [OF up(1)]
      by (simp add: builtin_types_def b(2))
  qed
qed

lemma struct_fields_ok:
  assumes fc: "\<And>ty. field_codec W d ty"
    and "list_all2 (\<lambda>f kv. fst kv = fst f \<and> typed d S fok (snd f) (snd kv)) flds kvs"
  shows "\<exists>bs. buffer_concat (map2 (\<lambda>f kv. serializeField d W S (snd kv) (snd f)) flds kvs) = Inr bs"
  using assms(2)
proof (induction rule: list_all2_induct)
  case (Cons f flds kv kvs)
  then show ?case
    using codec.enc_ok [OF fc, of "snd f" "snd kv"] by auto
qed simp

lemma deserializeStruct_fields:
  assumes fc: "\<And>ty. field_codec W d ty"
    and "list_all2 (\<lambda>f kv. fst kv = fst f \<and> typed d S fok (snd f) (snd kv)) flds kvs"
    and "buffer_concat (map2 (\<lambda>f kv. serializeField d W S (snd kv) (snd f)) flds kvs) = Inr bs"
    and "upcoming c bs" "distinct (map fst flds)" "fst ` set obj \<inter> fst ` set flds = {}"
  shows "deserializeStruct (deserializeField d S) obj flds c = Inr (obj @ kvs, advance (length bs) c)"
  using assms(2-)
proof (induction flds kvs arbitrary: obj c bs rule: list_all2_induct)
  case (Cons f flds kv kvs)
  obtain n ty x where f: "f = (n, ty)" "kv = (n, x)"
    using Cons.hyps by (cases f; cases kv) auto
  from Cons.prems(1) obtain b bs' where b: "serializeField d W S x ty = Inr b"
    and bs': "buffer_concat (map2 (\<lambda>f kv. serializeField d W S (snd kv) (snd f)) flds kvs) = Inr bs'"
    and bs: "bs = b @ bs'"
    by (auto simp: f res_bind_eq_Inr_iff)
  have up: "upcoming c b" "upcoming (advance (length b) c) bs'"
    using Cons.prems(2) by (simp_all add: bs upcoming_append)
  have "deserializeField d S ty c = Inr (x, advance (length b) c)"
    using codec.dec_enc [OF fc _ b up(1)] Cons.hyps by (simp add: f)
  moreover have "assoc_set obj n x = obj @ [(n, x)]"
    using Cons.prems(4) by (intro assoc_set_new) (auto simp: f)
  moreover have "deserializeStruct (deserializeField d S) (obj @ [(n, x)]) flds (advance (length b) c)
      = Inr ((obj @ [(n, x)]) @ kvs, advance (length bs') (advance (length b) c))"
    using Cons.prems(3,4) bs' up(2) by (intro Cons.IH) (auto simp: f image_iff)
  ultimately show ?case by (simp add: f bs)
qed simp

lemma struct_codec:
  assumes "t \<notin> builtin_types" "S t = Some (SStruct flds)" "\<And>ty. field_codec W d ty"
  shows "field_codec W (Suc d) (FName t)"
proof
  fix v assume "typed (Suc d) S fok (FName t) v"
  then obtain kvs where kvs: "v = JObj kvs" "distinct (map fst flds)"
    "list_all2 (\<lambda>f kv. fst kv = fst f \<and> typed d S fok (snd f) (snd kv)) flds kvs"
    using assms(1,2) by (auto simp: builtin_types_def split: js_value.splits)
  then show "\<exists>bs. serializeField (Suc d) W S v (FName t) = Inr bs"
    using assms(1,2) struct_fields_ok [OF assms(3) kvs(3)] struct_values [OF kvs(3,2), where g = "serializeField d W S"]
    by (simp add: builtin_types_def)
next
  fix v bs c
  assume *: "typed (Suc d) S fok (FName t) v" "serializeField (Suc d) W S v (FName t) = Inr bs"
    "upcoming c bs"
  then obtain kvs where kvs: "v = JObj kvs" "distinct (map fst flds)"
    "list_all2 (\<lambda>f kv. fst kv = fst f \<and> typed d S fok (snd f) (snd kv)) flds kvs"
    using assms(1,2) by (auto simp: builtin_types_def split: js_value.splits)
  have enc: "buffer_concat (map2 (\<lambda>f kv. serializeField d W S (snd kv) (snd f)) flds kvs) = Inr bs"
    using *(2) assms(1,2) struct_values [OF kvs(3,2), where g = "serializeField d W S"] by (simp add: builtin_types_def kvs(1))
  show "deserializeField (Suc d) S (FName t) c = Inr (id v, advance (length bs) c)"
    using assms(1,2) deserializeStruct_fields [OF assms(3) kvs(3) enc *(3) kvs(2), of "[]"]
    by (simp add: builtin_types_def kvs(1))
qed

lemma function_codec:
  assumes "t \<notin> builtin_types" "S t = Some (SFunction ser deser)"
  shows "field_codec W (Suc d) (FName t)"
  by (rule codec_ext [OF entry [OF assms(2)]]) (use assms in \<open>simp_all add: builtin_types_def\<close>)

lemma untyped_codec:
  assumes "\<And>v. \<not> typed d S fok ft v"
  shows "field_codec W d ft"
  by unfold_locales (use assms in auto)

lemma name_codec:
  assumes writer: "writer_ok W" and IH: "\<And>ty. field_codec W d ty"
  shows "field_codec W (Suc d) (FName t)"
proof (cases "t \<in> builtin_types")
  case True
  then consider "t = ''u8''" | "t = ''u64''" | "t = ''u128''" | "t = ''bool''" | "t = ''string''"
    by (auto simp: builtin_types_def)
  then show ?thesis
    by cases (simp_all only: u8_codec [OF writer] u64_codec [OF writer] u128_codec [OF writer]
      bool_codec [OF writer], rule untyped_codec, simp)
next
  case False
  show ?thesis
  proof (cases "S t")
    case None
    then show ?thesis using False by (intro untyped_codec) (simp add: builtin_types_def)
  next
    case (Some e)
    show ?thesis
    proof (cases e)
      case (SOther k)
      then show ?thesis using False Some by (intro untyped_codec) (simp add: builtin_types_def)
    qed (use False Some option_codec [OF _ _ _ writer] struct_codec function_codec IH in \<open>blast+\<close>)
  qed
qed

theorem schema_codec:
  assumes writer: "writer_ok W"
  shows "field_codec W d ft"
proof (induction d arbitrary: ft)
  case 0
  show ?case by (rule untyped_codec) simp
next
  case (Suc d)
  show ?case
    by (cases ft) (simp_all only: name_codec [OF writer Suc.IH] fixed_codec [OF writer]
      array_codec [OF writer Suc.IH])
qed

lemma serialize_roundtrip:
  assumes "writer_ok W" "typed d S fok ty v" "d \<le> e"
  shows "\<exists>bs. serialize e W S (Some ty) v = Inr bs \<and> deserialize e S (Some ty) bs = Inr v"
proof -
  have ty: "typed e S fok ty v" using assms(2,3) by (rule typed_mono [rotated])
  from codec.enc_ok [OF schema_codec [OF assms(1)] ty] obtain bs where
    bs: "serializeField e W S v ty = Inr bs" by blast
  have "deserializeField e S ty \<lparr>cbuf = bs, coff = 0\<rparr> = Inr (v, advance (length bs) \<lparr>cbuf = bs, coff = 0\<rparr>)"
    using codec.dec_enc [OF schema_codec [OF assms(1)] ty bs, of "\<lparr>cbuf = bs, coff = 0\<rparr>"] by simp
  with bs show ?thesis by (simp add: serialize_def deserialize_def)
qed

end

section \<open>Hashes as hexadecimal strings\<close>

text \<open>A canonical hash of \<open>n\<close> bytes: the string the conversion back from its bytes gives.\<close>

definition hex_hash :: "hexlib \<Rightarrow> nat \<Rightarrow> js_value \<Rightarrow> bool" where
  "hex_hash H n v = (case hexToBytes H v of
     Some bs \<Rightarrow> length bs = n \<and> v = JStr (bytesToHex H bs) | None \<Rightarrow> False)"

lemma hash_codec: "0 < n \<Longrightarrow> codec (hexToBuffer H) (readerToHex H n) id (hex_hash H n)"
proof
  fix v bs c
  assume "0 < n" "hex_hash H n v" "hexToBuffer H v = Inr bs" "upcoming c bs"
  then show "readerToHex H n c = Inr (id v, advance (length bs) c)"
    using readBuffer_upcoming [of c bs]
    by (auto simp: hex_hash_def hexToBuffer_def readerToHex_def readFixedArray_def split: option.splits)
qed (auto simp: hex_hash_def hexToBuffer_def split: option.splits)

interpretation h128: codec "hexToBuffer H" "readerToHex H 16" id "hex_hash H 16" for H
  by (rule hash_codec) simp

interpretation h256: codec "hexToBuffer H" "readerToHex H 32" id "hex_hash H 32" for H
  by (rule hash_codec) simp

interpretation h512: codec "hexToBuffer H" "readerToHex H 64" id "hex_hash H 64" for H
  by (rule hash_codec) simp

section \<open>Buffers as arrays of numbers\<close>

lemma serialize_buffer:
  assumes "writer_ok W"
  shows "serializeField d W S (JBytes bs) (FArray ty)
    = serializeField d W S (JArr (map (\<lambda>b. JInt (int (unat b))) bs)) (FArray ty)"
  using assms by (cases d) (simp_all add: writer_ok_def)

section \<open>Strings\<close>

text \<open>
  The reader never returns a string: whatever the bytes are, deserializing a field of type
  \<^verbatim>\<open>string\<close> fails; when the string is well formed, with a \<^verbatim>\<open>TypeError\<close> after its last byte has been
  read.
\<close>

lemma string_never_deserialized:
  "isl (deserialize d S (Some (FName ''string'')) bs)
   \<and> deserialize (Suc d) S (Some (FName ''string''))
       (le_bytes 4 (length txt mod 256 ^ 4) @ take (length txt mod 256 ^ 4) txt) = Inl JsTypeError"
proof
  show "isl (deserialize d S (Some (FName ''string'')) bs)"
    by (cases d) (auto simp: deserialize_def readString_def res_bind_def split: sum.splits)
next
  let ?n = "length txt mod 256 ^ 4"
  let ?s = "take ?n txt"
  let ?c = "\<lparr>cbuf = le_bytes 4 ?n @ ?s, coff = 0\<rparr>"
  have len: "length ?s = ?n" by (simp add: min_absorb2 mod_less_eq_dividend)
  have "readU32 ?c = Inr (?n, advance 4 ?c)"
    by (rule readU32_upcoming) simp_all
  moreover have "\<exists>r. readBuffer ?n (advance 4 ?c) = Inr r"
    using len by (simp add: readBuffer_def)
  ultimately show "deserialize (Suc d) S (Some (FName ''string'')) (le_bytes 4 ?n @ ?s) = Inl JsTypeError"
    by (auto simp: deserialize_def readString_def)
qed

end
