(* ===== verification/Robust.thy ===== *)
theory Robust
  imports Complex_Main Bridge_Prelude
begin

text \<open>
  The error handling every network access of the bridge goes through, \<^verbatim>\<open>utils/robust.js\<close>:
  \<^verbatim>\<open>retry\<close>, \<^verbatim>\<open>backoff\<close>, \<^verbatim>\<open>promiseWithTimeout\<close>, the class \<^verbatim>\<open>RobustWeb3\<close> and
  \<^verbatim>\<open>normalizeEthKey\<close>. (\<^verbatim>\<open>signAndSendTransaction\<close> of the same file is in \<open>Near_Transactions\<close>.)

  An asynchronous call is a function from the number of the attempt to its outcome, so a
  theorem about every such function is a theorem about every behaviour of the network.
  Durations (milliseconds) are exact rationals.
\<close>

section \<open>retry and backoff\<close>

definition RETRY :: nat where "RETRY = 10"
definition DELAY :: rat where "DELAY = 500"
definition BACKOFF :: rat where "BACKOFF = 6 / 5"

text \<open>Both return the outcome and the number of calls; \<open>i\<close> is the number of the next call of \<^verbatim>\<open>fn\<close>.\<close>

fun retry :: "nat \<Rightarrow> (nat \<Rightarrow> 'e + 'a) \<Rightarrow> nat \<Rightarrow> ('e + 'a) \<times> nat" where
  "retry retries fn i = (case fn i of
     Inr x \<Rightarrow> (Inr x, Suc i)
   | Inl err \<Rightarrow> if retries > 1 then retry (retries - 1) fn (Suc i) else (Inl err, Suc i))"

text \<open>
  \<^verbatim>\<open>backoff\<close> also returns the durations it slept. The recursive call passes three arguments:
  its \<^verbatim>\<open>wait\<close> is the default again.
\<close>

fun backoff :: "nat \<Rightarrow> (nat \<Rightarrow> 'e + 'a) \<Rightarrow> rat \<Rightarrow> rat \<Rightarrow> nat \<Rightarrow> ('e + 'a) \<times> rat list" where
  "backoff retries fn delay wait i = (case fn i of
     Inr x \<Rightarrow> (Inr x, [])
   | Inl err \<Rightarrow>
       if retries > 1 then
         (let (r, slept) = backoff (retries - 1) fn (delay * wait) BACKOFF (Suc i)
          in (r, delay # slept))
       else (Inl err, []))"

declare retry.simps [simp del] backoff.simps [simp del]

text \<open>The attempt that decides: the first that succeeds, or the last one allowed.\<close>

definition deciding :: "nat \<Rightarrow> (nat \<Rightarrow> 'e + 'a) \<Rightarrow> nat \<Rightarrow> nat \<Rightarrow> bool" where
  "deciding retries fn i k \<longleftrightarrow> (\<forall>j<k. isl (fn (i + j))) \<and> k < max 1 retries \<and>
     (\<not> isl (fn (i + k)) \<or> Suc k = max 1 retries)"

lemma deciding_0: "\<not> isl (fn i) \<or> retries \<le> 1 \<Longrightarrow> deciding retries fn i 0"
  by (auto simp: deciding_def)

lemma deciding_Suc:
  assumes "isl (fn i)" "retries > 1" "deciding (retries - 1) fn (Suc i) k"
  shows "deciding retries fn i (Suc k)"
proof -
  have "isl (fn (i + j))" if "j < Suc k" for j
    using assms that by (cases j) (auto simp: deciding_def)
  then show ?thesis
    using assms(2,3) by (auto simp: deciding_def)
qed

text \<open>The sleeps of a call of \<^verbatim>\<open>backoff\<close> before its attempt \<open>k\<close>.\<close>

fun backoff_delays :: "rat \<Rightarrow> rat \<Rightarrow> nat \<Rightarrow> rat list" where
  "backoff_delays delay wait 0 = []"
| "backoff_delays delay wait (Suc k) = delay # backoff_delays (delay * wait) BACKOFF k"

lemma backoff_outcome_ex:
  "\<exists>k. deciding retries fn i k \<and> backoff retries fn delay wait i = (fn (i + k), backoff_delays delay wait k)"
proof (induction retries arbitrary: i delay wait)
  case (Suc n)
  show ?case
  proof (cases "\<not> isl (fn i) \<or> Suc n \<le> 1")
    case True
    then show ?thesis
      by (intro exI [of _ 0]) (cases "fn i", auto simp: backoff.simps deciding_0)
  next
    case False
    with Suc.IH [of "Suc i" "delay * wait" BACKOFF] obtain k where k: "deciding n fn (Suc i) k"
      "backoff n fn (delay * wait) BACKOFF (Suc i) = (fn (Suc i + k), backoff_delays (delay * wait) BACKOFF k)"
      by blast
    have "deciding (Suc n) fn i (Suc k)"
      using False k(1) by (intro deciding_Suc) auto
    moreover obtain e where "fn i = Inl e" using False by (cases "fn i") auto
    ultimately show ?thesis
      using False k(2) by (intro exI [of _ "Suc k"]) (simp add: backoff.simps [of "Suc n"])
  qed
next
  case 0
  show ?case
    by (intro exI [of _ 0]) (cases "fn i", auto simp: backoff.simps deciding_0)
qed

lemma retry_outcome_ex:
  "\<exists>k. deciding retries fn i k \<and> retry retries fn i = (fn (i + k), Suc (i + k))"
proof (induction retries arbitrary: i)
  case (Suc n)
  show ?case
  proof (cases "\<not> isl (fn i) \<or> Suc n \<le> 1")
    case True
    then show ?thesis
      by (intro exI [of _ 0]) (cases "fn i", auto simp: retry.simps deciding_0)
  next
    case False
    with Suc.IH [of "Suc i"] obtain k where k: "deciding n fn (Suc i) k"
      "retry n fn (Suc i) = (fn (Suc i + k), Suc (Suc i + k))"
      by blast
    have "deciding (Suc n) fn i (Suc k)"
      using False k(1) by (intro deciding_Suc) auto
    moreover obtain e where "fn i = Inl e" using False by (cases "fn i") auto
    ultimately show ?thesis
      using False k(2) by (intro exI [of _ "Suc k"]) (simp add: retry.simps [of "Suc n"])
  qed
next
  case 0
  show ?case
    by (intro exI [of _ 0]) (cases "fn i", auto simp: retry.simps deciding_0)
qed

lemma deciding_unique: "deciding r fn i k \<Longrightarrow> deciding r fn i l \<Longrightarrow> k = l"
proof (induction k l rule: linorder_wlog)
  case (le a b)
  then show ?case
    by (cases "a < b") (auto simp: deciding_def)
qed simp

lemma backoff_delays_nth:
  "j < k \<Longrightarrow> backoff_delays delay wait k ! j = (if j = 0 then delay else delay * wait * BACKOFF ^ (j - 1))"
proof (induction k arbitrary: j delay wait)
  case (Suc k)
  show ?case
  proof (cases j)
    case (Suc m)
    then show ?thesis
      using Suc.IH [of m] Suc.prems
      by (cases m) (simp_all add: algebra_simps)
  qed simp
qed simp

lemma length_backoff_delays [simp]: "length (backoff_delays delay wait k) = k"
  by (induction k arbitrary: delay wait) auto

section \<open>RobustWeb3: reads\<close>

text \<open>
  A request to the Ethereum node fails with the text of its exception (\<^verbatim>\<open>e.toString()\<close>). The
  wrapped function re-installs the provider when the text says that the connection is
  closed, and rethrows; the third component counts these calls of \<^verbatim>\<open>setProvider\<close>.
\<close>

definition not_open :: string where "not_open = ''Error: connection not open''"

definition robust_read :: "(nat \<Rightarrow> string + 'a) \<Rightarrow> (string + 'a) \<times> rat list \<times> nat" where
  "robust_read fn = (let (r, slept) = backoff RETRY fn DELAY BACKOFF 0 in
     (r, slept, length (filter (\<lambda>i. case fn i of Inl e \<Rightarrow> e = not_open | Inr _ \<Rightarrow> False)
        [0..<Suc (length slept)])))"

definition getBlockNumber :: "(nat \<Rightarrow> string + nat) \<Rightarrow> (string + nat) \<times> rat list \<times> nat" where
  "getBlockNumber node = robust_read node"

text \<open>A node may answer \<^verbatim>\<open>null\<close> for a block it does not have yet: \<^verbatim>\<open>getBlock\<close> throws to make \<^verbatim>\<open>backoff\<close> retry.\<close>

definition getBlock :: "(nat \<Rightarrow> string + 'b option) \<Rightarrow> (string + 'b) \<times> rat list \<times> nat" where
  "getBlock node = robust_read (\<lambda>i. case node i of
     Inl e \<Rightarrow> Inl e
   | Inr None \<Rightarrow> Inl ''Error: web3.eth.getBlock returns null''
   | Inr (Some b) \<Rightarrow> Inr b)"

definition getTransactionReceipt :: "(nat \<Rightarrow> string + 'r) \<Rightarrow> (string + 'r) \<times> rat list \<times> nat" where
  "getTransactionReceipt node = robust_read node"

section \<open>RobustWeb3: sending a transaction\<close>

definition SLOW_TX_ERROR_MSG :: string where
  "SLOW_TX_ERROR_MSG = ''transaction not executed within 5 minutes''"

text \<open>
  \<^verbatim>\<open>promiseWithTimeout\<close>: the promise settles after some time or never (\<open>None\<close>); the race is
  won by the timer when the promise is not settled before it fires.
\<close>

definition promiseWithTimeout :: "nat \<Rightarrow> (nat \<times> (string + 'a)) option \<Rightarrow> string \<Rightarrow> string + 'a" where
  "promiseWithTimeout timeoutMs p failureMessage = (case p of
     Some (t, r) \<Rightarrow> if t < timeoutMs then r else Inl failureMessage
   | None \<Rightarrow> Inl failureMessage)"

text \<open>
  An event decoded from a log of the receipt (\<^verbatim>\<open>_decodeEventABI\<close> of web3); \<open>None\<close> is an event
  the ABI does not name. The object \<^verbatim>\<open>receipt.events\<close> is keyed by name or by a running number.
\<close>

record 'd event =
  event_name :: "string option"
  event_data :: 'd

datatype event_key = EvName string | EvCount nat

datatype 'd event_slot = OneEvent "'d event" | EventList "'d event list"

type_synonym 'd events = "(event_key \<times> 'd event_slot) list"

definition add_event :: "'d event \<Rightarrow> 'd events \<times> nat \<Rightarrow> 'd events \<times> nat" where
  "add_event ev st = (case st of (events, count) \<Rightarrow>
     (case event_name ev of
        Some n \<Rightarrow> (case map_of events (EvName n) of
            Some (EventList evs) \<Rightarrow> (assoc_set events (EvName n) (EventList (evs @ [ev])), count)
          | Some (OneEvent e) \<Rightarrow> (assoc_set events (EvName n) (EventList [e, ev]), count)
          | None \<Rightarrow> (assoc_set events (EvName n) (OneEvent ev), count))
      | None \<Rightarrow> (assoc_set events (EvCount count) (OneEvent ev), Suc count)))"

definition group_events :: "'d event list \<Rightarrow> 'd events" where
  "group_events evs = fst (fold add_event evs ([], 0))"

text \<open>The receipt: \<open>logs\<close> is \<open>None\<close> when it is not an array, and after they have been decoded.\<close>

record ('l, 'd) receipt =
  rc_logs :: "'l list option"
  rc_events :: "'d events option"

definition decode_logs :: "('l \<Rightarrow> 'd event) \<Rightarrow> ('l, 'd) receipt \<Rightarrow> ('l, 'd) receipt" where
  "decode_logs decodeABI r = (case rc_logs r of
     Some ls \<Rightarrow> r\<lparr>rc_logs := None, rc_events := Some (group_events (map decodeABI ls))\<rparr>
   | None \<Rightarrow> r)"

record call_options =
  opt_from :: string
  opt_gas :: nat
  opt_gasPrice :: "nat option"
  opt_handleRevert :: bool

record eth_tx =
  tx_from :: string
  tx_to :: string
  tx_handleRevert :: bool
  tx_gas :: nat
  tx_gasPrice :: nat
  tx_nonce :: nat
  tx_data :: bytes

text \<open>What becomes of one attempt: a receipt, the timeout, or an exception with its message.\<close>

datatype 'r send_outcome = Mined 'r | TimedOut | SendFailed string

record call_state =
  cs_gasPrice :: nat
  cs_nonce :: nat
  cs_sent :: "eth_tx list"
  cs_reconnects :: nat

definition GAS_LIMIT :: nat where "GAS_LIMIT = 10000 * 10 ^ 9"

definition make_tx :: "string \<Rightarrow> bytes \<Rightarrow> call_options \<Rightarrow> call_state \<Rightarrow> eth_tx" where
  "make_tx addr abi opt s = \<lparr>tx_from = opt_from opt, tx_to = addr,
     tx_handleRevert = opt_handleRevert opt, tx_gas = opt_gas opt,
     tx_gasPrice = (case opt_gasPrice opt of Some p \<Rightarrow> if p = 0 then cs_gasPrice s else p | None \<Rightarrow> cs_gasPrice s),
     tx_nonce = cs_nonce s, tx_data = abi\<rparr>"

definition nonce_error :: "string \<Rightarrow> bool" where
  "nonce_error msg \<longleftrightarrow> js_includes msg ''the tx doesn't have the correct nonce'' \<or>
     js_includes msg ''replacement transaction underpriced''"

definition on_failure :: "string \<Rightarrow> call_state \<Rightarrow> call_state \<times> (string + 'r) option" where
  "on_failure msg s =
     (if msg = SLOW_TX_ERROR_MSG then (s\<lparr>cs_gasPrice := cs_gasPrice s * 2\<rparr>, None)
      else if nonce_error msg then (s\<lparr>cs_nonce := cs_nonce s + 1\<rparr>, None)
      else if ''Error: '' @ msg = not_open then (s\<lparr>cs_reconnects := cs_reconnects s + 1\<rparr>, None)
      else (s, Some (Inl msg)))"

definition call_step :: "eth_tx \<Rightarrow> 'r send_outcome \<Rightarrow> call_state \<Rightarrow> call_state \<times> (string + 'r) option" where
  "call_step tx out s = (let s1 = s\<lparr>cs_sent := cs_sent s @ [tx]\<rparr> in
     case out of
       Mined r \<Rightarrow> (s1, Some (Inr r))
     | TimedOut \<Rightarrow> on_failure SLOW_TX_ERROR_MSG s1
     | SendFailed msg \<Rightarrow> on_failure msg s1)"

text \<open>
  The loop of \<^verbatim>\<open>callContract\<close>; \<open>fuel\<close> bounds its iterations and \<open>None\<close> says that the bound was
  reached. \<open>outs i\<close> is the outcome of the attempt after \<open>i\<close> sent transactions.
\<close>

fun callContract_loop :: "nat \<Rightarrow> string \<Rightarrow> bytes \<Rightarrow> call_options \<Rightarrow> (nat \<Rightarrow> 'r send_outcome) \<Rightarrow> call_state
    \<Rightarrow> call_state \<times> (string + 'r) option" where
  "callContract_loop 0 addr abi opt outs s = (s, None)"
| "callContract_loop (Suc fuel) addr abi opt outs s =
     (if cs_gasPrice s < GAS_LIMIT then
        (case call_step (make_tx addr abi opt s) (outs (length (cs_sent s))) s of
           (s1, Some r) \<Rightarrow> (s1, Some r)
         | (s1, None) \<Rightarrow> callContract_loop fuel addr abi opt outs s1)
      else (s, Some (Inl ''Cannot finish txn within 1e13 gas'')))"

definition callContract :: "nat \<Rightarrow> string \<Rightarrow> bytes \<Rightarrow> call_options \<Rightarrow> ('l \<Rightarrow> 'd event) \<Rightarrow>
    nat \<Rightarrow> nat \<Rightarrow> (nat \<Rightarrow> ('l, 'd) receipt send_outcome) \<Rightarrow> call_state \<times> (string + ('l, 'd) receipt) option" where
  "callContract fuel addr abi opt decodeABI price pending outs =
     callContract_loop fuel addr abi opt
       (\<lambda>i. case outs i of Mined r \<Rightarrow> Mined (decode_logs decodeABI r) | o' \<Rightarrow> o')
       \<lparr>cs_gasPrice = price, cs_nonce = pending, cs_sent = [], cs_reconnects = 0\<rparr>"

section \<open>normalizeEthKey\<close>

text \<open>\<^verbatim>\<open>toLowerCase\<close> on the code units below 256.\<close>

definition to_lower :: "char \<Rightarrow> char" where
  "to_lower c = (let n = of_char c :: nat in
     if 65 \<le> n \<and> n \<le> 90 \<or> 192 \<le> n \<and> n \<le> 222 \<and> n \<noteq> 215 then char_of (n + 32) else c)"

definition normalizeEthKey :: "string \<Rightarrow> string" where
  "normalizeEthKey key = (let result = map to_lower key in
     if startsWith result ''0x'' then result else ''0x'' @ result)"

section \<open>Properties of the reads\<close>

lemma backoff_decided:
  assumes "\<forall>j<k. isl (fn j)" "k < retries" "\<not> isl (fn k) \<or> Suc k = retries"
  shows "backoff retries fn delay wait 0 = (fn k, backoff_delays delay wait k)"
proof -
  have "deciding retries fn 0 k"
    using assms by (auto simp: deciding_def)
  then show ?thesis
    using backoff_outcome_ex [of retries fn 0 delay wait] deciding_unique by fastforce
qed

text \<open>
  \<^verbatim>\<open>backoff(retries, fn, delay, wait)\<close> calls \<^verbatim>\<open>fn\<close> until it succeeds, at most \<open>retries\<close> times: when
  attempt \<open>k\<close> is the first success, or the last one allowed, its outcome is the outcome of
  \<^verbatim>\<open>backoff\<close>, after \<open>k\<close> sleeps of \<open>delay\<close>, \<open>delay * wait\<close>, and from the third on the default factor
  1.2 whatever \<open>wait\<close> is.
\<close>

lemma backoff_attempts:
  assumes "\<forall>j<k. isl (fn j)" "k < retries" "\<not> isl (fn k) \<or> Suc k = retries"
  shows "backoff retries fn delay wait 0 =
    (fn k, map (\<lambda>j. if j = 0 then delay else delay * wait * BACKOFF ^ (j - 1)) [0..<k])"
  unfolding backoff_decided [OF assms]
  by (auto intro!: nth_equalityI simp: backoff_delays_nth)

lemma robust_read_success:
  assumes "\<forall>j<k. isl (fn j)" "k < RETRY" "fn k = Inr x"
  shows "fst (robust_read fn) = Inr x" "fst (snd (robust_read fn)) = backoff_delays DELAY BACKOFF k"
  using backoff_decided [of k fn RETRY DELAY BACKOFF] assms by (auto simp: robust_read_def)

lemma robust_read_failure:
  assumes "\<forall>j<RETRY. isl (fn j)"
  shows "fst (robust_read fn) = fn 9"
  using backoff_decided [of 9 fn RETRY DELAY BACKOFF] assms by (auto simp: robust_read_def RETRY_def)

section \<open>Properties of the events of a receipt\<close>

text \<open>What the caller finds under a name, as a list.\<close>

fun slot_events :: "'d event_slot option \<Rightarrow> 'd event list" where
  "slot_events None = []"
| "slot_events (Some (OneEvent e)) = [e]"
| "slot_events (Some (EventList es)) = es"

definition grouped :: "'d event list \<Rightarrow> 'd events \<times> nat \<Rightarrow> bool" where
  "grouped evs st \<longleftrightarrow>
     (\<forall>n. slot_events (map_of (fst st) (EvName n)) = filter (\<lambda>e. event_name e = Some n) evs
        \<and> map_of (fst st) (EvName n) \<noteq> Some (EventList [])
        \<and> (\<forall>e. map_of (fst st) (EvName n) \<noteq> Some (EventList [e])))
   \<and> snd st = length (filter (\<lambda>e. event_name e = None) evs)
   \<and> (\<forall>i. map_of (fst st) (EvCount i) =
        (if i < snd st then Some (OneEvent (filter (\<lambda>e. event_name e = None) evs ! i)) else None))"

lemma grouped_Nil: "grouped [] ([], 0)"
  by (simp add: grouped_def)

lemma grouped_snoc_named:
  assumes "grouped evs st" "event_name ev = Some n"
  shows "grouped (evs @ [ev]) (add_event ev st)"
proof -
  obtain es count where st: "st = (es, count)" by (cases st)
  show ?thesis
  proof (cases "map_of es (EvName n)")
    case None
    then show ?thesis using assms by (auto simp: grouped_def st add_event_def) (metis slot_events.simps(1))+
  next
    case (Some slot)
    show ?thesis
      using assms Some by (cases slot) (auto simp: grouped_def st add_event_def, (metis slot_events.simps)+)
  qed
qed

lemma grouped_snoc_anonymous:
  assumes "grouped evs st" "event_name ev = None"
  shows "grouped (evs @ [ev]) (add_event ev st)"
  using assms by (cases st) (auto simp: grouped_def add_event_def nth_append)

lemma grouped_fold: "grouped evs (fold add_event evs ([], 0))"
proof (induction evs rule: rev_induct)
  case (snoc ev evs)
  then show ?case
    by (cases "event_name ev") (simp_all add: grouped_snoc_named grouped_snoc_anonymous)
qed (simp add: grouped_Nil)

text \<open>
  The object \<^verbatim>\<open>receipt.events\<close> that \<^verbatim>\<open>callContract\<close> builds loses no event: under a name are
  exactly the events of that name in the order of the logs, as a single value when there is
  one and as an array when there are more, and under the number \<open>i\<close> is the \<open>i\<close>-th event
  without a name.
\<close>

lemma group_events_complete:
  "slot_events (map_of (group_events evs) (EvName n)) = filter (\<lambda>e. event_name e = Some n) evs
   \<and> (\<forall>e. map_of (group_events evs) (EvName n) \<noteq> Some (EventList [e]))
   \<and> map_of (group_events evs) (EvCount i) =
       (let anonymous = filter (\<lambda>e. event_name e = None) evs
        in if i < length anonymous then Some (OneEvent (anonymous ! i)) else None)"
  using grouped_fold [of evs] by (auto simp: grouped_def group_events_def Let_def)

section \<open>Properties of callContract\<close>

lemma length_filter_mono_pred:
  "(\<And>x. x \<in> set xs \<Longrightarrow> P x \<Longrightarrow> Q x) \<Longrightarrow> length (filter P xs) \<le> length (filter Q xs)"
  by (induction xs) auto

text \<open>
  The three kinds of failure the loop survives, and how many of them the first \<open>i\<close> attempts
  met.
\<close>

fun slow_outcome :: "'r send_outcome \<Rightarrow> bool" where
  "slow_outcome (Mined r) = False"
| "slow_outcome TimedOut = True"
| "slow_outcome (SendFailed msg) = (msg = SLOW_TX_ERROR_MSG)"

fun nonce_outcome :: "'r send_outcome \<Rightarrow> bool" where
  "nonce_outcome (SendFailed msg) = (msg \<noteq> SLOW_TX_ERROR_MSG \<and> nonce_error msg)"
| "nonce_outcome _ = False"

fun closed_outcome :: "'r send_outcome \<Rightarrow> bool" where
  "closed_outcome (SendFailed msg) = (\<not> nonce_error msg \<and> ''Error: '' @ msg = not_open)"
| "closed_outcome _ = False"

definition occurrences :: "('r send_outcome \<Rightarrow> bool) \<Rightarrow> (nat \<Rightarrow> 'r send_outcome) \<Rightarrow> nat \<Rightarrow> nat" where
  "occurrences P outs i = length (filter (\<lambda>j. P (outs j)) [0..<i])"

lemma occurrences_simps [simp]:
  "occurrences P outs 0 = 0"
  "occurrences P outs (Suc i) = occurrences P outs i + (if P (outs i) then 1 else 0)"
  by (simp_all add: occurrences_def)

lemma call_step_None:
  assumes "call_step tx out s = (s1, None)"
  shows "cs_sent s1 = cs_sent s @ [tx]"
    and "cs_gasPrice s1 = (if slow_outcome out then cs_gasPrice s * 2 else cs_gasPrice s)"
    and "cs_nonce s1 = (if nonce_outcome out then cs_nonce s + 1 else cs_nonce s)"
    and "slow_outcome out \<or> nonce_outcome out \<or> closed_outcome out"
  using assms by (auto simp: call_step_def on_failure_def Let_def split: send_outcome.splits if_splits)

lemma call_step_Some:
  assumes "call_step tx out s = (s1, Some r)"
  shows "cs_sent s1 = cs_sent s @ [tx]" and "r = Inr x \<Longrightarrow> out = Mined x"
  using assms by (auto simp: call_step_def on_failure_def Let_def split: send_outcome.splits if_splits)

text \<open>The state in front of attempt \<open>i\<close>, as far as the transactions depend on it.\<close>

definition attempt_state :: "nat \<Rightarrow> nat \<Rightarrow> (nat \<Rightarrow> 'r send_outcome) \<Rightarrow> nat \<Rightarrow> call_state" where
  "attempt_state price pending outs i =
     \<lparr>cs_gasPrice = price * 2 ^ occurrences slow_outcome outs i,
      cs_nonce = pending + occurrences nonce_outcome outs i, cs_sent = [], cs_reconnects = 0\<rparr>"

definition attempts_ok :: "string \<Rightarrow> bytes \<Rightarrow> call_options \<Rightarrow> nat \<Rightarrow> nat \<Rightarrow> (nat \<Rightarrow> 'r send_outcome) \<Rightarrow>
    eth_tx list \<Rightarrow> bool" where
  "attempts_ok addr abi opt price pending outs txs \<longleftrightarrow>
     (\<forall>i<length txs. txs ! i = make_tx addr abi opt (attempt_state price pending outs i)
        \<and> cs_gasPrice (attempt_state price pending outs i) < GAS_LIMIT)"

definition call_inv :: "string \<Rightarrow> bytes \<Rightarrow> call_options \<Rightarrow> nat \<Rightarrow> nat \<Rightarrow> (nat \<Rightarrow> 'r send_outcome) \<Rightarrow>
    call_state \<Rightarrow> bool" where
  "call_inv addr abi opt price pending outs s \<longleftrightarrow>
     attempts_ok addr abi opt price pending outs (cs_sent s)
   \<and> cs_gasPrice s = cs_gasPrice (attempt_state price pending outs (length (cs_sent s)))
   \<and> cs_nonce s = cs_nonce (attempt_state price pending outs (length (cs_sent s)))"

lemma make_tx_cong:
  "cs_gasPrice s = cs_gasPrice t \<Longrightarrow> cs_nonce s = cs_nonce t \<Longrightarrow> make_tx addr abi opt s = make_tx addr abi opt t"
  by (simp add: make_tx_def split: option.split)

lemma attempts_ok_snoc:
  assumes "call_inv addr abi opt price pending outs s" "cs_gasPrice s < GAS_LIMIT"
  shows "attempts_ok addr abi opt price pending outs (cs_sent s @ [make_tx addr abi opt s])"
  using assms by (auto simp: attempts_ok_def call_inv_def nth_append less_Suc_eq intro: make_tx_cong)

lemma call_inv_step:
  assumes "call_inv addr abi opt price pending outs s" "cs_gasPrice s < GAS_LIMIT"
    and step: "call_step (make_tx addr abi opt s) (outs (length (cs_sent s))) s = (s1, None)"
  shows "call_inv addr abi opt price pending outs s1"
  using assms(1) attempts_ok_snoc [OF assms(1,2)] call_step_None [OF step]
  by (auto simp: call_inv_def attempt_state_def)

lemma callContract_loop_attempts:
  assumes "call_inv addr abi opt price pending outs s"
  shows "attempts_ok addr abi opt price pending outs (cs_sent (fst (callContract_loop fuel addr abi opt outs s)))"
  using assms
proof (induction fuel arbitrary: s)
  case (Suc fuel)
  show ?case
  proof (cases "cs_gasPrice s < GAS_LIMIT")
    case True
    obtain s1 r where step: "call_step (make_tx addr abi opt s) (outs (length (cs_sent s))) s = (s1, r)"
      by fastforce
    show ?thesis
    proof (cases r)
      case None
      then show ?thesis
        using Suc.IH [of s1] call_inv_step [OF Suc.prems True] step True by simp
    next
      case (Some x)
      then show ?thesis
        using step True call_step_Some(1) [of _ _ s s1 x] attempts_ok_snoc [OF Suc.prems True] by simp
    qed
  qed (use Suc.prems in \<open>simp add: call_inv_def\<close>)
qed (simp add: call_inv_def)

lemma callContract_loop_result:
  assumes "callContract_loop fuel addr abi opt outs s = (s', Some (Inr r))"
  shows "cs_sent s' \<noteq> [] \<and> outs (length (cs_sent s') - 1) = Mined r"
  using assms
proof (induction fuel arbitrary: s)
  case (Suc fuel)
  obtain s1 x where step: "call_step (make_tx addr abi opt s) (outs (length (cs_sent s))) s = (s1, x)"
    by fastforce
  then show ?case
    using Suc.prems Suc.IH [of s1] call_step_Some(1) [of _ _ s s1 "Inr r"] call_step_Some(2) [of _ _ s s1 "Inr r" r]
    by (cases x) (auto split: if_splits)
qed simp

lemma callContract_loop_ends:
  assumes "GAS_LIMIT \<le> cs_gasPrice s * 2 ^ k"
    and "length (filter (\<lambda>i. \<not> slow_outcome (outs i) \<and> (nonce_outcome (outs i) \<or> closed_outcome (outs i)))
           [length (cs_sent s)..<length (cs_sent s) + fuel]) \<le> m"
    and "m + k < fuel"
  shows "\<exists>r. snd (callContract_loop fuel addr abi opt outs s) = Some r"
  using assms
proof (induction fuel arbitrary: s k m)
  case (Suc fuel)
  obtain s1 x where step: "call_step (make_tx addr abi opt s) (outs (length (cs_sent s))) s = (s1, x)"
    by fastforce
  show ?case
  proof (cases "cs_gasPrice s < GAS_LIMIT \<and> x = None")
    case True
    with step have step0: "call_step (make_tx addr abi opt s) (outs (length (cs_sent s))) s = (s1, None)"
      by simp
    note s1 = call_step_None [OF step0]
    have k: "0 < k" using Suc.prems(1) True by (cases k) auto
    have upt: "[length (cs_sent s)..<length (cs_sent s) + Suc fuel] =
        length (cs_sent s) # [Suc (length (cs_sent s))..<Suc (length (cs_sent s)) + fuel]"
      by (simp add: upt_conv_Cons)
    note few = Suc.prems(2) [unfolded upt filter.simps]
    have "\<exists>r. snd (callContract_loop fuel addr abi opt outs s1) = Some r"
    proof (cases "slow_outcome (outs (length (cs_sent s)))")
      case slow: True
      show ?thesis
        by (rule Suc.IH [of s1 "k - 1" m])
          (use Suc.prems(1,3) few k slow s1 in \<open>simp_all add: power_eq_if [of 2 k]\<close>)
    next
      case False
      then show ?thesis
        by (intro Suc.IH [of s1 k "m - 1"])
          (use Suc.prems(1,3) few s1 in \<open>auto split: if_splits\<close>)
    qed
    then show ?thesis using True step by simp
  qed (use step in auto)
qed simp

text \<open>
  C23. \<^verbatim>\<open>callContract\<close> resends one transaction: whatever the node answers, the \<open>i\<close>-th transaction it
  sends carries the pending nonce plus the number of nonce errors so far, and (unless the
  caller fixed a gas price) the initial gas price doubled once per timeout so far, which is
  below 1e13; all the other fields are those of the call. It returns a receipt only if the
  last transaction sent was mined with that receipt.
\<close>

theorem callContract_transactions:
  assumes "callContract fuel addr abi opt decodeABI price pending outs = (s, r)"
  shows "(\<forall>i<length (cs_sent s).
      cs_sent s ! i = make_tx addr abi opt (attempt_state price pending outs i)
      \<and> price * 2 ^ occurrences slow_outcome outs i < GAS_LIMIT)
    \<and> (\<forall>rec. r = Some (Inr rec) \<longrightarrow> cs_sent s \<noteq> [] \<and>
        (\<exists>raw. outs (length (cs_sent s) - 1) = Mined raw \<and> rec = decode_logs decodeABI raw))"
proof -
  let ?outs = "\<lambda>i. case outs i of Mined r \<Rightarrow> Mined (decode_logs decodeABI r) | o' \<Rightarrow> o'"
  have occ: "slow_outcome (?outs i) = slow_outcome (outs i)"
    "nonce_outcome (?outs i) = nonce_outcome (outs i)" for i
    by (simp_all split: send_outcome.splits)
  then have state: "attempt_state price pending ?outs = attempt_state price pending outs"
    by (simp add: attempt_state_def occurrences_def fun_eq_iff)
  let ?s0 = "\<lparr>cs_gasPrice = price, cs_nonce = pending, cs_sent = [], cs_reconnects = 0\<rparr>"
  have loop: "callContract_loop fuel addr abi opt ?outs ?s0 = (s, r)"
    using assms by (simp add: callContract_def)
  have "call_inv addr abi opt price pending ?outs ?s0"
    by (simp add: call_inv_def attempts_ok_def attempt_state_def)
  from callContract_loop_attempts [OF this, of fuel]
  have "attempts_ok addr abi opt price pending ?outs (cs_sent s)"
    by (simp only: loop fst_conv)
  moreover have "cs_sent s \<noteq> [] \<and> ?outs (length (cs_sent s) - 1) = Mined rec" if "r = Some (Inr rec)" for rec
    using callContract_loop_result [OF loop [unfolded that]] by simp
  ultimately show ?thesis
    unfolding attempts_ok_def state
    by (fastforce simp: attempt_state_def split: send_outcome.splits)
qed

definition demo_options :: call_options where
  "demo_options = \<lparr>opt_from = ''0x1'', opt_gas = 5000000, opt_gasPrice = None, opt_handleRevert = True\<rparr>"

definition demo_outcomes :: "nat \<Rightarrow> (unit, nat) receipt send_outcome" where
  "demo_outcomes i = (if i = 0 then TimedOut
     else if i = 1 then SendFailed ''replacement transaction underpriced''
     else Mined \<lparr>rc_logs = None, rc_events = None\<rparr>)"

theorem callContract_transactions_witness:
  "map (\<lambda>tx. (tx_nonce tx, tx_gasPrice tx))
     (cs_sent (fst (callContract (Suc (Suc (Suc 0))) ''0x2'' [] demo_options (\<lambda>_. undefined) 20 7 demo_outcomes)))
   = [(7, 20), (7, 40), (8, 40)]"
proof -
  let ?c = "callContract (Suc (Suc (Suc 0))) ''0x2'' [] demo_options (\<lambda>_. undefined) 20 7 demo_outcomes"
  have len: "length (cs_sent (fst ?c)) = 3"
    by (simp add: callContract_def demo_outcomes_def GAS_LIMIT_def call_step_def on_failure_def Let_def
        SLOW_TX_ERROR_MSG_def nonce_error_def startsWith_def)
  have occ: "occurrences slow_outcome demo_outcomes 1 = 1" "occurrences slow_outcome demo_outcomes 2 = 1"
    "occurrences nonce_outcome demo_outcomes 1 = 0" "occurrences nonce_outcome demo_outcomes 2 = 1"
    by (simp_all add: numeral_2_eq_2 demo_outcomes_def SLOW_TX_ERROR_MSG_def nonce_error_def startsWith_def)
  have "\<forall>i<3. cs_sent (fst ?c) ! i = make_tx ''0x2'' [] demo_options (attempt_state 20 7 demo_outcomes i)"
    using callContract_transactions [of "Suc (Suc (Suc 0))" "''0x2''" "[]" demo_options "\<lambda>_. undefined" 20 7 demo_outcomes
        "fst ?c" "snd ?c"] len by simp
  then have "cs_sent (fst ?c) = map (\<lambda>i. make_tx ''0x2'' [] demo_options (attempt_state 20 7 demo_outcomes i)) [0, 1, 2]"
    using len by (intro nth_equalityI) (auto simp: less_Suc_eq numeral_3_eq_3 numeral_2_eq_2)
  then show ?thesis
    by (simp add: make_tx_def attempt_state_def demo_options_def occ) (simp add: demo_outcomes_def)
qed

text \<open>
  C24. \<^verbatim>\<open>callContract\<close> returns: starting from a positive gas price it doubles the price at most 44
  times before it passes 1e13, so if nonce errors and closed connections make at most \<open>m\<close> of
  the first \<open>m + 45\<close> attempts fail, the loop ends within \<open>m + 45\<close> rounds with a receipt or an
  error.
\<close>

theorem callContract_returns:
  assumes "0 < price"
    and "occurrences (\<lambda>o'. nonce_outcome o' \<or> closed_outcome o') outs (m + 45) \<le> m"
  shows "\<exists>r. snd (callContract (m + 45) addr abi opt decodeABI price pending outs) = Some r"
proof -
  let ?outs = "\<lambda>i. case outs i of Mined r \<Rightarrow> Mined (decode_logs decodeABI r) | o' \<Rightarrow> o'"
  have "length (filter (\<lambda>i. \<not> slow_outcome (?outs i) \<and> (nonce_outcome (?outs i) \<or> closed_outcome (?outs i)))
      [0..<m + 45]) \<le> occurrences (\<lambda>o'. nonce_outcome o' \<or> closed_outcome o') outs (m + 45)"
    unfolding occurrences_def
    by (rule length_filter_mono_pred) (auto split: send_outcome.splits)
  moreover have "GAS_LIMIT \<le> price * 2 ^ 44"
    using assms(1) by (simp add: GAS_LIMIT_def)
  ultimately show ?thesis
    unfolding callContract_def using assms(2)
    by (intro callContract_loop_ends [where k = 44 and m = m]) simp_all
qed

theorem callContract_returns_witness:
  "\<exists>r. snd (callContract 46 ''0x2'' [] demo_options (\<lambda>_. undefined) 20 7 demo_outcomes) = Some r"
proof -
  have "occurrences (\<lambda>o'. nonce_outcome o' \<or> closed_outcome o') demo_outcomes (1 + 45) \<le> 1"
  proof -
    have "length (filter (\<lambda>i. nonce_outcome (demo_outcomes i) \<or> closed_outcome (demo_outcomes i)) [0..<46])
        \<le> length (filter (\<lambda>i. i = 1) [0..<46::nat])"
      by (rule length_filter_mono_pred) (auto simp: demo_outcomes_def split: if_splits)
    then show ?thesis by (simp add: occurrences_def upt_rec)
  qed
  then show ?thesis
    using callContract_returns [of 20 demo_outcomes 1] by simp
qed

section \<open>Properties of normalizeEthKey\<close>

lemma to_lower_idem [simp]: "to_lower (to_lower c) = to_lower c"
proof -
  have "of_char c < (256 :: nat)" by simp
  then show ?thesis by (auto simp: to_lower_def Let_def)
qed

lemma to_lower_digits [simp]: "to_lower (CHR ''0'') = CHR ''0''" "to_lower (CHR ''x'') = CHR ''x''"
  by (simp_all add: to_lower_def)

text \<open>
  \<^verbatim>\<open>normalizeEthKey\<close> gives every spelling of a key one form: the result starts with \<open>0x\<close>,
  normalizing it again changes nothing, and two keys that differ only in the case of their
  letters or in the prefix are normalized to the same string.
\<close>

lemma normalizeEthKey_canonical:
  "startsWith (normalizeEthKey k) ''0x'' \<and> normalizeEthKey (normalizeEthKey k) = normalizeEthKey k
   \<and> normalizeEthKey (map to_lower k) = normalizeEthKey k
   \<and> (startsWith (map to_lower k) ''0x'' \<or> normalizeEthKey (''0x'' @ k) = normalizeEthKey k)"
proof -
  have low: "map to_lower (map to_lower k) = map to_lower k" by simp
  have pre: "startsWith (''0x'' @ r) ''0x''" for r by (simp only: startsWith_append)
  show ?thesis
    using low pre by (auto simp: normalizeEthKey_def Let_def startsWith_def comp_def)
qed

end
