(* ===== verification/Near_Transactions.thy ===== *)
theory Near_Transactions
  imports Robust Borshify
begin

text \<open>
  Transactions on NEAR: \<^verbatim>\<open>signAndSendTransaction\<close> and \<^verbatim>\<open>nearJsonContractFunctionCall\<close> of
  \<^verbatim>\<open>utils/robust.js\<close>, and \<^verbatim>\<open>signAndSendTransactionAsync\<close>, \<^verbatim>\<open>txnStatus\<close> and
  \<^verbatim>\<open>getBorshTransactionLastResult\<close> of \<^verbatim>\<open>utils/borsh.js\<close>.

  The node and the signer of near-api-js are the parameter \<open>near_node\<close>: what each request
  answers, by the round of the outer loop and the turn of the inner one. An exception is its
  message. The list of \<open>near_event\<close> is what the outside world sees of a run: transactions
  signed, bytes broadcast, and the results read back.
\<close>

section \<open>The node\<close>

datatype final_status = FinalSuccess string | FinalFailure string | NotFinal

text \<open>A result of \<^verbatim>\<open>txStatus\<close>: its status and the logs of all its outcomes.\<close>

record tx_result =
  tr_status :: final_status
  tr_logs :: "string list"

record near_action =
  na_method :: string
  na_args :: bytes
  na_gas :: nat
  na_amount :: nat

record near_node =
  nn_status :: "nat \<Rightarrow> string + string"
  nn_sign :: "string \<Rightarrow> nat \<Rightarrow> near_action list \<Rightarrow> string \<Rightarrow> string + string \<times> bytes"
  nn_broadcast :: "nat \<Rightarrow> bytes \<Rightarrow> string option"
  nn_txStatus :: "nat \<Rightarrow> nat \<Rightarrow> string \<Rightarrow> string + tx_result"

datatype near_event =
    Signed nat bytes
  | Broadcast bytes
  | Polled "tx_result option"

definition RETRY_SEND_TX :: nat where "RETRY_SEND_TX = 10"
definition RETRY_TX_STATUS :: nat where "RETRY_TX_STATUS = 10"

section \<open>signAndSendTransaction\<close>

text \<open>\<open>ss_nonce\<close> is \<^verbatim>\<open>accessKey.nonce\<close>; it is \<open>None\<close> when no access key was found.\<close>

record send_state =
  ss_nonce :: "nat option"
  ss_errorMsg :: "string option"
  ss_resendLast :: bool
  ss_tx :: "(string \<times> bytes) option"
  ss_log :: "near_event list"

definition put_event :: "near_event \<Rightarrow> send_state \<Rightarrow> send_state" where
  "put_event e s = s\<lparr>ss_log := ss_log s @ [e]\<rparr>"

definition put_error :: "string \<Rightarrow> send_state \<Rightarrow> send_state" where
  "put_error e s = s\<lparr>ss_errorMsg := Some e\<rparr>"

text \<open>\<^verbatim>\<open>sendTxnAsync\<close>: the closure over the bytes of the last signed transaction.\<close>

definition sendTxnAsync :: "near_node \<Rightarrow> nat \<Rightarrow> send_state \<Rightarrow> send_state \<times> bool" where
  "sendTxnAsync N i s = (case ss_tx s of
     None \<Rightarrow> (put_error ''sendTxnAsync is not a function'' s, False)
   | Some (h, b) \<Rightarrow> (case nn_broadcast N i b of
       Some e \<Rightarrow> (put_error e (put_event (Broadcast b) s), False)
     | None \<Rightarrow> (put_event (Broadcast b) s, True)))"

text \<open>The first \<^verbatim>\<open>try\<close> block of a round; the second component tells whether it ran to its end.\<close>

definition send_phase :: "near_node \<Rightarrow> string \<Rightarrow> near_action list \<Rightarrow> nat \<Rightarrow> send_state \<Rightarrow> send_state \<times> bool" where
  "send_phase N receiverId actions i s =
     (if ss_resendLast s then
        (case sendTxnAsync N i s of
           (s1, True) \<Rightarrow> (s1\<lparr>ss_resendLast := False\<rparr>, True)
         | (s1, False) \<Rightarrow> (s1, False))
      else (case nn_status N i of
          Inl e \<Rightarrow> (put_error e s, False)
        | Inr blockHash \<Rightarrow>
            (case ss_nonce s of
               None \<Rightarrow> (put_error ''Cannot read property 'nonce' of null'' s, False)
             | Some n \<Rightarrow>
                 (let s1 = s\<lparr>ss_nonce := Some (n + 1)\<rparr> in
                  case nn_sign N receiverId (n + 1) actions blockHash of
                    Inl e \<Rightarrow> (put_error e s1, False)
                  | Inr (h, b) \<Rightarrow>
                      sendTxnAsync N i (put_event (Signed (n + 1) b) (s1\<lparr>ss_tx := Some (h, b)\<rparr>))))))"

text \<open>The inner loop: turn \<open>j\<close>, \<open>left\<close> turns to go, the last result and the last error message.\<close>

fun poll_loop :: "near_node \<Rightarrow> nat \<Rightarrow> string \<Rightarrow> nat \<Rightarrow> nat \<Rightarrow> tx_result option \<Rightarrow> string option
    \<Rightarrow> tx_result option \<times> string option" where
  "poll_loop N i h j 0 result err = (result, err)"
| "poll_loop N i h j (Suc left) result err = (case nn_txStatus N i j h of
     Inl e \<Rightarrow> poll_loop N i h (Suc j) left result (Some e)
   | Inr r \<Rightarrow> if tr_status r \<noteq> NotFinal then (Some r, err)
       else poll_loop N i h (Suc j) left (Some r) err)"

datatype round_end = Continue | Break | Return tx_result | Throw js_error

text \<open>
  The rest of a round. \<^verbatim>\<open>JSON.stringify(undefined)\<close> is \<^verbatim>\<open>undefined\<close>: when the last result is not
  final, \<^verbatim>\<open>errorMsg.includes\<close> raises a TypeError.
\<close>

definition finish_round :: "tx_result option \<Rightarrow> send_state \<Rightarrow> send_state \<times> round_end" where
  "finish_round result s = (case result of
     None \<Rightarrow> (s\<lparr>ss_resendLast := True\<rparr>, Continue)
   | Some r \<Rightarrow> (case tr_status r of
       FinalSuccess v \<Rightarrow> (s, Return r)
     | FinalFailure msg \<Rightarrow>
         (put_error msg s, if js_includes msg ''Transaction nonce'' then Continue else Break)
     | NotFinal \<Rightarrow> (s\<lparr>ss_errorMsg := None\<rparr>, Throw JsTypeError)))"

definition send_round :: "near_node \<Rightarrow> string \<Rightarrow> near_action list \<Rightarrow> nat \<Rightarrow> send_state
    \<Rightarrow> send_state \<times> round_end" where
  "send_round N receiverId actions i s = (case send_phase N receiverId actions i s of
     (s1, False) \<Rightarrow> (s1, Continue)
   | (s1, True) \<Rightarrow>
       (let h = (case ss_tx s1 of Some (h, b) \<Rightarrow> h | None \<Rightarrow> '''');
            (result, err) = poll_loop N i h 0 RETRY_TX_STATUS None (ss_errorMsg s1)
        in finish_round result (put_event (Polled result) (s1\<lparr>ss_errorMsg := err\<rparr>))))"

fun send_loop :: "near_node \<Rightarrow> string \<Rightarrow> near_action list \<Rightarrow> nat \<Rightarrow> nat \<Rightarrow> send_state
    \<Rightarrow> send_state \<times> tx_result res" where
  "send_loop N receiverId actions i 0 s =
     (s, Inl (JsError (case ss_errorMsg s of Some m \<Rightarrow> m | None \<Rightarrow> '''')))"
| "send_loop N receiverId actions i (Suc left) s = (case send_round N receiverId actions i s of
     (s1, Continue) \<Rightarrow> send_loop N receiverId actions (Suc i) left s1
   | (s1, Break) \<Rightarrow> (s1, Inl (JsError (case ss_errorMsg s1 of Some m \<Rightarrow> m | None \<Rightarrow> '''')))
   | (s1, Return r) \<Rightarrow> (s1, Inr r)
   | (s1, Throw e) \<Rightarrow> (s1, Inl e))"

definition signAndSendTransaction :: "near_node \<Rightarrow> nat option \<Rightarrow> string \<Rightarrow> near_action list
    \<Rightarrow> send_state \<times> tx_result res" where
  "signAndSendTransaction N accessKey receiverId actions =
     send_loop N receiverId actions 0 RETRY_SEND_TX
       \<lparr>ss_nonce = accessKey, ss_errorMsg = None, ss_resendLast = False, ss_tx = None, ss_log = []\<rparr>"

definition nearJsonContractFunctionCall :: "near_node \<Rightarrow> nat option \<Rightarrow> string \<Rightarrow> string \<Rightarrow> string \<Rightarrow>
    nat \<Rightarrow> nat \<Rightarrow> send_state \<times> tx_result res" where
  "nearJsonContractFunctionCall N accessKey contractId method json gas amount =
     signAndSendTransaction N accessKey contractId
       [\<lparr>na_method = method, na_args = utf8_bytes json, na_gas = gas, na_amount = amount\<rparr>]"

section \<open>The asynchronous variant\<close>

text \<open>One broadcast; the caller polls later with \<^verbatim>\<open>txnStatus\<close>.\<close>

definition signAndSendTransactionAsync :: "near_node \<Rightarrow> nat \<Rightarrow> string \<Rightarrow> near_action list \<Rightarrow>
    nat \<times> (string + string)" where
  "signAndSendTransactionAsync N accessKeyNonce receiverId actions = (case nn_status N 0 of
     Inl e \<Rightarrow> (accessKeyNonce, Inl e)
   | Inr blockHash \<Rightarrow> (case nn_sign N receiverId (accessKeyNonce + 1) actions blockHash of
       Inl e \<Rightarrow> (accessKeyNonce + 1, Inl e)
     | Inr (h, b) \<Rightarrow> (case nn_broadcast N 0 b of
         Some e \<Rightarrow> (accessKeyNonce + 1, Inl e)
       | None \<Rightarrow> (accessKeyNonce + 1, Inr h))))"

fun status_loop :: "near_node \<Rightarrow> string \<Rightarrow> nat \<Rightarrow> nat \<Rightarrow> tx_result option \<Rightarrow> tx_result option" where
  "status_loop N h i 0 result = result"
| "status_loop N h i (Suc left) result = (case nn_txStatus N 0 i h of
     Inl e \<Rightarrow> status_loop N h (Suc i) left result
   | Inr r \<Rightarrow> if tr_status r \<noteq> NotFinal then Some r else status_loop N h (Suc i) left (Some r))"

definition txnStatus :: "near_node \<Rightarrow> string \<Rightarrow> nat \<Rightarrow> tx_result res" where
  "txnStatus N txHash retries = (case status_loop N txHash 0 retries None of
     None \<Rightarrow> Inl (JsError (''Transaction '' @ txHash @ '' didn't finish''))
   | Some r \<Rightarrow> (case tr_status r of
       FinalSuccess v \<Rightarrow> Inr r
     | FinalFailure msg \<Rightarrow> Inl (JsError msg)
     | NotFinal \<Rightarrow> Inl (JsError '''')))"

definition getBorshTransactionLastResult :: "tx_result \<Rightarrow> bytes res" where
  "getBorshTransactionLastResult txResult = (case tr_status txResult of
     FinalSuccess v \<Rightarrow> Inr (base64_bytes v)
   | _ \<Rightarrow> Inl JsTypeError)"

section \<open>No transaction is sent twice under two nonces\<close>

text \<open>
  \<open>resend_discipline lst unknown es\<close>: in the sequence of events \<open>es\<close> only the transaction signed
  last is broadcast, and as long as the outcome of a broadcast transaction is unknown (polling
  it gave no result), nothing else is signed.
\<close>

fun resend_discipline :: "bytes option \<Rightarrow> bool \<Rightarrow> near_event list \<Rightarrow> bool" where
  "resend_discipline lst unknown [] = True"
| "resend_discipline lst unknown (Signed n b # es) = (\<not> unknown \<and> resend_discipline (Some b) False es)"
| "resend_discipline lst unknown (Broadcast b # es) = (lst = Some b \<and> resend_discipline lst unknown es)"
| "resend_discipline lst unknown (Polled r # es) = resend_discipline lst (r = None) es"

text \<open>The state of that automaton after a list of events.\<close>

fun last_signed :: "bytes option \<Rightarrow> near_event list \<Rightarrow> bytes option" where
  "last_signed l [] = l"
| "last_signed l (Signed n b # es) = last_signed (Some b) es"
| "last_signed l (_ # es) = last_signed l es"

fun outcome_unknown :: "bool \<Rightarrow> near_event list \<Rightarrow> bool" where
  "outcome_unknown u [] = u"
| "outcome_unknown u (Signed n b # es) = outcome_unknown False es"
| "outcome_unknown u (Polled r # es) = outcome_unknown (r = None) es"
| "outcome_unknown u (Broadcast b # es) = outcome_unknown u es"

lemma resend_discipline_append:
  "resend_discipline l u (es @ fs) \<longleftrightarrow>
     resend_discipline l u es \<and> resend_discipline (last_signed l es) (outcome_unknown u es) fs"
  by (induction l u es rule: resend_discipline.induct) auto

lemma last_signed_append [simp]: "last_signed l (es @ fs) = last_signed (last_signed l es) fs"
  by (induction l es rule: last_signed.induct) auto

lemma outcome_unknown_append [simp]: "outcome_unknown u (es @ fs) = outcome_unknown (outcome_unknown u es) fs"
  by (induction u es rule: outcome_unknown.induct) auto

definition send_inv :: "send_state \<Rightarrow> bool" where
  "send_inv s \<longleftrightarrow> resend_discipline None False (ss_log s)
     \<and> map_option snd (ss_tx s) = last_signed None (ss_log s)
     \<and> (outcome_unknown False (ss_log s) \<longrightarrow> ss_resendLast s)
     \<and> (ss_resendLast s \<longrightarrow> ss_tx s \<noteq> None)"

lemmas send_state_simps = put_event_def put_error_def

lemma sendTxnAsync_inv:
  assumes "send_inv s" "sendTxnAsync N i s = (s1, b)"
  shows "send_inv s1" "ss_resendLast s1 = ss_resendLast s" "b \<Longrightarrow> ss_tx s1 \<noteq> None"
    "b \<Longrightarrow> outcome_unknown False (ss_log s1) = outcome_unknown False (ss_log s)"
  using assms
  by (auto simp: sendTxnAsync_def send_inv_def send_state_simps resend_discipline_append
      split: option.splits prod.splits)

text \<open>The invariant between the two phases of a round: the transaction has been broadcast.\<close>

definition sent_inv :: "send_state \<Rightarrow> bool" where
  "sent_inv s \<longleftrightarrow> resend_discipline None False (ss_log s)
     \<and> map_option snd (ss_tx s) = last_signed None (ss_log s) \<and> ss_tx s \<noteq> None"

lemma send_phase_inv:
  assumes "send_inv s" "send_phase N rid acts i s = (s1, b)"
  shows "if b then sent_inv s1 else send_inv s1"
proof (cases "ss_resendLast s")
  case True
  obtain s2 b2 where "sendTxnAsync N i s = (s2, b2)" by fastforce
  then show ?thesis
    using assms True sendTxnAsync_inv [OF assms(1), of N i s2 b2]
    by (cases b2) (auto simp: send_phase_def send_inv_def sent_inv_def)
next
  case False
  then have known: "\<not> outcome_unknown False (ss_log s)"
    using assms(1) by (auto simp: send_inv_def)
  have signed: "send_inv (put_event (Signed n b') (s\<lparr>ss_nonce := m, ss_tx := Some (h, b')\<rparr>))" for n b' m h
    using assms(1) known by (auto simp: send_inv_def put_event_def resend_discipline_append)
  show ?thesis
    using assms False sendTxnAsync_inv [OF signed]
    by (fastforce simp: send_phase_def Let_def send_inv_def sent_inv_def put_error_def
        split: sum.splits option.splits)
qed

lemma send_round_inv:
  assumes "send_inv s" "send_round N rid acts i s = (s1, e)"
  shows "send_inv s1"
proof -
  obtain s2 b where s2: "send_phase N rid acts i s = (s2, b)" by fastforce
  note inv = send_phase_inv [OF assms(1) s2]
  show ?thesis
  proof (cases b)
    case True
    with inv have "sent_inv s2" by simp
    then show ?thesis
      using assms(2) s2 True
      by (auto simp: send_round_def finish_round_def send_inv_def sent_inv_def send_state_simps
          resend_discipline_append Let_def split: prod.splits option.splits final_status.splits)
  qed (use assms(2) s2 inv in \<open>simp add: send_round_def\<close>)
qed

lemma send_loop_inv: "send_inv s \<Longrightarrow> send_inv (fst (send_loop N rid acts i left s))"
proof (induction left arbitrary: s i)
  case (Suc left)
  obtain s1 e where "send_round N rid acts i s = (s1, e)" by fastforce
  then show ?case
    using Suc send_round_inv [OF Suc.prems] by (cases e) auto
qed simp


section \<open>What is returned\<close>

lemma poll_loop_result:
  assumes "poll_loop N i h j left res0 err = (Some r, err')" "res0 = None \<or> res0 = Some r0 \<and> tr_status r0 = NotFinal"
    "tr_status r \<noteq> NotFinal"
  shows "\<exists>k. j \<le> k \<and> k < j + left \<and> nn_txStatus N i k h = Inr r"
  using assms
proof (induction left arbitrary: j res0 r0 err)
  case (Suc left)
  show ?case
  proof (cases "nn_txStatus N i j h")
    case (Inl e)
    then show ?thesis
      using Suc.IH [of "Suc j" res0 "Some e" r0] Suc.prems by auto (metis Suc_leD)+
  next
    case (Inr r1)
    show ?thesis
    proof (cases "tr_status r1 = NotFinal")
      case True
      then show ?thesis
        using Suc.IH [of "Suc j" "Some r1" err r1] Suc.prems Inr by auto (metis Suc_leD)+
    qed (use Inr Suc.prems in auto)
  qed
qed auto

lemma poll_loop_first:
  assumes "k < left" "\<forall>m<k. \<forall>r. nn_txStatus N i (j + m) h = Inr r \<longrightarrow> tr_status r = NotFinal"
    "nn_txStatus N i (j + k) h = Inr r" "tr_status r \<noteq> NotFinal"
  shows "fst (poll_loop N i h j left res0 err) = Some r"
  using assms
proof (induction left arbitrary: j k res0 err)
  case (Suc left)
  show ?case
  proof (cases k)
    case (Suc k')
    have "fst (poll_loop N i h (Suc j) left res1 err1) = Some r" for res1 err1
      using Suc.prems Suc by (intro Suc.IH [of k']) auto
    then show ?thesis
      using Suc.prems(2) Suc by (auto split: sum.splits)
  qed (use Suc.prems in simp)
qed simp

lemma poll_loop_pending:
  assumes "\<forall>m<left. \<forall>r. nn_txStatus N i (j + m) h = Inr r \<longrightarrow> tr_status r = NotFinal"
    "(\<exists>r0. res0 = Some r0 \<and> tr_status r0 = NotFinal) \<or> (\<exists>m<left. \<not> isl (nn_txStatus N i (j + m) h))"
  shows "\<exists>r. fst (poll_loop N i h j left res0 err) = Some r \<and> tr_status r = NotFinal"
  using assms
proof (induction left arbitrary: j res0 err)
  case (Suc left)
  have rest: "\<forall>m<left. \<forall>r. nn_txStatus N i (Suc j + m) h = Inr r \<longrightarrow> tr_status r = NotFinal"
    using Suc.prems(1) by auto
  have now: "tr_status r = NotFinal" if "nn_txStatus N i j h = Inr r" for r
    using Suc.prems(1) that by (metis add_0_right zero_less_Suc)
  show ?case
  proof (cases "nn_txStatus N i j h")
    case (Inl e)
    then have "(\<exists>r0. res0 = Some r0 \<and> tr_status r0 = NotFinal) \<or>
        (\<exists>m<left. \<not> isl (nn_txStatus N i (Suc j + m) h))"
      using Suc.prems(2) by (auto simp: less_Suc_eq_0_disj)
    from Suc.IH [OF rest this] show ?thesis using Inl by simp
  next
    case (Inr r)
    then show ?thesis
      using Suc.IH [OF rest, of "Some r"] now by simp
  qed
qed auto

lemma send_phase_tx:
  assumes "send_phase N rid acts i s = (s1, True)"
  shows "\<exists>h b. ss_tx s1 = Some (h, b)"
  using assms
  by (auto simp: send_phase_def sendTxnAsync_def send_state_simps Let_def
      split: if_splits option.splits sum.splits prod.splits bool.splits)

lemma send_round_Return:
  assumes "send_round N rid acts i s = (s1, Return r)"
  shows "\<exists>h b k v. ss_tx s1 = Some (h, b) \<and> k < RETRY_TX_STATUS \<and> nn_txStatus N i k h = Inr r
    \<and> tr_status r = FinalSuccess v"
proof -
  obtain s2 where s2: "send_phase N rid acts i s = (s2, True)"
    using assms by (auto simp: send_round_def split: prod.splits bool.splits)
  with send_phase_tx obtain h bs where h: "ss_tx s2 = Some (h, bs)" by blast
  obtain res err where poll: "poll_loop N i h 0 RETRY_TX_STATUS None (ss_errorMsg s2) = (res, err)"
    by fastforce
  have "res = Some r \<and> (\<exists>v. tr_status r = FinalSuccess v) \<and> ss_tx s1 = Some (h, bs)"
    using assms s2 h poll
    by (auto simp: send_round_def finish_round_def send_state_simps
        split: option.splits final_status.splits if_splits)
  then show ?thesis
    using poll_loop_result [of N i h 0 RETRY_TX_STATUS None "ss_errorMsg s2" r err] poll h by auto
qed

lemma send_loop_Return:
  assumes "snd (send_loop N rid acts i left s) = Inr r"
  shows "\<exists>i' h b k v. i' < i + left \<and> k < RETRY_TX_STATUS \<and> nn_txStatus N i' k h = Inr r
    \<and> tr_status r = FinalSuccess v \<and> ss_tx (fst (send_loop N rid acts i left s)) = Some (h, b)"
  using assms
proof (induction left arbitrary: s i)
  case (Suc left)
  obtain s1 e where round: "send_round N rid acts i s = (s1, e)" by fastforce
  show ?case
  proof (cases e)
    case Continue
    then show ?thesis using Suc.IH [of "Suc i" s1] Suc.prems round by auto
  next
    case (Return r')
    with Suc.prems round have "send_round N rid acts i s = (s1, Return r)" by simp
    from send_round_Return [OF this] show ?thesis
      using Return round by (intro exI [of _ i]) auto
  qed (use Suc.prems round in auto)
qed simp

text \<open>
  C22. \<^verbatim>\<open>signAndSendTransaction\<close> returns only a final success: a returned result was read from the node
  within ten polls of one of the ten rounds, under the hash of a transaction that was signed
  for this call, and its status carries a \<^verbatim>\<open>SuccessValue\<close>.
\<close>

theorem signAndSend_returns_success:
  assumes "snd (signAndSendTransaction N accessKey receiverId actions) = Inr r"
  shows "\<exists>i h b k v. i < RETRY_SEND_TX \<and> k < RETRY_TX_STATUS \<and> nn_txStatus N i k h = Inr r
    \<and> tr_status r = FinalSuccess v
    \<and> ss_tx (fst (signAndSendTransaction N accessKey receiverId actions)) = Some (h, b)"
  using send_loop_Return [of N receiverId actions 0 RETRY_SEND_TX] assms
  unfolding signAndSendTransaction_def by fastforce

definition demo_node :: "final_status \<Rightarrow> near_node" where
  "demo_node st = \<lparr>nn_status = (\<lambda>i. Inr ''hash''), nn_sign = (\<lambda>rid n acts bh. Inr (''tx'', [word_of_nat n])),
     nn_broadcast = (\<lambda>i b. None),
     nn_txStatus = (\<lambda>i j h. if j < 2 then Inl ''Timeout'' else Inr \<lparr>tr_status = st, tr_logs = []\<rparr>)\<rparr>"

theorem signAndSend_returns_success_witness:
  "\<exists>v. snd (signAndSendTransaction (demo_node (FinalSuccess ''AQ=='')) (Some 5) ''client'' [])
    = Inr \<lparr>tr_status = FinalSuccess v, tr_logs = []\<rparr>"
proof -
  have "snd (signAndSendTransaction (demo_node (FinalSuccess ''AQ=='')) (Some 5) ''client'' [])
    = Inr \<lparr>tr_status = FinalSuccess ''AQ=='', tr_logs = []\<rparr>"
    by (simp add: signAndSendTransaction_def demo_node_def RETRY_SEND_TX_def RETRY_TX_STATUS_def
        numeral_eq_Suc send_round_def send_phase_def sendTxnAsync_def send_state_simps finish_round_def)
  from signAndSend_returns_success [OF this] this show ?thesis by auto
qed

lemma first_round:
  assumes "nn_status N 0 = Inr bh" "nn_sign N rid (n + 1) acts bh = Inr (h, b)" "nn_broadcast N 0 b = None"
  shows "send_round N rid acts 0
      \<lparr>ss_nonce = Some n, ss_errorMsg = None, ss_resendLast = False, ss_tx = None, ss_log = []\<rparr>
    = (let (result, err) = poll_loop N 0 h 0 RETRY_TX_STATUS None None in
       finish_round result \<lparr>ss_nonce = Some (n + 1), ss_errorMsg = err, ss_resendLast = False,
         ss_tx = Some (h, b), ss_log = [Signed (n + 1) b, Broadcast b, Polled result]\<rparr>)"
  using assms
  by (simp add: send_round_def send_phase_def sendTxnAsync_def send_state_simps split: prod.split)

text \<open>
  On a node that answers, one transaction is enough: when the first transaction is signed and
  broadcast and the first final answer among the ten polls is a success, it is returned, the nonce
  went up by one and exactly one transaction was sent.
\<close>

lemma signAndSend_first_round:
  assumes "nn_status N 0 = Inr bh" "nn_sign N receiverId (n + 1) actions bh = Inr (h, b)"
    and "nn_broadcast N 0 b = None"
    and "k < RETRY_TX_STATUS"
    and "\<forall>m<k. \<forall>r. nn_txStatus N 0 m h = Inr r \<longrightarrow> tr_status r = NotFinal"
    and "nn_txStatus N 0 k h = Inr r" "tr_status r = FinalSuccess v"
  shows "snd (signAndSendTransaction N (Some n) receiverId actions) = Inr r
    \<and> ss_nonce (fst (signAndSendTransaction N (Some n) receiverId actions)) = Some (n + 1)
    \<and> ss_log (fst (signAndSendTransaction N (Some n) receiverId actions)) =
        [Signed (n + 1) b, Broadcast b, Polled (Some r)]"
proof -
  obtain err where "poll_loop N 0 h 0 RETRY_TX_STATUS None None = (Some r, err)"
    using poll_loop_first [of k RETRY_TX_STATUS N 0 0 h r None None] assms
    by (cases "poll_loop N 0 h 0 RETRY_TX_STATUS None None") auto
  then show ?thesis
    using first_round [OF assms(1-3)] assms(7)
    by (simp add: signAndSendTransaction_def RETRY_SEND_TX_def numeral_eq_Suc finish_round_def)
qed

text \<open>
  C39. A transaction that is still running after the ten polls is reported as a \<^verbatim>\<open>TypeError\<close>: when the
  transaction was broadcast and every answer of the node is that it is not final, with at least
  one answer, \<^verbatim>\<open>signAndSendTransaction\<close> fails with a \<^verbatim>\<open>TypeError\<close> in its first round, without
  resending it and without the message of any failure.
\<close>

theorem signAndSend_pending_type_error:
  assumes "nn_status N 0 = Inr bh" "nn_sign N receiverId (n + 1) actions bh = Inr (h, b)"
    and "nn_broadcast N 0 b = None"
    and "\<forall>m<RETRY_TX_STATUS. \<forall>r. nn_txStatus N 0 m h = Inr r \<longrightarrow> tr_status r = NotFinal"
    and "\<exists>m<RETRY_TX_STATUS. \<not> isl (nn_txStatus N 0 m h)"
  shows "snd (signAndSendTransaction N (Some n) receiverId actions) = Inl JsTypeError"
proof -
  obtain r err where "poll_loop N 0 h 0 RETRY_TX_STATUS None None = (Some r, err)" "tr_status r = NotFinal"
    using poll_loop_pending [of RETRY_TX_STATUS N 0 0 h None None] assms(4,5)
    by (cases "poll_loop N 0 h 0 RETRY_TX_STATUS None None") auto
  then show ?thesis
    using first_round [OF assms(1-3)]
    by (simp add: signAndSendTransaction_def RETRY_SEND_TX_def numeral_eq_Suc finish_round_def)
qed

theorem signAndSend_pending_type_error_witness:
  "snd (signAndSendTransaction (demo_node NotFinal) (Some 5) ''client'' []) = Inl JsTypeError"
proof -
  have "\<exists>m<RETRY_TX_STATUS. \<not> isl (nn_txStatus (demo_node NotFinal) 0 m ''tx'')"
    by (intro exI [of _ 2]) (simp add: demo_node_def RETRY_TX_STATUS_def)
  then show ?thesis
    using signAndSend_pending_type_error [of "demo_node NotFinal" "''hash''" "''client''" 5 "[]" "''tx''" "[6]"]
    by (simp add: demo_node_def)
qed

end
