(* ===== verification/Eth_On_Near.thy ===== *)
theory Eth_On_Near
  imports Borsh_Schema Near_Transactions
begin

text \<open>
  The contracts of the Ethereum-to-NEAR direction as the relay sees them: the class
  \<^verbatim>\<open>BorshContract\<close> of \<^verbatim>\<open>utils/borsh.js\<close>, the client (\<^verbatim>\<open>eth-on-near-client.js\<close>) and the prover
  (\<^verbatim>\<open>eth-on-near-prover.js\<close>), with their Borsh schemas, and the routines that fetch an
  Ethereum block and turn it into the RLP of its header. RLP encoding itself and the hard-fork
  tables are in packages and enter as the parameter \<open>rlp\<close>.
\<close>

section \<open>BorshContract\<close>

definition DEFAULT_FUNC_CALL_AMOUNT :: nat where "DEFAULT_FUNC_CALL_AMOUNT = 300000000000000"

record method_descr =
  methodName :: string
  inputFieldType :: "field_type option"
  outputFieldType :: "field_type option"

text \<open>\<open>query i\<close> is the answer to the \<open>i\<close>-th request: the bytes \<^verbatim>\<open>result.result\<close>, if there are any.\<close>

definition view_method :: "nat \<Rightarrow> writer \<Rightarrow> borsh_schema \<Rightarrow> method_descr \<Rightarrow> js_value \<Rightarrow>
    (bytes \<Rightarrow> nat \<Rightarrow> string + bytes option) \<Rightarrow> js_value res" where
  "view_method e W S d args query = res_bind (serialize e W S (inputFieldType d) args) (\<lambda>bs.
     case fst (backoff 10 (query bs) DELAY BACKOFF 0) of
       Inl msg \<Rightarrow> Inl (LibraryError msg)
     | Inr None \<Rightarrow> Inr JUndefined
     | Inr (Some []) \<Rightarrow> Inr (JBool False)
     | Inr (Some (b # r)) \<Rightarrow> deserialize e S (outputFieldType d) (b # r))"

definition change_action :: "method_descr \<Rightarrow> bytes \<Rightarrow> nat option \<Rightarrow> nat \<Rightarrow> near_action" where
  "change_action d args gas amount = \<lparr>na_method = methodName d, na_args = args,
     na_gas = (case gas of Some g \<Rightarrow> g | None \<Rightarrow> DEFAULT_FUNC_CALL_AMOUNT), na_amount = amount\<rparr>"

definition change_method :: "nat \<Rightarrow> writer \<Rightarrow> borsh_schema \<Rightarrow> near_node \<Rightarrow> nat option \<Rightarrow> string \<Rightarrow>
    method_descr \<Rightarrow> js_value \<Rightarrow> nat option \<Rightarrow> nat \<Rightarrow> js_value res" where
  "change_method e W S N accessKey contractId d args gas amount =
     res_bind (serialize e W S (inputFieldType d) args) (\<lambda>bs.
     res_bind (snd (signAndSendTransaction N accessKey contractId [change_action d bs gas amount])) (\<lambda>rawResult.
     res_bind (getBorshTransactionLastResult rawResult) (\<lambda>result.
     deserialize e S (outputFieldType d) result)))"

definition change_method_async :: "nat \<Rightarrow> writer \<Rightarrow> borsh_schema \<Rightarrow> near_node \<Rightarrow> nat \<Rightarrow> string \<Rightarrow>
    method_descr \<Rightarrow> js_value \<Rightarrow> nat option \<Rightarrow> nat \<Rightarrow> string res" where
  "change_method_async e W S N accessKeyNonce contractId d args gas amount =
     res_bind (serialize e W S (inputFieldType d) args) (\<lambda>bs.
       case snd (signAndSendTransactionAsync N accessKeyNonce contractId [change_action d bs gas amount]) of
         Inl msg \<Rightarrow> Inl (LibraryError msg) | Inr h \<Rightarrow> Inr h)"

definition accessKeyInit :: "string \<Rightarrow> nat option \<Rightarrow> nat res" where
  "accessKeyInit accountId found = (case found of
     Some n \<Rightarrow> Inr n
   | None \<Rightarrow> Inl (JsError (''Can not sign transactions for account '' @ accountId @
       '', no matching key pair found in Signer.'')))"

section \<open>Ethereum blocks\<close>

record eth_block =
  eb_hash :: string
  eb_baseFeePerGas :: "string option"
  eb_fields :: bytes

text \<open>\<open>node i\<close> is the answer to the \<open>i\<close>-th \<^verbatim>\<open>eth_getBlockByNumber\<close>; the body's \<^verbatim>\<open>result\<close> may be \<^verbatim>\<open>null\<close>.\<close>

fun getEthBlock_loop :: "(nat \<Rightarrow> string + 'b option) \<Rightarrow> nat \<Rightarrow> nat \<Rightarrow> 'b option \<Rightarrow> string + 'b option" where
  "getEthBlock_loop node i 0 blockData = Inr blockData"
| "getEthBlock_loop node i (Suc attempts) blockData = (case node i of
     Inl e \<Rightarrow> Inl e
   | Inr None \<Rightarrow> getEthBlock_loop node (Suc i) attempts None
   | Inr (Some b) \<Rightarrow> Inr (Some b))"

definition getEthBlock :: "(nat \<Rightarrow> string + 'b option) \<Rightarrow> string + 'b option" where
  "getEthBlock node = getEthBlock_loop node 0 10 None"

definition web3BlockToRlp :: "(string \<Rightarrow> bool \<Rightarrow> eth_block \<Rightarrow> bytes option) \<Rightarrow> eth_block option \<Rightarrow> string option
    \<Rightarrow> bytes res" where
  "web3BlockToRlp rlp blockData bridgeId =
     (let chain = (if bridgeId = Some ''testnet'' then ''ropsten'' else ''mainnet'') in
      case blockData of
        None \<Rightarrow> Inl JsTypeError
      | Some b \<Rightarrow> of_lib ''@ethereumjs/block'' (rlp chain (eb_baseFeePerGas b \<noteq> None) b))"

section \<open>EthOnNearClientContract\<close>

definition client_borshSchema :: "hexlib \<Rightarrow> borsh_schema" where
  "client_borshSchema H = map_of [
     (''bool'', SFunction
        (\<lambda>b. of_lib ''web3'' (hexToBytes H (JStr (if truthy b then ''0x01'' else ''0x00''))))
        (\<lambda>c. res_bind (readerToHex H 1 c) (\<lambda>(v, c1). Inr (JBool (v = JStr ''0x01''), c1)))),
     (''initInput'', SStruct [
        (''validate_ethash'', FName ''bool''),
        (''dags_start_epoch'', FName ''u64''),
        (''dags_merkle_roots'', FArray (FName ''H128'')),
        (''first_header'', FArray (FName ''u8'')),
        (''hashes_gc_threshold'', FName ''u64''),
        (''finalized_gc_threshold'', FName ''u64''),
        (''num_confirmations'', FName ''u64''),
        (''trusted_signer'', FName ''?AccountId'')]),
     (''dagMerkleRootInput'', SStruct [(''epoch'', FName ''u64'')]),
     (''addBlockHeaderInput'', SStruct [
        (''block_header'', FArray (FName ''u8'')),
        (''dag_nodes'', FArray (FName ''DoubleNodeWithMerkleProof''))]),
     (''DoubleNodeWithMerkleProof'', SStruct [
        (''dag_nodes'', FArray (FName ''H512'')),
        (''proof'', FArray (FName ''H128''))]),
     (''H128'', SFunction (hexToBuffer H) (readerToHex H 16)),
     (''H256'', SFunction (hexToBuffer H) (readerToHex H 32)),
     (''H512'', SFunction (hexToBuffer H) (readerToHex H 64)),
     (''?H256'', SOption (FName ''H256'')),
     (''?AccountId'', SOption (FName ''string''))]"

definition client_viewMethods :: "method_descr list" where
  "client_viewMethods = [
     \<lparr>methodName = ''initialized'', inputFieldType = None, outputFieldType = Some (FName ''bool'')\<rparr>,
     \<lparr>methodName = ''dag_merkle_root'', inputFieldType = Some (FName ''dagMerkleRootInput''),
      outputFieldType = Some (FName ''H128'')\<rparr>,
     \<lparr>methodName = ''last_block_number'', inputFieldType = None, outputFieldType = Some (FName ''u64'')\<rparr>,
     \<lparr>methodName = ''block_hash'', inputFieldType = Some (FName ''u64''), outputFieldType = Some (FName ''?H256'')\<rparr>,
     \<lparr>methodName = ''known_hashes'', inputFieldType = Some (FName ''u64''),
      outputFieldType = Some (FArray (FName ''H256''))\<rparr>,
     \<lparr>methodName = ''block_hash_safe'', inputFieldType = Some (FName ''u64''),
      outputFieldType = Some (FName ''?H256'')\<rparr>]"

definition client_changeMethods :: "method_descr list" where
  "client_changeMethods = [
     \<lparr>methodName = ''init'', inputFieldType = Some (FName ''initInput''), outputFieldType = None\<rparr>,
     \<lparr>methodName = ''add_block_header'', inputFieldType = Some (FName ''addBlockHeaderInput''),
      outputFieldType = None\<rparr>]"

text \<open>
  \<^verbatim>\<open>maybeInitialize\<close> of the client. The environment gives the outcome of each call; the result
  is the argument object of \<^verbatim>\<open>init\<close>, if that was called, and how the method ends.
\<close>

record client_env =
  ce_accountId :: string
  ce_accessKey :: "nat option"
  ce_initialized :: "js_value res"
  ce_blockNumber :: "nat res"
  ce_getEthBlock :: "nat \<Rightarrow> string + eth_block option"
  ce_init :: "js_value \<Rightarrow> nat \<Rightarrow> unit res"
  ce_dag_merkle_root :: "js_value \<Rightarrow> js_value res"
  ce_roots :: "string list"

definition init_args :: "js_value \<Rightarrow> string list \<Rightarrow> bytes \<Rightarrow> nat \<Rightarrow> nat \<Rightarrow> nat \<Rightarrow> js_value \<Rightarrow> js_value" where
  "init_args validateEthash roots blockRlp hashesGc finalizedGc numConf trustedSigner = JObj [
     (''validate_ethash'', validateEthash),
     (''dags_start_epoch'', JInt 0),
     (''dags_merkle_roots'', JArr (map JStr roots)),
     (''first_header'', JBytes blockRlp),
     (''hashes_gc_threshold'', JInt (int hashesGc)),
     (''finalized_gc_threshold'', JInt (int finalizedGc)),
     (''num_confirmations'', JInt (int numConf)),
     (''trusted_signer'', trustedSigner)]"

definition client_init :: "(string \<Rightarrow> bool \<Rightarrow> eth_block \<Rightarrow> bytes option) \<Rightarrow> client_env \<Rightarrow> nat \<Rightarrow> nat \<Rightarrow> nat \<Rightarrow>
    js_value \<Rightarrow> js_value \<Rightarrow> string option \<Rightarrow> js_value res" where
  "client_init rlp E hashesGc finalizedGc numConf validateEthash trustedSigner bridgeId =
     res_bind (ce_blockNumber E) (\<lambda>lastBlockNumber.
     res_bind (case ce_getEthBlock E lastBlockNumber of Inl m \<Rightarrow> Inl (LibraryError m) | Inr b \<Rightarrow> Inr b) (\<lambda>blockData.
     res_bind (web3BlockToRlp rlp blockData bridgeId) (\<lambda>blockRlp.
       let args = init_args validateEthash (ce_roots E) blockRlp hashesGc finalizedGc numConf trustedSigner
       in res_bind (ce_init E args 300000000000000) (\<lambda>_. Inr args))))"

definition client_maybeInitialize :: "(string \<Rightarrow> bool \<Rightarrow> eth_block \<Rightarrow> bytes option) \<Rightarrow> client_env \<Rightarrow> nat \<Rightarrow> nat \<Rightarrow> nat \<Rightarrow>
    js_value \<Rightarrow> js_value \<Rightarrow> string option \<Rightarrow> js_value option res" where
  "client_maybeInitialize rlp E hashesGc finalizedGc numConf validateEthash trustedSigner bridgeId =
     res_bind (accessKeyInit (ce_accountId E) (ce_accessKey E)) (\<lambda>_.
     let initialized = (case ce_initialized E of Inl _ \<Rightarrow> False | Inr v \<Rightarrow> truthy v) in
     res_bind (if initialized then Inr None
       else res_bind (client_init rlp E hashesGc finalizedGc numConf validateEthash trustedSigner bridgeId)
              (\<lambda>args. Inr (Some args))) (\<lambda>called.
     res_bind (ce_dag_merkle_root E (JObj [(''epoch'', JInt 0)])) (\<lambda>firstRoot.
     res_bind (ce_dag_merkle_root E (JObj [(''epoch'', JInt 511)])) (\<lambda>lastRoot.
       if \<not> (firstRoot = JStr ''0x55b891e842e58f58956a847cbbf67821''
              \<and> lastRoot = JStr ''0x7a9010568819de327a24fa495029adcb'')
       then Inl (ProcessExit 1) else Inr called))))"

section \<open>EthOnNearProverContract\<close>

definition prover_borshSchema :: "hexlib \<Rightarrow> borsh_schema" where
  "prover_borshSchema H = map_of [
     (''initInput'', SStruct [(''bridge_smart_contract'', FName ''string'')]),
     (''assertEthbridgeHashInput'', SStruct [
        (''block_number'', FName ''u64''),
        (''expected_block_hash'', FName ''H256'')]),
     (''H256'', SFunction (hexToBuffer H) (readerToHex H 32)),
     (''verifyLogEntry'', SStruct [
        (''log_index'', FName ''u64''),
        (''log_entry_data'', FArray (FName ''u8'')),
        (''receipt_index'', FName ''u64''),
        (''receipt_data'', FArray (FName ''u8'')),
        (''header_data'', FArray (FName ''u8'')),
        (''proof'', FArray (FArray (FName ''u8''))),
        (''skip_bridge_call'', FName ''bool'')])]"

definition prover_changeMethods :: "method_descr list" where
  "prover_changeMethods = [
     \<lparr>methodName = ''verify_log_entry'', inputFieldType = Some (FName ''verifyLogEntry''),
      outputFieldType = Some (FName ''bool'')\<rparr>,
     \<lparr>methodName = ''init'', inputFieldType = Some (FName ''initInput''), outputFieldType = None\<rparr>,
     \<lparr>methodName = ''assert_ethbridge_hash'', inputFieldType = Some (FName ''assertEthbridgeHashInput''),
      outputFieldType = Some (FName ''bool'')\<rparr>]"

definition prover_maybeInitialize :: "string \<Rightarrow> nat option \<Rightarrow> (js_value \<Rightarrow> unit res) \<Rightarrow> string \<Rightarrow> unit res" where
  "prover_maybeInitialize accountId accessKey init ethClientAccId =
     res_bind (accessKeyInit accountId accessKey) (\<lambda>_.
     case init (JObj [(''bridge_smart_contract'', JStr ethClientAccId)]) of
       Inr _ \<Rightarrow> Inr ()
     | Inl (ProcessExit n) \<Rightarrow> Inl (ProcessExit n)
     | Inl e \<Rightarrow>
         if error_message e \<noteq> '''' \<and> js_includes (error_message e) ''The contract is already initialized''
         then Inr () else Inl e)"

section \<open>The schemas are codecs\<close>

definition client_values :: "hexlib \<Rightarrow> string \<Rightarrow> js_value \<Rightarrow> bool" where
  "client_values H t = (if t = ''H128'' then hex_hash H 16 else if t = ''H256'' then hex_hash H 32
     else if t = ''H512'' then hex_hash H 64 else (\<lambda>_. False))"

lemma never_codec: "codec enc dec view (\<lambda>_. False)"
  by unfold_locales auto

interpretation client_schema: schema_codecs "client_borshSchema H" "client_values H" for H
proof (rule schema_codecs.intro)
  fix t ser deser
  assume "client_borshSchema H t = Some (SFunction ser deser)"
  then consider "t = ''bool''" | "t = ''H128''" "ser = hexToBuffer H" "deser = readerToHex H 16"
    | "t = ''H256''" "ser = hexToBuffer H" "deser = readerToHex H 32"
    | "t = ''H512''" "ser = hexToBuffer H" "deser = readerToHex H 64"
    by (auto simp: client_borshSchema_def split: if_splits)
  then show "codec ser deser id (client_values H t)"
  proof cases
    case 1
    then show ?thesis using never_codec by (simp add: client_values_def)
  qed (simp_all add: client_values_def h128.codec_axioms h256.codec_axioms h512.codec_axioms)
qed

interpretation prover_schema: schema_codecs "prover_borshSchema H" "client_values H" for H
proof (rule schema_codecs.intro)
  fix t ser deser
  assume "prover_borshSchema H t = Some (SFunction ser deser)"
  then have "t = ''H256''" "ser = hexToBuffer H" "deser = readerToHex H 32"
    by (auto simp: prover_borshSchema_def split: if_splits)
  then show "codec ser deser id (client_values H t)"
    by (simp add: client_values_def h256.codec_axioms)
qed


text \<open>
  The same for the schema of the prover contract, with which the proof of an event
  (\<^verbatim>\<open>verifyLogEntry\<close>) is submitted.
\<close>

lemma prover_schema_roundtrip:
  assumes "writer_ok W" "typed d (prover_borshSchema H) (client_values H) ty v" "d \<le> e"
  shows "\<exists>bs. serialize e W (prover_borshSchema H) (Some ty) v = Inr bs
    \<and> deserialize e (prover_borshSchema H) (Some ty) bs = Inr v"
  using prover_schema.serialize_roundtrip assms .

text \<open>A writer that keeps the Borsh format, and the hexadecimal conversions, for concrete runs.\<close>

fun demo_uint :: "nat \<Rightarrow> js_value \<Rightarrow> bytes option" where
  "demo_uint k (JInt n) = (if 0 \<le> n \<and> n < 256 ^ k then Some (le_bytes k (nat n)) else None)"
| "demo_uint k _ = None"

fun demo_fixed :: "js_value \<Rightarrow> bytes option" where
  "demo_fixed (JBytes bs) = Some bs"
| "demo_fixed _ = None"

fun demo_array :: "js_value \<Rightarrow> (js_value \<Rightarrow> bytes res) \<Rightarrow> bytes res" where
  "demo_array (JArr xs) f = buffer_concat (Inr (le_bytes 4 (length xs)) # map f xs)"
| "demo_array (JBytes bs) f = buffer_concat (Inr (le_bytes 4 (length bs)) # map (\<lambda>b. f (JInt (int (unat b)))) bs)"
| "demo_array _ f = Inl JsTypeError"

definition demo_writer :: writer where
  "demo_writer = \<lparr>write_u8 = demo_uint 1, write_u64 = demo_uint 8, write_u128 = demo_uint 16,
     write_string = (\<lambda>_. None), write_fixed_array = demo_fixed, write_array = demo_array\<rparr>"

lemma demo_writer_ok: "writer_ok demo_writer"
  by (auto simp: writer_ok_def demo_writer_def comp_def)

fun hex_value :: "char \<Rightarrow> nat option" where
  "hex_value ch = (let n = of_char ch in
     if 48 \<le> n \<and> n \<le> 57 then Some (n - 48)
     else if 97 \<le> n \<and> n \<le> 102 then Some (n - 87) else None)"

fun hex_pairs :: "string \<Rightarrow> bytes option" where
  "hex_pairs [] = Some []"
| "hex_pairs [a] = None"
| "hex_pairs (a # b # r) = (case (hex_value a, hex_value b, hex_pairs r) of
     (Some m, Some n, Some bs) \<Rightarrow> Some (word_of_nat (16 * m + n) # bs) | _ \<Rightarrow> None)"

definition hex_digit :: "nat \<Rightarrow> char" where
  "hex_digit n = ''0123456789abcdef'' ! n"

definition demo_hexlib :: hexlib where
  "demo_hexlib = \<lparr>hexToBytes = (\<lambda>v. case v of JStr (a # b # r) \<Rightarrow> if a = CHR ''0'' \<and> b = CHR ''x'' then hex_pairs r else None
       | _ \<Rightarrow> None),
     bytesToHex = (\<lambda>bs. ''0x'' @ concat (map (\<lambda>b. [hex_digit (unat b div 16), hex_digit (unat b mod 16)]) bs))\<rparr>"

definition demo_eth_header :: js_value where
  "demo_eth_header = JObj [(''block_header'', JArr [JInt 249, JInt 2]),
     (''dag_nodes'', JArr [JObj [(''dag_nodes'', JArr []),
        (''proof'', JArr [JStr ''0x55b891e842e58f58956a847cbbf67821''])]])]"


definition demo_log_entry :: js_value where
  "demo_log_entry = JObj [(''log_index'', JInt 1), (''log_entry_data'', JArr [JInt 7]), (''receipt_index'', JInt 3),
     (''receipt_data'', JArr []), (''header_data'', JArr [JInt 249]), (''proof'', JArr [JArr [JInt 1, JInt 2]]),
     (''skip_bridge_call'', JBool False)]"

section \<open>Calling the contracts\<close>

text \<open>
  A view method of the client gives the caller what the contract answered: if one of the first ten
  requests is answered, with the encoding of a value of the method's result type, and the earlier
  ones fail, then the method returns that value.
\<close>

lemma view_method_reads:
  assumes "writer_ok W" "outputFieldType m = Some ty"
    and "serialize e W (client_borshSchema H) (inputFieldType m) args = Inr a"
    and "typed d (client_borshSchema H) (client_values H) ty v" "d \<le> e"
    and "serialize e W (client_borshSchema H) (Some ty) v = Inr bs" "bs \<noteq> []"
    and "\<forall>j<k. isl (query a j)" "k < 10" "query a k = Inr (Some bs)"
  shows "view_method e W (client_borshSchema H) m args query = Inr v"
proof -
  have "deserialize e (client_borshSchema H) (Some ty) bs = Inr v"
    using client_schema.serialize_roundtrip [OF assms(1,4,5)] assms(6) by auto
  moreover have "fst (backoff 10 (query a) DELAY BACKOFF 0) = Inr (Some bs)"
    using backoff_decided [of k "query a" 10 DELAY BACKOFF] assms(8-10) by simp
  ultimately show ?thesis
    using assms(2,3,7) by (cases bs) (simp_all add: view_method_def)
qed

definition demo_query :: "bytes \<Rightarrow> nat \<Rightarrow> string + bytes option" where
  "demo_query a i = (if i < 2 then Inl ''502'' else Inr (Some (le_bytes 8 12000000)))"

lemma getEthBlock_loop_nulls:
  "\<forall>j<k. node (i + j) = Inr None \<Longrightarrow> k \<le> n \<Longrightarrow>
   getEthBlock_loop node i n None = getEthBlock_loop node (i + k) (n - k) None"
proof (induction k arbitrary: i n)
  case (Suc k)
  then obtain n' where n: "n = Suc n'" by (cases n) auto
  have "node i = Inr None" using Suc.prems(1) by (metis add_0_right zero_less_Suc)
  moreover have "\<forall>j<k. node (Suc i + j) = Inr None" using Suc.prems(1) by auto
  ultimately show ?case
    using Suc.IH [of "Suc i" n'] Suc.prems(2) n by simp
qed simp

text \<open>
  \<^verbatim>\<open>getEthBlock\<close> waits for a block the node does not have yet: it answers with the first block the node
  returns after at most nine \<^verbatim>\<open>null\<close> answers, passes the first failed request on to the caller at once,
  and gives \<^verbatim>\<open>null\<close> after ten \<^verbatim>\<open>null\<close> answers.
\<close>

lemma getEthBlock_waits:
  assumes "\<forall>j<k. node j = Inr None" "k < 10 \<and> node k \<noteq> Inr None \<or> k = 10"
  shows "getEthBlock node = (if k = 10 then Inr None else node k)"
proof (cases "k = 10")
  case False
  then obtain m where m: "10 - k = Suc m" using assms(2) by (cases "10 - k") auto
  have "getEthBlock node = getEthBlock_loop node k (Suc m) None"
    using getEthBlock_loop_nulls [of k node 0 10] assms m by (simp add: getEthBlock_def)
  then show ?thesis
    using False assms(2) by (auto split: sum.splits option.splits)
qed (use getEthBlock_loop_nulls [of 10 node 0 10] assms in \<open>simp add: getEthBlock_def\<close>)

section \<open>Initializing the client contract\<close>

text \<open>
  \<^verbatim>\<open>maybeInitialize\<close> of the client succeeds only on a contract with the right DAG roots: when it
  returns, the roots of epochs 0 and 511 that the contract reports are the expected ones; \<^verbatim>\<open>init\<close> was
  called exactly when the contract did not answer that it is initialized, and then it was called
  with the RLP of the header of the block the node reported as the latest.
\<close>

lemma client_maybeInitialize_checked:
  assumes "client_maybeInitialize rlp E hashesGc finalizedGc numConf validateEthash trustedSigner bridgeId = Inr called"
  shows "ce_dag_merkle_root E (JObj [(''epoch'', JInt 0)]) = Inr (JStr ''0x55b891e842e58f58956a847cbbf67821'')
    \<and> ce_dag_merkle_root E (JObj [(''epoch'', JInt 511)]) = Inr (JStr ''0x7a9010568819de327a24fa495029adcb'')
    \<and> (called = None \<longleftrightarrow> (\<exists>v. ce_initialized E = Inr v \<and> truthy v))
    \<and> (\<forall>args. called = Some args \<longrightarrow> (\<exists>n b blockRlp.
        ce_blockNumber E = Inr n \<and> ce_getEthBlock E n = Inr (Some b)
        \<and> rlp (if bridgeId = Some ''testnet'' then ''ropsten'' else ''mainnet'') (eb_baseFeePerGas b \<noteq> None) b = Some blockRlp
        \<and> args = init_args validateEthash (ce_roots E) blockRlp hashesGc finalizedGc numConf trustedSigner
        \<and> ce_init E args 300000000000000 = Inr ()))"
  using assms
  by (auto simp: client_maybeInitialize_def client_init_def web3BlockToRlp_def of_lib_def Let_def
      res_bind_eq_Inr_iff split: if_splits sum.splits option.splits)

definition demo_client_env :: client_env where
  "demo_client_env = \<lparr>ce_accountId = ''relay'', ce_accessKey = Some 1, ce_initialized = Inl JsTypeError,
     ce_blockNumber = Inr 7,
     ce_getEthBlock = (\<lambda>n. Inr (Some \<lparr>eb_hash = ''0xaa'', eb_baseFeePerGas = Some ''0x7'', eb_fields = []\<rparr>)),
     ce_init = (\<lambda>a g. Inr ()),
     ce_dag_merkle_root = (\<lambda>a. Inr (JStr (if a = JObj [(''epoch'', JInt 0)]
        then ''0x55b891e842e58f58956a847cbbf67821'' else ''0x7a9010568819de327a24fa495029adcb''))),
     ce_roots = []\<rparr>"

end
