(* ===== verification/Eth2Near_Relay.thy ===== *)
theory Eth2Near_Relay
  imports Search_Estimate Eth_On_Near
begin

text \<open>
  The Ethereum-to-NEAR relay, class \<^verbatim>\<open>Eth2NearRelay\<close> of \<^verbatim>\<open>eth2near-block-relay/index.js\<close>: it reads
  the head of the client contract, steps back to the last block that is also on the main chain,
  and submits the blocks that follow in one transaction.

  One round of the endless loop of \<^verbatim>\<open>run\<close> is \<open>relay_round\<close>; what the two chains answer during the
  round is the record \<open>relay_env\<close>. The DAG prover \<^verbatim>\<open>ethashproof\<close> is a separate program and enters as
  a function from the RLP of a header to its JSON output.
\<close>

section \<open>parseInt\<close>

definition is_space :: "char \<Rightarrow> bool" where
  "is_space ch \<longleftrightarrow> (let n = of_char ch :: nat in n = 32 \<or> (9 \<le> n \<and> n \<le> 13) \<or> n = 160)"

definition digit_in :: "nat \<Rightarrow> char \<Rightarrow> nat option" where
  "digit_in base ch = (let n = of_char ch :: nat;
       d = (if 48 \<le> n \<and> n \<le> 57 then n - 48 else if 97 \<le> n \<and> n \<le> 122 then n - 87
            else if 65 \<le> n \<and> n \<le> 90 then n - 55 else 36)
     in if d < base then Some d else None)"

fun digits_prefix :: "nat \<Rightarrow> string \<Rightarrow> nat list" where
  "digits_prefix base [] = []"
| "digits_prefix base (c # s) = (case digit_in base c of None \<Rightarrow> [] | Some d \<Rightarrow> d # digits_prefix base s)"

definition parse_digits :: "nat \<Rightarrow> string \<Rightarrow> int option" where
  "parse_digits base s = (case digits_prefix base s of [] \<Rightarrow> None
     | ds \<Rightarrow> Some (int (foldl (\<lambda>n d. base * n + d) 0 ds)))"

definition parse_unsigned :: "string \<Rightarrow> int option" where
  "parse_unsigned s = (if startsWith s ''0x'' \<or> startsWith s ''0X'' then parse_digits 16 (drop 2 s) else parse_digits 10 s)"

text \<open>\<^verbatim>\<open>parseInt(s)\<close>; \<open>None\<close> is \<^verbatim>\<open>NaN\<close>.\<close>

definition parseInt :: "string \<Rightarrow> int option" where
  "parseInt s = (case dropWhile is_space s of
     [] \<Rightarrow> None
   | c # r \<Rightarrow> if c = CHR ''-'' then map_option uminus (parse_unsigned r)
       else if c = CHR ''+'' then parse_unsigned r else parse_unsigned (c # r))"

section \<open>initialize\<close>

definition MAX_GAS_PER_BLOCK :: nat where "MAX_GAS_PER_BLOCK = 300000000000000"

record relay =
  rl_gasPerTransaction :: nat
  rl_totalSubmitBlock :: int
  rl_bridgeId :: string

definition relay_initialize :: "nat \<Rightarrow> string \<Rightarrow> string \<Rightarrow> relay res" where
  "relay_initialize gasPerTransaction totalSubmitBlock nearNetworkId =
     (if gasPerTransaction = 0 then Inl (LibraryError ''bn.js'')
      else (let limitSubmitBlock = MAX_GAS_PER_BLOCK div gasPerTransaction in
        case parseInt totalSubmitBlock of
          None \<Rightarrow> Inl (JsError (''Invalid total-submit-block ('' @ totalSubmitBlock @ '')''))
        | Some tsb \<Rightarrow>
            if tsb > int limitSubmitBlock then Inl (JsError ''total-submit-block must be less'')
            else Inr \<lparr>rl_gasPerTransaction = gasPerTransaction, rl_totalSubmitBlock = tsb,
                   rl_bridgeId = nearNetworkId\<rparr>))"

section \<open>The predicate of the search\<close>

text \<open>
  One attempt asks the node for the block and the contract for the hashes it knows at that
  height. Every failure leads to another attempt; \<open>None\<close> says that \<open>fuel\<close> attempts were not enough.
\<close>

type_synonym attempt = "(string + eth_block option) \<times> string list res"

fun predicate :: "nat \<Rightarrow> (nat \<Rightarrow> attempt) \<Rightarrow> nat \<Rightarrow> bool option" where
  "predicate 0 att i = None"
| "predicate (Suc fuel) att i = (case att i of (block, hashes) \<Rightarrow>
     (case block of
        Inl e \<Rightarrow> predicate fuel att (Suc i)
      | Inr None \<Rightarrow> predicate fuel att (Suc i)
      | Inr (Some chainBlock) \<Rightarrow>
          (case hashes of
             Inl e \<Rightarrow> predicate fuel att (Suc i)
           | Inr clientHashes \<Rightarrow>
               Some (case find (\<lambda>x. x = eb_hash chainBlock) clientHashes of
                 Some h \<Rightarrow> h \<noteq> '''' | None \<Rightarrow> False))))"

section \<open>Blocks and their DAG proofs\<close>

record dag_block =
  header_rlp :: string
  elements :: "string list"
  merkle_proofs :: "string list"
  proof_length :: nat

record relay_lib =
  lib_hex :: hexlib
  lib_padLeft :: "string \<Rightarrow> nat \<Rightarrow> string"
  lib_rlp :: "string \<Rightarrow> bool \<Rightarrow> eth_block \<Rightarrow> bytes option"
  lib_ethashproof :: "string \<Rightarrow> dag_block option"
  lib_writer :: writer

text \<open>
  \<^verbatim>\<open>getParseBlock\<close> catches every exception and then returns \<^verbatim>\<open>undefined\<close>. It calls
  \<^verbatim>\<open>web3BlockToRlp\<close> without the bridge id.
\<close>

definition getParseBlock :: "relay_lib \<Rightarrow> (nat \<Rightarrow> string + eth_block option) \<Rightarrow> dag_block option" where
  "getParseBlock L node = (case getEthBlock node of
     Inl e \<Rightarrow> None
   | Inr block \<Rightarrow> (case web3BlockToRlp (lib_rlp L) block None of
       Inl e \<Rightarrow> None
     | Inr rlp \<Rightarrow> lib_ethashproof L (bytesToHex (lib_hex L) rlp)))"

text \<open>\<^verbatim>\<open>xs.filter((_, index) => index % 2 === 0)\<close>\<close>

fun evens :: "'a list \<Rightarrow> 'a list" where
  "evens [] = []"
| "evens [x] = [x]"
| "evens (x # y # r) = x # evens r"

definition h512s :: "relay_lib \<Rightarrow> dag_block \<Rightarrow> string list res" where
  "h512s L block = res_list (map (\<lambda>(element, index).
     if index * 2 + 1 < length (elements block)
     then Inr (lib_padLeft L element 64 @ drop 2 (lib_padLeft L (elements block ! (index * 2 + 1)) 64))
     else Inl JsTypeError) (zip (evens (elements block)) [0..<length (evens (elements block))]))"

definition slice :: "'a list \<Rightarrow> nat \<Rightarrow> nat \<Rightarrow> 'a list" where
  "slice xs i j = take (j - i) (drop i xs)"

definition dag_nodes_arg :: "relay_lib \<Rightarrow> dag_block \<Rightarrow> string list \<Rightarrow> js_value" where
  "dag_nodes_arg L block hs = JArr (map (\<lambda>(element, index). JObj [
     (''dag_nodes'', JArr [JStr element,
        if index * 2 + 1 < length hs then JStr (hs ! (index * 2 + 1)) else JUndefined]),
     (''proof'', JArr (map (\<lambda>leaf. JStr (lib_padLeft L leaf 32))
        (slice (merkle_proofs block) (index * proof_length block) ((index + 1) * proof_length block))))])
     (zip (evens hs) [0..<length (evens hs)]))"

definition header_args :: "relay_lib \<Rightarrow> dag_block \<Rightarrow> js_value res" where
  "header_args L block = res_bind (h512s L block) (\<lambda>hs.
     res_bind (of_lib ''web3'' (hexToBytes (lib_hex L) (JStr (header_rlp block)))) (\<lambda>header.
       Inr (JObj [(''block_header'', JArr (map (\<lambda>b. JInt (int (unat b))) header)),
                  (''dag_nodes'', dag_nodes_arg L block hs)])))"

definition submitBlock :: "nat \<Rightarrow> relay_lib \<Rightarrow> relay \<Rightarrow> dag_block option \<Rightarrow> near_action res" where
  "submitBlock depth L R blk = (case blk of
     None \<Rightarrow> Inl JsTypeError
   | Some block \<Rightarrow> res_bind (header_args L block) (\<lambda>args.
       res_bind (serialize depth (lib_writer L) (client_borshSchema (lib_hex L)) (Some (FName ''addBlockHeaderInput'')) args)
         (\<lambda>bs. Inr \<lparr>na_method = ''add_block_header'', na_args = bs,
            na_gas = rl_gasPerTransaction R, na_amount = 0\<rparr>)))"

section \<open>run\<close>

text \<open>
  What one round sees: the two heads, the outcomes of the predicate's attempts by position, the
  node's answers for a block number, and whether the batch transaction succeeds.
\<close>

record relay_env =
  re_clientHead :: "int res"
  re_chainHead :: "int res"
  re_attempts :: "int \<Rightarrow> nat \<Rightarrow> attempt"
  re_node :: "int \<Rightarrow> nat \<Rightarrow> string + eth_block option"
  re_send :: "near_action list \<Rightarrow> unit res"

datatype round_result =
    HeadsFailed
  | Slept
  | Submitted "int list" "near_action list"
  | SubmitFailed js_error

definition end_block :: "relay \<Rightarrow> int \<Rightarrow> int \<Rightarrow> int" where
  "end_block R clientBlockNumber chainBlockNumber =
     (if clientBlockNumber < 5 then clientBlockNumber + 1
      else min (clientBlockNumber + rl_totalSubmitBlock R) chainBlockNumber)"

definition submit_blocks :: "nat \<Rightarrow> relay_lib \<Rightarrow> relay \<Rightarrow> relay_env \<Rightarrow> int \<Rightarrow> int \<Rightarrow> round_result" where
  "submit_blocks depth L R E clientBlockNumber chainBlockNumber =
     (let numbers = [clientBlockNumber + 1..end_block R clientBlockNumber chainBlockNumber];
          blocks = map (\<lambda>i. getParseBlock L (re_node E i)) numbers
      in case res_list (map (submitBlock depth L R) blocks) of
           Inl e \<Rightarrow> SubmitFailed e
         | Inr actions \<Rightarrow> (case re_send E actions of
             Inl e \<Rightarrow> SubmitFailed e
           | Inr _ \<Rightarrow> Submitted numbers actions))"

definition common_ancestor :: "nat \<Rightarrow> relay \<Rightarrow> relay_env \<Rightarrow> int option \<Rightarrow> int \<Rightarrow> int" where
  "common_ancestor fuel R E previousBlockNumber clientBlockNumber =
     (let estimated = (case previousBlockNumber of
            None \<Rightarrow> 0 | Some p \<Rightarrow> clientBlockNumber - (p + rl_totalSubmitBlock R));
          delta = fst (binarySearchWithEstimate 0 clientBlockNumber estimated
            (\<lambda>v. predicate fuel (re_attempts E v) 0 = Some True))
      in clientBlockNumber - delta)"

text \<open>The state of the loop is \<^verbatim>\<open>previousBlockNumber\<close>, \<open>None\<close> when it is undefined.\<close>

definition relay_round :: "nat \<Rightarrow> nat \<Rightarrow> relay_lib \<Rightarrow> relay \<Rightarrow> relay_env \<Rightarrow> int option \<Rightarrow> int option \<times> round_result" where
  "relay_round fuel depth L R E previousBlockNumber = (case re_clientHead E of
     Inl e \<Rightarrow> (previousBlockNumber, HeadsFailed)
   | Inr clientHead \<Rightarrow> (case re_chainHead E of
       Inl e \<Rightarrow> (previousBlockNumber, HeadsFailed)
     | Inr chainBlockNumber \<Rightarrow>
         (let clientBlockNumber = common_ancestor fuel R E previousBlockNumber clientHead in
          if clientBlockNumber < chainBlockNumber
          then (Some clientBlockNumber, submit_blocks depth L R E clientBlockNumber chainBlockNumber)
          else (Some clientBlockNumber, Slept))))"

text \<open>The rounds of \<^verbatim>\<open>run\<close>, one environment each; the metric counts the failed submissions.\<close>

fun relay_run :: "nat \<Rightarrow> nat \<Rightarrow> relay_lib \<Rightarrow> relay \<Rightarrow> relay_env list \<Rightarrow> int option \<times> nat
    \<Rightarrow> round_result list \<times> int option \<times> nat" where
  "relay_run fuel depth L R [] st = ([], st)"
| "relay_run fuel depth L R (E # Es) st = (case st of (prev, errors) \<Rightarrow>
     (let (prev', r) = relay_round fuel depth L R E prev;
          errors' = (case r of SubmitFailed _ \<Rightarrow> Suc errors | _ \<Rightarrow> errors);
          (rs, st') = relay_run fuel depth L R Es (prev', errors')
      in (r # rs, st')))"

section \<open>What initialize accepts\<close>

lemma relay_initialize_Inr:
  assumes "relay_initialize gas totalStr net = Inr R"
  shows "rl_gasPerTransaction R = gas \<and> parseInt totalStr = Some (rl_totalSubmitBlock R)
    \<and> rl_totalSubmitBlock R * int gas \<le> int MAX_GAS_PER_BLOCK"
proof -
  have R: "0 < gas" "rl_gasPerTransaction R = gas" "parseInt totalStr = Some (rl_totalSubmitBlock R)"
    "rl_totalSubmitBlock R \<le> int (MAX_GAS_PER_BLOCK div gas)"
    using assms by (auto simp: relay_initialize_def Let_def split: if_splits option.splits)
  have "rl_totalSubmitBlock R * int gas \<le> int (MAX_GAS_PER_BLOCK div gas) * int gas"
    using R(1,4) by (simp add: mult_right_mono)
  also have "\<dots> \<le> int MAX_GAS_PER_BLOCK"
    by (metis of_nat_mult of_nat_mono div_times_less_eq_dividend)
  finally show ?thesis using R by simp
qed

section \<open>The search predicate\<close>

text \<open>An attempt is complete when both requests were answered and the block was there.\<close>

fun complete_attempt :: "attempt \<Rightarrow> bool" where
  "complete_attempt (Inr (Some b), Inr hs) = True"
| "complete_attempt _ = False"

lemma predicate_skip:
  "\<not> complete_attempt (att i) \<Longrightarrow> predicate (Suc fuel) att i = predicate fuel att (Suc i)"
  by (cases "att i" rule: complete_attempt.cases) (auto split: sum.splits option.splits)

lemma find_hash: "find (\<lambda>x. x = h) hs = (if h \<in> set hs then Some h else None)"
  by (induction hs) auto

text \<open>
  The search predicate of the relay retries until it knows: after any number of incomplete attempts
  (failed requests, blocks that are not there yet) the first complete one decides, and the answer is
  whether the client contract knows the hash the main chain has at that height.
\<close>

lemma predicate_first_complete:
  assumes "\<forall>j<k. \<not> complete_attempt (att j)" "att k = (Inr (Some b), Inr hs)" "eb_hash b \<noteq> ''''" "k < fuel"
  shows "predicate fuel att 0 = Some (eb_hash b \<in> set hs)"
proof -
  have "predicate (k + Suc n) att i = predicate (Suc n) att (i + k)"
    if "\<forall>j<k. \<not> complete_attempt (att (i + j))" for n i k
    using that
  proof (induction k arbitrary: i)
    case (Suc k)
    have "\<not> complete_attempt (att i)" using Suc.prems by (metis add_0_right zero_less_Suc)
    moreover have "\<forall>j<k. \<not> complete_attempt (att (Suc i + j))" using Suc.prems by auto
    ultimately show ?case using Suc.IH [of "Suc i"] predicate_skip [of att i "k + Suc n"] by simp
  qed simp
  from this [of k 0 "fuel - Suc k"] assms show ?thesis
    by (auto simp: find_hash)
qed

definition demo_attempts :: "nat \<Rightarrow> attempt" where
  "demo_attempts i = (if i = 0 then (Inl ''ECONNRESET'', Inr []) else if i = 1 then (Inr None, Inr [])
     else (Inr (Some \<lparr>eb_hash = ''0xab'', eb_baseFeePerGas = None, eb_fields = []\<rparr>), Inr [''0xaa'', ''0xab'']))"

section \<open>The block the relay continues from\<close>

text \<open>A relay and a round in which the chains agree on all but the last five blocks of the contract.\<close>

definition demo_relay :: relay where
  "demo_relay = \<lparr>rl_gasPerTransaction = 72000000000000, rl_totalSubmitBlock = 4, rl_bridgeId = ''testnet''\<rparr>"

definition demo_env :: relay_env where
  "demo_env = \<lparr>re_clientHead = Inr 100, re_chainHead = Inr 101,
     re_attempts = (\<lambda>v i. (Inr (Some \<lparr>eb_hash = ''0xab'', eb_baseFeePerGas = None, eb_fields = []\<rparr>),
        Inr (if 5 \<le> v then [''0xab''] else []))),
     re_node = (\<lambda>n i. Inr (Some \<lparr>eb_hash = ''0xab'', eb_baseFeePerGas = None, eb_fields = []\<rparr>)),
     re_send = (\<lambda>acts. Inr ())\<rparr>"

abbreviation round_predicate :: "nat \<Rightarrow> relay_env \<Rightarrow> int \<Rightarrow> bool" where
  "round_predicate fuel E v \<equiv> predicate fuel (re_attempts E v) 0 = Some True"



section \<open>The batch of a round\<close>

lemma submitBlock_gas: "submitBlock depth L R blk = Inr a \<Longrightarrow> na_gas a = rl_gasPerTransaction R"
  by (auto simp: submitBlock_def res_bind_eq_Inr_iff split: option.splits)

lemma submit_blocks_Submitted:
  assumes "submit_blocks depth L R E c h = Submitted numbers actions"
  shows "numbers = [c + 1..end_block R c h]"
    and "map Inr actions = map (\<lambda>i. submitBlock depth L R (getParseBlock L (re_node E i))) numbers"
    and "re_send E actions = Inr ()"
  using assms by (auto simp: submit_blocks_def Let_def res_list_Inr_iff comp_def split: sum.splits)

lemma submit_blocks_gas:
  assumes "submit_blocks depth L R E c h = Submitted numbers actions"
  shows "sum_list (map na_gas actions) = length numbers * rl_gasPerTransaction R"
proof -
  note eq = submit_blocks_Submitted(2) [OF assms]
  have len: "length actions = length numbers" using arg_cong [OF eq, of length] by simp
  have "na_gas a = rl_gasPerTransaction R" if "a \<in> set actions" for a
  proof -
    have "Inr a \<in> set (map (\<lambda>i. submitBlock depth L R (getParseBlock L (re_node E i))) numbers)"
      unfolding eq [symmetric] using that by simp
    then obtain i where "submitBlock depth L R (getParseBlock L (re_node E i)) = Inr a" by auto
    then show ?thesis by (rule submitBlock_gas)
  qed
  then have "map na_gas actions = replicate (length actions) (rl_gasPerTransaction R)"
    by (auto intro: nth_equalityI simp: replicate_length_same [symmetric])
  then show ?thesis using len by (simp add: sum_list_replicate)
qed

text \<open>
  C13. A round submits the next blocks and no more than fit: for a relay that \<^verbatim>\<open>initialize\<close> accepted with at
  least one block per batch, the blocks of a successful submission are consecutive, start right after
  the block the round continues from, do not pass the head of the main chain, and are at most as many
  as configured; each action is the \<^verbatim>\<open>add_block_header\<close> of its block, in that order, and the gas of the
  batch is within \<^verbatim>\<open>MAX_GAS_PER_BLOCK\<close>.
\<close>

theorem relay_round_batch:
  assumes "relay_initialize gas totalStr net = Inr R" "1 \<le> rl_totalSubmitBlock R"
    and "relay_round fuel depth L R E prev = (prev', Submitted numbers actions)"
  shows "\<exists>c h base. re_clientHead E = Inr c \<and> re_chainHead E = Inr h
    \<and> base = common_ancestor fuel R E prev c \<and> prev' = Some base
    \<and> numbers = [base + 1..base + int (length numbers)] \<and> numbers \<noteq> [] \<and> last numbers \<le> h
    \<and> int (length numbers) \<le> rl_totalSubmitBlock R
    \<and> map Inr actions = map (\<lambda>i. submitBlock depth L R (getParseBlock L (re_node E i))) numbers
    \<and> sum_list (map na_gas actions) \<le> MAX_GAS_PER_BLOCK"
proof -
  from assms(3) obtain c h where heads: "re_clientHead E = Inr c" "re_chainHead E = Inr h"
    by (auto simp: relay_round_def split: sum.splits)
  define base where "base = common_ancestor fuel R E prev c"
  have base: "prev' = Some base" "base < h" "submit_blocks depth L R E base h = Submitted numbers actions"
    using assms(3) heads by (auto simp: relay_round_def base_def Let_def split: if_splits)
  note sub = submit_blocks_Submitted [OF base(3)]
  have eb: "base + 1 \<le> end_block R base h" "end_block R base h \<le> h"
    "end_block R base h \<le> base + rl_totalSubmitBlock R"
    using base(2) assms(2) by (auto simp: end_block_def)
  have len: "int (length numbers) = end_block R base h - base" using eb(1) by (simp add: sub(1))
  have "last numbers = end_block R base h"
    using eb(1) unfolding sub(1) by (simp add: upto_rec2)
  moreover have "sum_list (map na_gas actions) \<le> MAX_GAS_PER_BLOCK"
  proof -
    have "int (sum_list (map na_gas actions)) \<le> rl_totalSubmitBlock R * int gas"
      using relay_initialize_Inr [OF assms(1)] eb(3) len
      unfolding submit_blocks_gas [OF base(3)] by (simp add: mult_right_mono)
    then show ?thesis using relay_initialize_Inr [OF assms(1)] by linarith
  qed
  ultimately show ?thesis
    using heads base(1) base_def sub(1,2) eb len by (intro exI [of _ c] exI [of _ h] exI [of _ base]) auto
qed

section \<open>The arguments of add_block_header\<close>

lemma evens_pairs: "length xs = 2 * n \<Longrightarrow> evens xs = map (\<lambda>i. xs ! (2 * i)) [0..<n]"
proof (induction xs arbitrary: n rule: evens.induct)
  case (3 x y r)
  then obtain m where n: "n = Suc m" by (cases n) auto
  with 3 have "evens r = map (\<lambda>i. r ! (2 * i)) [0..<m]" by simp
  then show ?case
    by (simp add: n map_upt_Suc del: upt_Suc)
qed auto

lemma concat_slices: "length xs = n * l \<Longrightarrow> concat (map (\<lambda>i. slice xs (i * l) ((i + 1) * l)) [0..<n]) = xs"
proof (induction n arbitrary: xs)
  case (Suc n)
  have "concat (map (\<lambda>i. slice (take (n * l) xs) (i * l) ((i + 1) * l)) [0..<n]) = take (n * l) xs"
    using Suc.prems by (intro Suc.IH) simp
  moreover have "slice (take (n * l) xs) (i * l) ((i + 1) * l) = slice xs (i * l) ((i + 1) * l)" if "i < n" for i
  proof -
    have "i * l + l \<le> n * l" using that by (metis Suc_leI add.commute mult_Suc mult_le_mono1)
    then show ?thesis by (simp add: slice_def drop_take min_def)
  qed
  ultimately have "concat (map (\<lambda>i. slice xs (i * l) ((i + 1) * l)) [0..<n]) = take (n * l) xs"
    by (metis (no_types, lifting) atLeast0LessThan atLeastLessThan_upt lessThan_iff map_cong)
  moreover have "slice xs (n * l) ((n + 1) * l) = drop (n * l) xs"
    using Suc.prems by (simp add: slice_def)
  ultimately show ?case by simp
qed simp

lemma zip_upt: "length xs = n \<Longrightarrow> zip xs [0..<n] = map (\<lambda>i. (xs ! i, i)) [0..<n]"
  by (rule nth_equalityI) simp_all

lemma h512s_pairs:
  assumes "length (elements block) = 2 * n"
  shows "h512s L block = Inr (map (\<lambda>i. lib_padLeft L (elements block ! (2 * i)) 64 @
      drop 2 (lib_padLeft L (elements block ! (2 * i + 1)) 64)) [0..<n])"
proof -
  have ev: "evens (elements block) = map (\<lambda>i. elements block ! (2 * i)) [0..<n]"
    by (rule evens_pairs [OF assms])
  have "map (\<lambda>(element, index). if index * 2 + 1 < length (elements block)
      then Inr (lib_padLeft L element 64 @ drop 2 (lib_padLeft L (elements block ! (index * 2 + 1)) 64))
      else Inl JsTypeError) (zip (evens (elements block)) [0..<length (evens (elements block))])
    = map Inr (map (\<lambda>i. lib_padLeft L (elements block ! (2 * i)) 64 @
        drop 2 (lib_padLeft L (elements block ! (2 * i + 1)) 64)) [0..<n])"
    unfolding ev by (auto simp: zip_upt assms mult.commute)
  then show ?thesis unfolding h512s_def by (simp only: res_list_map_Inr)
qed

text \<open>The nodes and the proof of one entry of the \<^verbatim>\<open>dag_nodes\<close> argument.\<close>

fun entry_nodes :: "js_value \<Rightarrow> js_value list" where
  "entry_nodes (JObj [(a, JArr ns), (b, p)]) = ns"
| "entry_nodes _ = []"

fun entry_proof :: "js_value \<Rightarrow> js_value list" where
  "entry_proof (JObj [(a, ns), (b, JArr ps)]) = ps"
| "entry_proof _ = []"

text \<open>
  \<^verbatim>\<open>submitBlock\<close> hands the whole DAG proof over, in order: for a block with four elements per proof and
  \<open>proof_length\<close> leaves per proof, the \<open>n\<close> entries of \<^verbatim>\<open>dag_nodes\<close> have two nodes each; their nodes in
  sequence are all the elements joined in pairs, and their proofs in sequence are all the leaves of
  the Merkle proofs, each padded.
\<close>

lemma header_args_complete:
  assumes "length (elements block) = 4 * n" "length (merkle_proofs block) = n * proof_length block"
    and "hexToBytes (lib_hex L) (JStr (header_rlp block)) = Some header"
  shows "\<exists>entries. header_args L block = Inr (JObj [
        (''block_header'', JArr (map (\<lambda>b. JInt (int (unat b))) header)), (''dag_nodes'', JArr entries)])
    \<and> length entries = n \<and> (\<forall>x\<in>set entries. length (entry_nodes x) = 2)
    \<and> concat (map entry_nodes entries) = map (\<lambda>i. JStr (lib_padLeft L (elements block ! (2 * i)) 64 @
        drop 2 (lib_padLeft L (elements block ! (2 * i + 1)) 64))) [0..<2 * n]
    \<and> concat (map entry_proof entries) = map (\<lambda>leaf. JStr (lib_padLeft L leaf 32)) (merkle_proofs block)"
proof -
  define hs where "hs = map (\<lambda>i. lib_padLeft L (elements block ! (2 * i)) 64 @
      drop 2 (lib_padLeft L (elements block ! (2 * i + 1)) 64)) [0..<2 * n]"
  have h: "h512s L block = Inr hs" unfolding hs_def by (rule h512s_pairs) (simp add: assms(1))
  have len: "length hs = 2 * n" by (simp add: hs_def)
  have ev: "evens hs = map (\<lambda>i. hs ! (2 * i)) [0..<n]" by (rule evens_pairs [OF len])
  define entries where "entries = map (\<lambda>i. JObj [(''dag_nodes'', JArr [JStr (hs ! (2 * i)), JStr (hs ! (2 * i + 1))]),
      (''proof'', JArr (map (\<lambda>leaf. JStr (lib_padLeft L leaf 32))
        (slice (merkle_proofs block) (i * proof_length block) ((i + 1) * proof_length block))))]) [0..<n]"
  have "dag_nodes_arg L block hs = JArr entries"
    unfolding dag_nodes_arg_def ev entries_def by (auto simp: zip_upt len mult.commute)
  then have "header_args L block = Inr (JObj [(''block_header'', JArr (map (\<lambda>b. JInt (int (unat b))) header)),
      (''dag_nodes'', JArr entries)])"
    by (simp add: header_args_def h assms(3))
  moreover have "concat (map entry_nodes entries) = map JStr hs"
  proof -
    have pairs: "concat (map (\<lambda>i. [JStr (hs ! (2 * i)), JStr (hs ! (2 * i + 1))]) [0..<m])
        = map (\<lambda>i. JStr (hs ! i)) [0..<2 * m]" for m
      by (induction m) simp_all
    have "concat (map entry_nodes entries) = map (\<lambda>i. JStr (hs ! i)) [0..<length hs]"
      using pairs [of n] by (simp add: entries_def comp_def len)
    also have "\<dots> = map JStr (map ((!) hs) [0..<length hs])" by simp
    also have "\<dots> = map JStr hs" by (simp only: map_nth)
    finally show ?thesis .
  qed
  moreover have "concat (map entry_proof entries) = map (\<lambda>leaf. JStr (lib_padLeft L leaf 32)) (merkle_proofs block)"
  proof -
    have "concat (map entry_proof entries) = map (\<lambda>leaf. JStr (lib_padLeft L leaf 32))
        (concat (map (\<lambda>i. slice (merkle_proofs block) (i * proof_length block) ((i + 1) * proof_length block)) [0..<n]))"
      by (simp add: entries_def comp_def map_concat)
    then show ?thesis by (simp only: concat_slices [OF assms(2)])
  qed
  ultimately show ?thesis
    by (intro exI [of _ entries]) (auto simp: entries_def hs_def comp_def)
qed

text \<open>A library for concrete runs: it pads nothing, and the DAG prover returns a block without elements.\<close>

definition demo_relay_lib :: relay_lib where
  "demo_relay_lib = \<lparr>lib_hex = demo_hexlib, lib_padLeft = (\<lambda>s n. s), lib_rlp = (\<lambda>ch lon b. Some [1]),
     lib_ethashproof = (\<lambda>rlp. Some \<lparr>header_rlp = rlp, elements = [], merkle_proofs = [], proof_length = 0\<rparr>),
     lib_writer = demo_writer\<rparr>"

definition demo_dag_block :: dag_block where
  "demo_dag_block = \<lparr>header_rlp = ''0x01'', elements = [''0xa'', ''0xb'', ''0xc'', ''0xd''],
     merkle_proofs = [''0x1'', ''0x2''], proof_length = 2\<rparr>"

lemma getEthBlock_first: "node 0 = Inr (Some b) \<Longrightarrow> getEthBlock node = Inr (Some b)"
  by (simp add: getEthBlock_def numeral_eq_Suc)

theorem relay_round_batch_witness:
  "\<exists>actions. relay_round 1 (Suc (Suc (Suc 0))) demo_relay_lib demo_relay
      (demo_env\<lparr>re_attempts := (\<lambda>v i. (Inr (Some \<lparr>eb_hash = ''0xab'', eb_baseFeePerGas = None, eb_fields = []\<rparr>), Inr [''0xab'']))\<rparr>)
      None = (Some 100, Submitted [101] actions)
    \<and> sum_list (map na_gas actions) \<le> MAX_GAS_PER_BLOCK"
proof -
  let ?E = "demo_env\<lparr>re_attempts := (\<lambda>v i. (Inr (Some \<lparr>eb_hash = ''0xab'', eb_baseFeePerGas = None, eb_fields = []\<rparr>), Inr [''0xab'']))\<rparr>"
  have init: "relay_initialize 72000000000000 ''4'' ''testnet'' = Inr demo_relay"
    by (simp add: relay_initialize_def demo_relay_def parseInt_def is_space_def parse_unsigned_def parse_digits_def
        startsWith_def digit_in_def MAX_GAS_PER_BLOCK_def)
  have base: "common_ancestor 1 demo_relay ?E None 100 = 100"
    by (simp add: common_ancestor_def search_at_lower_limit)
  have "\<exists>a. submitBlock (Suc (Suc (Suc 0))) demo_relay_lib demo_relay (getParseBlock demo_relay_lib (re_node ?E 101)) = Inr a"
    by (simp add: submitBlock_def getParseBlock_def getEthBlock_first demo_env_def web3BlockToRlp_def
        demo_relay_lib_def header_args_def h512s_def dag_nodes_arg_def demo_hexlib_def hex_digit_def serialize_def
        client_borshSchema_def demo_writer_def)
  then obtain a where "submitBlock (Suc (Suc (Suc 0))) demo_relay_lib demo_relay (getParseBlock demo_relay_lib (re_node ?E 101)) = Inr a" ..
  then have "relay_round 1 (Suc (Suc (Suc 0))) demo_relay_lib demo_relay ?E None = (Some 100, Submitted [101] [a])"
    using base by (simp add: relay_round_def submit_blocks_def end_block_def demo_relay_def demo_env_def)
  from relay_round_batch [OF init _ this] this show ?thesis
    by (auto simp: demo_relay_def)
qed

end
