(* ===== verification/Near_Bridge.thy ===== *)
theory Near_Bridge
  imports Near_Decoder
begin

text \<open>
  The light client contract on Ethereum, \<^verbatim>\<open>contracts/eth/nearbridge/contracts/NearBridge.sol\<close> with the
  modifiers of \<^verbatim>\<open>AdminControlled.sol\<close>: the counterpart of the NEAR-to-Ethereum relay and of the watchdog.

  The storage is the record \<open>nearbridge\<close> (integers keep their width, mappings are functions, arrays of
  fixed size are lists, and \<open>nb_ether\<close> is the balance of the contract account); a transaction is the
  record \<open>eth_tx\<close>, whose field \<open>tx_accepts\<close> says whether the account that is paid accepts a transfer. A
  function of the contract returns the new storage or the revert. SHA-256 is the parameter \<open>sha\<close> and the
  call to the deployed Ed25519 contract the parameter \<open>edcheck\<close>. The raw accesses of the administrator
  (\<^verbatim>\<open>adminSstore\<close>, \<^verbatim>\<open>adminSstoreWithMask\<close>, \<^verbatim>\<open>adminDelegatecall\<close>, \<^verbatim>\<open>adminSendEth\<close>) are left out.
\<close>

unbundle bit_operations_syntax

section \<open>Storage\<close>

type_synonym eth_address = "160 word"
type_synonym uint256 = "256 word"

definition MAX_BLOCK_PRODUCERS :: nat where
  "MAX_BLOCK_PRODUCERS = 100"

record epoch =
  ep_epochId :: bytes
  ep_numBPs :: nat
  ep_keys :: "bytes list"
  ep_packedStakes :: "uint256 list"
  ep_stakeThreshold :: uint256

record nearbridge =
  nb_admin :: eth_address
  nb_paused :: uint256
  nb_initialized :: bool
  nb_lockEthAmount :: uint256
  nb_lockDuration :: uint256
  nb_replaceDuration :: uint256
  nb_epochs :: "epoch list"
  nb_curEpoch :: nat
  nb_curHeight :: "64 word"
  nb_untrustedHeight :: "64 word"
  nb_untrustedTimestamp :: uint256
  nb_untrustedNextEpoch :: bool
  nb_untrustedHash :: bytes
  nb_untrustedMerkleRoot :: bytes
  nb_untrustedNextHash :: bytes
  nb_untrustedSignatureSet :: uint256
  nb_untrustedSignatures :: "sol_signature list"
  nb_lastSubmitter :: eth_address
  nb_lastValidAt :: uint256
  nb_blockHashes :: "64 word \<Rightarrow> bytes"
  nb_blockMerkleRoots :: "64 word \<Rightarrow> bytes"
  nb_balanceOf :: "eth_address \<Rightarrow> uint256"
  nb_ether :: nat

record eth_tx =
  tx_sender :: eth_address
  tx_value :: uint256
  tx_now :: uint256
  tx_accepts :: bool

type_synonym edcheck = "bytes \<Rightarrow> bytes \<Rightarrow> bytes \<Rightarrow> bytes \<Rightarrow> bytes \<Rightarrow> bool"

definition require :: "bool \<Rightarrow> string \<Rightarrow> sol_error + unit" where
  "require b msg = (if b then Inr () else Inl (Revert msg))"

lemma require_Inr [simp]: "require b msg = Inr u \<longleftrightarrow> b"
  by (simp add: require_def)

lemma require_True [simp]: "require True msg = Inr ()"
  by (simp add: require_def)

definition onlyAdmin :: "eth_tx \<Rightarrow> nearbridge \<Rightarrow> sol_error + unit" where
  "onlyAdmin tx s = require (tx_sender tx = nb_admin s) ''''"

definition pausable :: "nat \<Rightarrow> eth_tx \<Rightarrow> nearbridge \<Rightarrow> sol_error + unit" where
  "pausable flag tx s = require (nb_paused s AND word_of_nat flag = 0 \<or> tx_sender tx = nb_admin s) ''''"

text \<open>A function that is not payable refuses a transaction with a value.\<close>

definition nonpayable :: "eth_tx \<Rightarrow> sol_error + unit" where
  "nonpayable tx = require (tx_value tx = 0) ''''"

text \<open>\<^verbatim>\<open>to.transfer(amount)\<close>\<close>

definition transfer :: "eth_tx \<Rightarrow> nat \<Rightarrow> nearbridge \<Rightarrow> sol_error + nearbridge" where
  "transfer tx amount s =
     res_bind (require (amount \<le> nb_ether s \<and> tx_accepts tx) '''') (\<lambda>_. Inr (s\<lparr>nb_ether := nb_ether s - amount\<rparr>))"

definition empty_epoch :: epoch where
  "empty_epoch = \<lparr>ep_epochId = zero_bytes32, ep_numBPs = 0, ep_keys = replicate MAX_BLOCK_PRODUCERS zero_bytes32,
     ep_packedStakes = replicate (MAX_BLOCK_PRODUCERS div 2) 0, ep_stakeThreshold = 0\<rparr>"

text \<open>The constructor; \<^verbatim>\<open>lockDuration_ * 1000000000\<close> is checked and reverts on overflow.\<close>

definition bridge_constructor :: "uint256 \<Rightarrow> uint256 \<Rightarrow> uint256 \<Rightarrow> eth_address \<Rightarrow> uint256 \<Rightarrow> sol_error + nearbridge" where
  "bridge_constructor lockEthAmount lockDuration replaceDuration admin flags =
     res_bind (require (unat lockDuration * 1000000000 < 2 ^ 256) ''Panic'') (\<lambda>_.
     res_bind (require (unat lockDuration * 1000000000 < unat replaceDuration) '''') (\<lambda>_.
     Inr \<lparr>nb_admin = admin, nb_paused = flags, nb_initialized = False, nb_lockEthAmount = lockEthAmount,
       nb_lockDuration = lockDuration, nb_replaceDuration = replaceDuration, nb_epochs = replicate 3 empty_epoch,
       nb_curEpoch = 0, nb_curHeight = 0, nb_untrustedHeight = 0, nb_untrustedTimestamp = 0, nb_untrustedNextEpoch = False,
       nb_untrustedHash = zero_bytes32, nb_untrustedMerkleRoot = zero_bytes32, nb_untrustedNextHash = zero_bytes32,
       nb_untrustedSignatureSet = 0,
       nb_untrustedSignatures = replicate MAX_BLOCK_PRODUCERS \<lparr>sig_r = zero_bytes32, sig_s = zero_bytes32\<rparr>,
       nb_lastSubmitter = 0, nb_lastValidAt = 0, nb_blockHashes = (\<lambda>_. zero_bytes32),
       nb_blockMerkleRoots = (\<lambda>_. zero_bytes32), nb_balanceOf = (\<lambda>_. 0), nb_ether = 0\<rparr>))"

section \<open>Stakes of the submitters\<close>

definition bridge_deposit :: "eth_tx \<Rightarrow> nearbridge \<Rightarrow> sol_error + nearbridge" where
  "bridge_deposit tx s =
     res_bind (pausable 1 tx s) (\<lambda>_.
     res_bind (require (tx_value tx = nb_lockEthAmount s \<and> nb_balanceOf s (tx_sender tx) = 0) '''') (\<lambda>_.
     Inr (s\<lparr>nb_balanceOf := (nb_balanceOf s)(tx_sender tx := tx_value tx), nb_ether := nb_ether s + unat (tx_value tx)\<rparr>)))"

definition bridge_withdraw :: "eth_tx \<Rightarrow> nearbridge \<Rightarrow> sol_error + nearbridge" where
  "bridge_withdraw tx s =
     res_bind (nonpayable tx) (\<lambda>_.
     res_bind (pausable 2 tx s) (\<lambda>_.
     res_bind (require (tx_sender tx \<noteq> nb_lastSubmitter s \<or> nb_lastValidAt s \<le> tx_now tx) '''') (\<lambda>_.
     let amount = nb_balanceOf s (tx_sender tx) in
     res_bind (require (amount \<noteq> 0) '''') (\<lambda>_.
     transfer tx (unat amount) (s\<lparr>nb_balanceOf := (nb_balanceOf s)(tx_sender tx := 0)\<rparr>)))))"

section \<open>Block producers\<close>

definition high_stake :: "uint256 \<Rightarrow> uint256" where
  "high_stake w = drop_bit 128 w"

definition low_stake :: "uint256 \<Rightarrow> uint256" where
  "low_stake w = take_bit 128 w"

definition pack_stakes :: "128 word \<Rightarrow> 128 word \<Rightarrow> uint256" where
  "pack_stakes a b = push_bit 128 (ucast a) + ucast b"

text \<open>The loop of \<^verbatim>\<open>setBlockProducers\<close> over the stakes, two in a turn; \<open>k\<close> is \<^verbatim>\<open>i >> 1\<close>.\<close>

fun store_stakes :: "128 word list \<Rightarrow> nat \<Rightarrow> uint256 list \<Rightarrow> uint256 \<Rightarrow> uint256 list \<times> uint256" where
  "store_stakes [] k packed totalStake = (packed, totalStake)"
| "store_stakes [stake1] k packed totalStake = (packed[k := push_bit 128 (ucast stake1)], totalStake + ucast stake1)"
| "store_stakes (stake1 # stake2 # ss) k packed totalStake =
     store_stakes ss (Suc k) (packed[k := pack_stakes stake1 stake2]) (totalStake + ucast stake1 + ucast stake2)"

definition setBlockProducers :: "sol_block_producer list \<Rightarrow> epoch \<Rightarrow> sol_error + epoch" where
  "setBlockProducers src e =
     res_bind (require (length src \<le> MAX_BLOCK_PRODUCERS)
       ''It is not expected having that many block producers for the provided block'') (\<lambda>_.
     case store_stakes (map bp_stake src) 0 (ep_packedStakes e) 0 of (packed, totalStake) \<Rightarrow>
     Inr (e\<lparr>ep_numBPs := length src, ep_keys := map bp_publicKey src @ drop (length src) (ep_keys e),
       ep_packedStakes := packed, ep_stakeThreshold := totalStake * 2 div 3\<rparr>))"

text \<open>The loop of \<^verbatim>\<open>addLightClientBlock\<close> that adds up the stake behind the approvals, two in a turn.\<close>

fun voted_for :: "uint256 list \<Rightarrow> 'a option list \<Rightarrow> nat \<Rightarrow> nat \<Rightarrow> uint256 \<Rightarrow> uint256" where
  "voted_for packed approvals k 0 votedFor = votedFor"
| "voted_for packed approvals k (Suc 0) votedFor =
     (if approvals ! (2 * k) \<noteq> None then votedFor + high_stake (packed ! k) else votedFor)"
| "voted_for packed approvals k (Suc (Suc n)) votedFor =
     (let v1 = (if approvals ! (2 * k) \<noteq> None then votedFor + high_stake (packed ! k) else votedFor);
          v2 = (if approvals ! (2 * k + 1) \<noteq> None then v1 + low_stake (packed ! k) else v1)
      in voted_for packed approvals (Suc k) n v2)"

text \<open>The loop that stores the signatures and the set of their indices.\<close>

fun store_signatures :: "nat \<Rightarrow> sol_signature option list \<Rightarrow> uint256 \<Rightarrow> sol_signature list \<Rightarrow> uint256 \<times> sol_signature list" where
  "store_signatures i [] signatureSet sigs = (signatureSet, sigs)"
| "store_signatures i (None # aps) signatureSet sigs = store_signatures (Suc i) aps signatureSet sigs"
| "store_signatures i (Some sg # aps) signatureSet sigs =
     store_signatures (Suc i) aps (signatureSet OR push_bit i 1) (sigs[i := sg])"

section \<open>Initialization\<close>

definition initWithValidators :: "eth_tx \<Rightarrow> bytes \<Rightarrow> nearbridge \<Rightarrow> sol_error + nearbridge" where
  "initWithValidators tx data s =
     res_bind (nonpayable tx) (\<lambda>_.
     res_bind (onlyAdmin tx s) (\<lambda>_.
     res_bind (require (\<not> nb_initialized s \<and> ep_numBPs (nb_epochs s ! 0) = 0) ''Wrong initialization stage'') (\<lambda>_.
     res_bind (decodeBlockProducers \<lparr>cbuf = data, coff = 0\<rparr>) (\<lambda>(initialValidators, borsh).
     res_bind (sol_done borsh) (\<lambda>_.
     res_bind (setBlockProducers initialValidators (nb_epochs s ! 0)) (\<lambda>e.
     Inr (s\<lparr>nb_epochs := (nb_epochs s)[0 := e]\<rparr>)))))))"

definition initWithBlock :: "(bytes \<Rightarrow> bytes) \<Rightarrow> eth_tx \<Rightarrow> bytes \<Rightarrow> nearbridge \<Rightarrow> sol_error + nearbridge" where
  "initWithBlock sha tx data s =
     res_bind (nonpayable tx) (\<lambda>_.
     res_bind (onlyAdmin tx s) (\<lambda>_.
     res_bind (require (\<not> nb_initialized s \<and> ep_numBPs (nb_epochs s ! 0) \<noteq> 0) ''Wrong initialization stage'') (\<lambda>_.
     res_bind (decodeLightClientBlock sha \<lparr>cbuf = data, coff = 0\<rparr>) (\<lambda>(nearBlock, borsh).
     res_bind (sol_done borsh) (\<lambda>_.
     res_bind (require (obp_some (slb_next_bps nearBlock)) ''Initialization block must contain next_bps'') (\<lambda>_.
     let lite = slb_inner_lite nearBlock;
         e0 = (nb_epochs s ! 0)\<lparr>ep_epochId := sil_epoch_id lite\<rparr>;
         e1 = (nb_epochs s ! 1)\<lparr>ep_epochId := sil_next_epoch_id lite\<rparr> in
     res_bind (setBlockProducers (obp_blockProducers (slb_next_bps nearBlock)) e1) (\<lambda>e1'.
     Inr (s\<lparr>nb_initialized := True, nb_curHeight := sil_height lite, nb_epochs := (nb_epochs s)[0 := e0, 1 := e1'],
       nb_blockHashes := (nb_blockHashes s)(sil_height lite := slb_hash nearBlock),
       nb_blockMerkleRoots := (nb_blockMerkleRoots s)(sil_height lite := sil_block_merkle_root lite)\<rparr>))))))))"

section \<open>Reading the state\<close>

record sol_bridge_state =
  sbs_currentHeight :: uint256
  sbs_nextTimestamp :: uint256
  sbs_nextValidAt :: uint256
  sbs_numBlockProducers :: nat

definition next_epoch_index :: "nearbridge \<Rightarrow> nat" where
  "next_epoch_index s = (nb_curEpoch s + 1) mod 3"

definition untrusted_epoch :: "nearbridge \<Rightarrow> epoch" where
  "untrusted_epoch s = nb_epochs s ! (if nb_untrustedNextEpoch s then next_epoch_index s else nb_curEpoch s)"

definition bridgeState :: "uint256 \<Rightarrow> nearbridge \<Rightarrow> sol_bridge_state" where
  "bridgeState now s =
     (if now < nb_lastValidAt s
      then \<lparr>sbs_currentHeight = ucast (nb_curHeight s), sbs_nextTimestamp = nb_untrustedTimestamp s,
            sbs_nextValidAt = nb_lastValidAt s, sbs_numBlockProducers = ep_numBPs (untrusted_epoch s)\<rparr>
      else \<lparr>sbs_currentHeight = ucast (if nb_lastValidAt s = 0 then nb_curHeight s else nb_untrustedHeight s),
            sbs_nextTimestamp = 0, sbs_nextValidAt = 0, sbs_numBlockProducers = 0\<rparr>)"

text \<open>A hash or root that is confirmed: stored, or of the pending block when its challenge period is over.\<close>

definition confirmed :: "uint256 \<Rightarrow> nearbridge \<Rightarrow> (64 word \<Rightarrow> bytes) \<Rightarrow> bytes \<Rightarrow> 64 word \<Rightarrow> bytes" where
  "confirmed now s stored pending h =
     (if stored h = zero_bytes32 \<and> nb_lastValidAt s \<le> now \<and> nb_lastValidAt s \<noteq> 0 \<and> h = nb_untrustedHeight s
      then pending else stored h)"

definition blockHashes :: "eth_tx \<Rightarrow> nearbridge \<Rightarrow> 64 word \<Rightarrow> sol_error + bytes" where
  "blockHashes tx s h = res_bind (pausable 16 tx s) (\<lambda>_.
     Inr (confirmed (tx_now tx) s (nb_blockHashes s) (nb_untrustedHash s) h))"

definition blockMerkleRoots :: "eth_tx \<Rightarrow> nearbridge \<Rightarrow> 64 word \<Rightarrow> sol_error + bytes" where
  "blockMerkleRoots tx s h = res_bind (pausable 16 tx s) (\<lambda>_.
     Inr (confirmed (tx_now tx) s (nb_blockMerkleRoots s) (nb_untrustedMerkleRoot s) h))"

section \<open>addLightClientBlock\<close>

text \<open>The first part: the previous block is committed, or it may be replaced.\<close>

definition commit_block :: "nearbridge \<Rightarrow> nearbridge" where
  "commit_block s = s\<lparr>nb_curHeight := nb_untrustedHeight s,
     nb_curEpoch := (if nb_untrustedNextEpoch s then next_epoch_index s else nb_curEpoch s), nb_lastValidAt := 0,
     nb_blockHashes := (nb_blockHashes s)(nb_untrustedHeight s := nb_untrustedHash s),
     nb_blockMerkleRoots := (nb_blockMerkleRoots s)(nb_untrustedHeight s := nb_untrustedMerkleRoot s)\<rparr>"

definition commit_previous :: "uint256 \<Rightarrow> 64 word \<Rightarrow> nearbridge \<Rightarrow> sol_error + nearbridge" where
  "commit_previous now ts s =
     (if now < nb_lastValidAt s
      then res_bind (require (nb_untrustedTimestamp s + nb_replaceDuration s \<le> ucast ts)
        ''Can only replace with a sufficiently newer block'') (\<lambda>_. Inr s)
      else if nb_lastValidAt s \<noteq> 0 then Inr (commit_block s)
      else Inr s)"

definition from_next_epoch :: "nearbridge \<Rightarrow> bytes \<Rightarrow> sol_error + bool" where
  "from_next_epoch s eid =
     (if eid = ep_epochId (nb_epochs s ! nb_curEpoch s) then Inr False
      else if eid = ep_epochId (nb_epochs s ! next_epoch_index s) then Inr True
      else Inl (Revert ''Epoch id of the block is not valid''))"

definition check_block :: "sol_light_client_block \<Rightarrow> bool \<Rightarrow> epoch \<Rightarrow> sol_error + unit" where
  "check_block nearBlock fromNextEpoch thisEpoch =
     res_bind (require (ep_numBPs thisEpoch \<le> length (slb_approvals_after_next nearBlock)) ''Approval list is too short'') (\<lambda>_.
     res_bind (require (ep_stakeThreshold thisEpoch < voted_for (ep_packedStakes thisEpoch) (slb_approvals_after_next nearBlock) 0
       (ep_numBPs thisEpoch) 0) ''Too few approvals'') (\<lambda>_.
     if fromNextEpoch then
       res_bind (require (obp_some (slb_next_bps nearBlock)) ''Next next_bps should not be None'') (\<lambda>_.
       require (obp_hash (slb_next_bps nearBlock) = sil_next_bp_hash (slb_inner_lite nearBlock)) ''Hash of block producers does not match'')
     else Inr ()))"

definition next_producers :: "sol_light_client_block \<Rightarrow> bool \<Rightarrow> nearbridge \<Rightarrow> sol_error + epoch list" where
  "next_producers nearBlock fromNextEpoch s =
     (if fromNextEpoch then
        let i = (nb_curEpoch s + 2) mod 3 in
        res_bind (setBlockProducers (obp_blockProducers (slb_next_bps nearBlock))
          ((nb_epochs s ! i)\<lparr>ep_epochId := sil_next_epoch_id (slb_inner_lite nearBlock)\<rparr>)) (\<lambda>e.
        Inr ((nb_epochs s)[i := e]))
      else Inr (nb_epochs s))"

text \<open>The last part: the block becomes the pending one.\<close>

definition set_untrusted :: "eth_tx \<Rightarrow> sol_light_client_block \<Rightarrow> bool \<Rightarrow> uint256 \<times> sol_signature list \<Rightarrow> epoch list \<Rightarrow>
    nearbridge \<Rightarrow> nearbridge" where
  "set_untrusted tx nearBlock fromNextEpoch sigs eps s =
     (let lite = slb_inner_lite nearBlock in
     s\<lparr>nb_untrustedHeight := sil_height lite, nb_untrustedTimestamp := ucast (sil_timestamp lite),
       nb_untrustedHash := slb_hash nearBlock, nb_untrustedMerkleRoot := sil_block_merkle_root lite,
       nb_untrustedNextHash := slb_next_hash nearBlock, nb_untrustedSignatureSet := fst sigs,
       nb_untrustedSignatures := snd sigs, nb_untrustedNextEpoch := fromNextEpoch, nb_epochs := eps,
       nb_lastSubmitter := tx_sender tx, nb_lastValidAt := tx_now tx + nb_lockDuration s\<rparr>)"

definition add_block :: "eth_tx \<Rightarrow> sol_light_client_block \<Rightarrow> nearbridge \<Rightarrow> sol_error + nearbridge" where
  "add_block tx nearBlock s0 =
     res_bind (commit_previous (tx_now tx) (sil_timestamp (slb_inner_lite nearBlock)) s0) (\<lambda>s.
     res_bind (require (nb_curHeight s < sil_height (slb_inner_lite nearBlock)) ''New block must have higher height'') (\<lambda>_.
     res_bind (from_next_epoch s (sil_epoch_id (slb_inner_lite nearBlock))) (\<lambda>fromNextEpoch.
     let thisEpoch = nb_epochs s ! (if fromNextEpoch then next_epoch_index s else nb_curEpoch s) in
     res_bind (check_block nearBlock fromNextEpoch thisEpoch) (\<lambda>_.
     let sigs = store_signatures 0 (take (ep_numBPs thisEpoch) (slb_approvals_after_next nearBlock)) 0 (nb_untrustedSignatures s) in
     res_bind (next_producers nearBlock fromNextEpoch s) (\<lambda>eps.
     Inr (set_untrusted tx nearBlock fromNextEpoch sigs eps s))))))"

definition addLightClientBlock :: "(bytes \<Rightarrow> bytes) \<Rightarrow> eth_tx \<Rightarrow> bytes \<Rightarrow> nearbridge \<Rightarrow> sol_error + nearbridge" where
  "addLightClientBlock sha tx data s =
     res_bind (nonpayable tx) (\<lambda>_.
     res_bind (pausable 4 tx s) (\<lambda>_.
     res_bind (require (nb_initialized s) ''Contract is not initialized'') (\<lambda>_.
     res_bind (require (nb_lockEthAmount s \<le> nb_balanceOf s (tx_sender tx)) ''Balance is not enough'') (\<lambda>_.
     res_bind (decodeLightClientBlock sha \<lparr>cbuf = data, coff = 0\<rparr>) (\<lambda>(nearBlock, borsh).
     res_bind (sol_done borsh) (\<lambda>_.
     add_block tx nearBlock s))))))"

section \<open>Challenges\<close>

text \<open>The 41 bytes the block producers sign: a zero byte, the hash of the next block and the height plus two.\<close>

definition approval_message :: "nearbridge \<Rightarrow> bytes" where
  "approval_message s = [0] @ nb_untrustedNextHash s @ rev (le_bytes 8 (unat (swapBytes8 (nb_untrustedHeight s + 2))))
     @ replicate 23 0"

definition checkBlockProducerSignatureInHead :: "edcheck \<Rightarrow> nat \<Rightarrow> nearbridge \<Rightarrow> sol_error + bool" where
  "checkBlockProducerSignatureInHead ed signatureIndex s =
     res_bind (require (nb_untrustedSignatureSet s AND push_bit signatureIndex 1 \<noteq> 0) ''No such signature'') (\<lambda>_.
     let signature = nb_untrustedSignatures s ! signatureIndex; message = approval_message s in
     Inr (ed (ep_keys (untrusted_epoch s) ! signatureIndex) (sig_r signature) (sig_s signature)
       (take 32 message) (take 9 (drop 32 message))))"

definition bridge_challenge :: "edcheck \<Rightarrow> eth_tx \<Rightarrow> eth_address \<Rightarrow> nat \<Rightarrow> nearbridge \<Rightarrow> sol_error + nearbridge" where
  "bridge_challenge ed tx receiver signatureIndex s =
     res_bind (nonpayable tx) (\<lambda>_.
     res_bind (pausable 8 tx s) (\<lambda>_.
     res_bind (require (tx_now tx < nb_lastValidAt s) ''No block can be challenged at this time'') (\<lambda>_.
     res_bind (checkBlockProducerSignatureInHead ed signatureIndex s) (\<lambda>valid.
     res_bind (require (\<not> valid) ''Can't challenge valid signature'') (\<lambda>_.
     let sub = nb_lastSubmitter s in
     res_bind (require (nb_lockEthAmount s \<le> nb_balanceOf s sub) ''Panic'') (\<lambda>_.
     res_bind (transfer tx (unat (nb_lockEthAmount s) div 2)
       (s\<lparr>nb_balanceOf := (nb_balanceOf s)(sub := nb_balanceOf s sub - nb_lockEthAmount s)\<rparr>)) (\<lambda>s'.
     Inr (s'\<lparr>nb_lastValidAt := 0\<rparr>))))))))"

section \<open>Transactions\<close>

datatype bridge_call =
    Deposit
  | Withdraw
  | Challenge eth_address nat
  | InitWithValidators bytes
  | InitWithBlock bytes
  | AddLightClientBlock bytes
  | AdminPause uint256
  | AdminReceiveEth

fun bridge_exec :: "(bytes \<Rightarrow> bytes) \<Rightarrow> edcheck \<Rightarrow> eth_tx \<Rightarrow> bridge_call \<Rightarrow> nearbridge \<Rightarrow> sol_error + nearbridge" where
  "bridge_exec sha ed tx Deposit s = bridge_deposit tx s"
| "bridge_exec sha ed tx Withdraw s = bridge_withdraw tx s"
| "bridge_exec sha ed tx (Challenge receiver i) s = bridge_challenge ed tx receiver i s"
| "bridge_exec sha ed tx (InitWithValidators data) s = initWithValidators tx data s"
| "bridge_exec sha ed tx (InitWithBlock data) s = initWithBlock sha tx data s"
| "bridge_exec sha ed tx (AddLightClientBlock data) s = addLightClientBlock sha tx data s"
| "bridge_exec sha ed tx (AdminPause flags) s =
     res_bind (nonpayable tx) (\<lambda>_. res_bind (onlyAdmin tx s) (\<lambda>_. Inr (s\<lparr>nb_paused := flags\<rparr>)))"
| "bridge_exec sha ed tx AdminReceiveEth s =
     res_bind (onlyAdmin tx s) (\<lambda>_. Inr (s\<lparr>nb_ether := nb_ether s + unat (tx_value tx)\<rparr>))"

text \<open>
  A run of the contract: time passes, and transactions that do not revert change the storage. Timestamps
  of blocks are seconds and stay below \<open>2 ^ 64\<close>.
\<close>

inductive bridge_step :: "(bytes \<Rightarrow> bytes) \<Rightarrow> edcheck \<Rightarrow> uint256 \<times> nearbridge \<Rightarrow> uint256 \<times> nearbridge \<Rightarrow> bool"
  for sha ed where
  pass: "t \<le> t' \<Longrightarrow> t' < 2 ^ 64 \<Longrightarrow> bridge_step sha ed (t, s) (t', s)"
| call: "t \<le> tx_now tx \<Longrightarrow> tx_now tx < 2 ^ 64 \<Longrightarrow> bridge_exec sha ed tx c s = Inr s' \<Longrightarrow>
    bridge_step sha ed (t, s) (tx_now tx, s')"

inductive bridge_reach :: "(bytes \<Rightarrow> bytes) \<Rightarrow> edcheck \<Rightarrow> uint256 \<times> nearbridge \<Rightarrow> bool"
  for sha ed where
  deployed: "bridge_constructor lock dur rep adm flags = Inr s \<Longrightarrow> t < 2 ^ 64 \<Longrightarrow> bridge_reach sha ed (t, s)"
| stepped: "bridge_reach sha ed c \<Longrightarrow> bridge_step sha ed c c' \<Longrightarrow> bridge_reach sha ed c'"

inductive_cases bridge_stepE: "bridge_step sha ed c c'"

end
