(* ===== verification/Bridge_Accepts.thy ===== *)
theory Bridge_Accepts
  imports Near_Bridge Near_Roundtrip
begin

text \<open>
  What the light client contract does with the messages the relay encodes. The decoders are discharged once
  and for all by the codecs of \<^verbatim>\<open>Near_Roundtrip\<close>: on an encoded message a function of the contract behaves as
  the same function on the value that was encoded.
\<close>

lemma setBlockProducers_ok:
  assumes "length src \<le> MAX_BLOCK_PRODUCERS"
  shows "\<exists>e'. setBlockProducers src e = Inr e' \<and> ep_epochId e' = ep_epochId e \<and> ep_numBPs e' = length src"
  using assms by (simp add: setBlockProducers_def split: prod.splits)

lemma initWithValidators_accepts:
  assumes "lib_ok L" "list_all (\<lambda>v. validator_ok L v \<and> v1 v) vs" "length vs \<le> MAX_BLOCK_PRODUCERS"
    and "borshifyInitialValidators L vs = Inr bs"
    and "tx_value tx = 0" "tx_sender tx = nb_admin s" "\<not> nb_initialized s" "ep_numBPs (nb_epochs s ! 0) = 0"
  shows "\<exists>e. setBlockProducers (map (producer_view L) vs) (nb_epochs s ! 0) = Inr e
    \<and> initWithValidators tx bs s = Inr (s\<lparr>nb_epochs := (nb_epochs s)[0 := e]\<rparr>)"
proof -
  have "decodeBlockProducers \<lparr>cbuf = bs, coff = 0\<rparr> = Inr (map (producer_view L) vs, \<lparr>cbuf = bs, coff = length bs\<rparr>)"
    using block_producers.whole_message [of L vs] assms(1-4) by (auto simp: list_all_iff MAX_BLOCK_PRODUCERS_def)
  moreover obtain e where "setBlockProducers (map (producer_view L) vs) (nb_epochs s ! 0) = Inr e"
    using setBlockProducers_ok [of "map (producer_view L) vs"] assms(3) by auto
  ultimately show ?thesis
    using assms(5-8) by (simp add: initWithValidators_def nonpayable_def onlyAdmin_def sol_done_def)
qed

lemma block_decodes:
  assumes "lib_ok L" "block_ok L b" "borshify L b = Inr bs"
  shows "decodeLightClientBlock sha \<lparr>cbuf = bs, coff = 0\<rparr> = Inr (block_view L sha b, \<lparr>cbuf = bs, coff = length bs\<rparr>)"
  using light_block.whole_message [of L b sha] assms by auto

definition block_producers_of :: "light_client_block \<Rightarrow> validator list" where
  "block_producers_of b = (case next_bps b of None \<Rightarrow> [] | Some vs \<Rightarrow> vs)"

lemma block_view_simps [simp]:
  "slb_inner_lite (block_view L sha b) = inner_lite_view L sha (lcb_inner_lite b)"
  "slb_next_bps (block_view L sha b) = producers_view L sha (block_producers_of b)"
  "slb_approvals_after_next (block_view L sha b) = map (approval_view L) (approvals_after_next b)"
  by (simp_all add: block_view_def Let_def block_producers_of_def)

lemma initWithBlock_accepts:
  assumes "lib_ok L" "block_ok L b" "borshify L b = Inr bs" "length (block_producers_of b) \<le> MAX_BLOCK_PRODUCERS"
    and "tx_value tx = 0" "tx_sender tx = nb_admin s" "\<not> nb_initialized s" "ep_numBPs (nb_epochs s ! 0) \<noteq> 0"
  shows "\<exists>s'. initWithBlock sha tx bs s = Inr s' \<and> nb_initialized s'
    \<and> nb_curHeight s' = word_of_nat (num_value (height (lcb_inner_lite b)))
    \<and> nb_blockHashes s' = (nb_blockHashes s)(nb_curHeight s' := slb_hash (block_view L sha b))
    \<and> nb_blockMerkleRoots s' = (nb_blockMerkleRoots s)(nb_curHeight s' := the_hash L (block_merkle_root (lcb_inner_lite b)))
    \<and> (\<exists>e. nb_epochs s' = (nb_epochs s)[0 := (nb_epochs s ! 0)\<lparr>ep_epochId := the_hash L (epoch_id (lcb_inner_lite b))\<rparr>, 1 := e])
    \<and> nb_paused s' = nb_paused s \<and> nb_lastValidAt s' = nb_lastValidAt s \<and> nb_balanceOf s' = nb_balanceOf s
    \<and> nb_lockEthAmount s' = nb_lockEthAmount s \<and> nb_lockDuration s' = nb_lockDuration s \<and> nb_curEpoch s' = nb_curEpoch s
    \<and> nb_ether s' = nb_ether s"
proof -
  obtain e where "setBlockProducers (map (producer_view L) (block_producers_of b))
      ((nb_epochs s ! 1)\<lparr>ep_epochId := the_hash L (next_epoch_id (lcb_inner_lite b))\<rparr>) = Inr e"
    using setBlockProducers_ok [of "map (producer_view L) (block_producers_of b)"] assms(4) by (metis length_map)
  then show ?thesis
    using assms(5-8) block_decodes [OF assms(1-3), of sha]
    by (simp add: initWithBlock_def nonpayable_def onlyAdmin_def sol_done_def Let_def producers_view_def inner_lite_view_def) blast
qed

text \<open>A submitted block reaches \<open>add_block\<close> as the block the relay encoded.\<close>

lemma addLightClientBlock_encoded:
  assumes "lib_ok L" "block_ok L b" "borshify L b = Inr bs"
    and "tx_value tx = 0" "nb_paused s AND 4 = 0" "nb_initialized s" "nb_lockEthAmount s \<le> nb_balanceOf s (tx_sender tx)"
  shows "addLightClientBlock sha tx bs s = add_block tx (block_view L sha b) s"
  using assms(4-7) block_decodes [OF assms(1-3), of sha]
  by (simp add: addLightClientBlock_def nonpayable_def pausable_def sol_done_def)

end
