(* ===== verification/Bridge_Quorum.thy ===== *)
theory Bridge_Quorum
  imports Near_Bridge
begin

text \<open>
  The contract keeps the stakes of an epoch packed, two in a word, and adds them up two at a time in
  wrapping arithmetic. This theory relates that to the abstract specification of a quorum on plain lists of
  numbers: more than two thirds of the stake.
\<close>

section \<open>The abstract specification\<close>

definition stake_sum :: "nat list \<Rightarrow> bool list \<Rightarrow> nat" where
  "stake_sum stakes approved = (\<Sum>i<length stakes. if approved ! i then stakes ! i else 0)"

definition quorum :: "nat list \<Rightarrow> bool list \<Rightarrow> bool" where
  "quorum stakes approved \<longleftrightarrow> 2 * sum_list stakes < 3 * stake_sum stakes approved"

section \<open>Packed stakes\<close>

lemma stake_less: "unat (a :: 128 word) < 2 ^ 128"
  using unsigned_less [of a, where ?'a = nat] by simp

lemma unat_ucast_stake: "unat (ucast (a :: 128 word) :: uint256) = unat a"
proof -
  have "unat a < 2 ^ 256" using stake_less [of a] by (rule less_le_trans) simp
  then show ?thesis by (simp only: unsigned_ucast_eq take_bit_nat_eq_self_iff) simp
qed

lemma unat_push_stake: "unat (push_bit 128 (ucast (a :: 128 word)) :: uint256) = unat a * 2 ^ 128"
proof -
  have "unat a * 2 ^ 128 < 2 ^ 128 * 2 ^ 128" using stake_less [of a] by (intro mult_strict_right_mono) auto
  then have "unat a * 2 ^ 128 < 2 ^ 256" by simp
  then show ?thesis
    by (simp add: push_bit_eq_mult unat_word_ariths unat_ucast_stake)
qed

lemma unat_pack: "unat (pack_stakes a b) = unat a * 2 ^ 128 + unat b"
proof -
  have "unat a * 2 ^ 128 + unat b < 2 ^ 256"
  proof -
    have "(unat a + 1) * 2 ^ 128 \<le> 2 ^ 128 * 2 ^ 128" using stake_less [of a] by (intro mult_right_mono) auto
    with stake_less [of b] show ?thesis by simp
  qed
  then show ?thesis
    unfolding pack_stakes_def by (simp add: unat_word_ariths unat_push_stake unat_ucast_stake)
qed

lemma unat_high: "unat (high_stake w) = unat w div 2 ^ 128"
  by (simp add: high_stake_def drop_bit_eq_div unat_div_distrib)

lemma unat_low: "unat (low_stake w) = unat w mod 2 ^ 128"
  by (simp add: low_stake_def take_bit_eq_mod unat_mod_distrib)

lemma unpack [simp]:
  "high_stake (pack_stakes a b) = ucast a" "low_stake (pack_stakes a b) = ucast b"
  "high_stake (push_bit 128 (ucast a)) = ucast a"
  using stake_less [of b] by (simp_all add: word_unat_eq_iff unat_high unat_low unat_pack unat_push_stake unat_ucast_stake)

definition stake_at :: "uint256 list \<Rightarrow> nat \<Rightarrow> uint256" where
  "stake_at packed i = (if even i then high_stake (packed ! (i div 2)) else low_stake (packed ! (i div 2)))"

lemma store_stakes_ok:
  assumes "store_stakes ss k packed tot = (packed', tot')" "2 * k + length ss \<le> 2 * length packed"
  shows "length packed' = length packed \<and> (\<forall>j < k. packed' ! j = packed ! j)
    \<and> (\<forall>i < length ss. stake_at packed' (2 * k + i) = ucast (ss ! i))
    \<and> tot' = tot + sum_list (map ucast ss)"
  using assms
proof (induction ss k packed tot rule: store_stakes.induct)
  case (3 a b ss k packed tot)
  let ?p = "packed[k := pack_stakes a b]"
  from 3(1) [of ] 3(2,3) have IH: "length packed' = length packed" "\<forall>j < Suc k. packed' ! j = ?p ! j"
    "\<forall>i < length ss. stake_at packed' (2 * Suc k + i) = ucast (ss ! i)"
    "tot' = tot + ucast a + ucast b + sum_list (map ucast ss)" by simp_all
  have pk: "packed' ! k = pack_stakes a b" using IH(2) 3(3) by simp
  have "stake_at packed' (2 * k + i) = ucast ((a # b # ss) ! i)" if "i < length (a # b # ss)" for i
  proof -
    consider "i = 0" | "i = 1" | j where "i = Suc (Suc j)" by (metis One_nat_def old.nat.exhaust)
    then show ?thesis
    proof cases
      case 3
      with that IH(3) show ?thesis by simp
    qed (use pk in \<open>simp_all add: stake_at_def\<close>)
  qed
  with IH show ?case by (auto simp: add.assoc)
qed (auto simp: stake_at_def)

section \<open>The count of the votes\<close>

lemma voted_for_sum:
  "voted_for packed aps k n v = v + (\<Sum>i = 2 * k..<2 * k + n. if aps ! i \<noteq> None then stake_at packed i else 0)"
proof (induction packed aps k n v rule: voted_for.induct)
  case (2 packed aps k v)
  show ?case by (simp add: stake_at_def)
next
  case (3 packed aps k n v)
  let ?f = "\<lambda>i. if aps ! i \<noteq> None then stake_at packed i else 0"
  have "(\<Sum>i = 2 * k..<2 * k + Suc (Suc n). ?f i) = ?f (2 * k) + (?f (Suc (2 * k)) + (\<Sum>i = 2 * Suc k..<2 * Suc k + n. ?f i))"
    using sum.atLeast_Suc_lessThan [of "2 * k" "2 * k + Suc (Suc n)" ?f]
      sum.atLeast_Suc_lessThan [of "Suc (2 * k)" "2 * k + Suc (Suc n)" ?f]
    by (simp del: sum.op_ivl_Suc sum.cl_ivl_Suc)
  moreover have "stake_at packed (2 * k) = high_stake (packed ! k)" "stake_at packed (Suc (2 * k)) = low_stake (packed ! k)"
    by (simp_all add: stake_at_def)
  ultimately show ?case using 3 by (simp add: Let_def add.assoc)
qed simp

text \<open>At most one hundred stakes do not overflow a word.\<close>

lemma unat_sum_stakes:
  fixes f :: "nat \<Rightarrow> uint256"
  assumes "\<And>i. unat (f i) < 2 ^ 128" "n \<le> 100"
  shows "unat (\<Sum>i<n. f i) = (\<Sum>i<n. unat (f i)) \<and> (\<Sum>i<n. unat (f i)) \<le> n * 2 ^ 128"
  using assms(2)
proof (induction n)
  case (Suc n)
  then have IH: "unat (\<Sum>i<n. f i) = (\<Sum>i<n. unat (f i))" "(\<Sum>i<n. unat (f i)) \<le> n * 2 ^ 128" by auto
  have le: "(\<Sum>i<n. unat (f i)) + unat (f n) \<le> Suc n * 2 ^ 128" using IH(2) assms(1) [of n] by simp
  also have "\<dots> \<le> 100 * 2 ^ 128" using Suc.prems by (intro mult_right_mono) auto
  finally have "(\<Sum>i<n. unat (f i)) + unat (f n) < 2 ^ 256" by simp
  then show ?case using IH le by (simp add: unat_word_ariths)
qed simp

lemma unat_voted:
  assumes "n \<le> 100" "\<And>i. i < n \<Longrightarrow> stake_at packed i = ucast (ss ! i :: 128 word)"
  shows "unat (voted_for packed aps 0 n 0) = (\<Sum>i<n. if aps ! i \<noteq> None then unat (ss ! i) else 0)"
proof -
  let ?f = "\<lambda>i. if aps ! i \<noteq> None then ucast (ss ! i :: 128 word) else (0 :: uint256)"
  have "voted_for packed aps 0 n 0 = (\<Sum>i<n. ?f i)"
    using assms(2) by (auto simp: voted_for_sum atLeast0LessThan intro!: sum.cong)
  moreover have "unat (\<Sum>i<n. ?f i) = (\<Sum>i<n. unat (?f i))"
    using unat_sum_stakes [of ?f n] assms(1) stake_less by (auto simp: unat_ucast_stake)
  ultimately show ?thesis by (auto simp: unat_ucast_stake intro!: sum.cong)
qed

section \<open>The refinement\<close>

definition stakes_of :: "sol_block_producer list \<Rightarrow> nat list" where
  "stakes_of src = map (\<lambda>b. unat (bp_stake b)) src"

lemma set_threshold:
  assumes "setBlockProducers src e = Inr e'" "length (ep_packedStakes e) = 50"
  shows "length src \<le> 100 \<and> ep_numBPs e' = length src \<and> (\<forall>i < length src. stake_at (ep_packedStakes e') i = ucast (bp_stake (src ! i)))
    \<and> unat (ep_stakeThreshold e') = 2 * sum_list (stakes_of src) div 3
    \<and> ep_keys e' = map bp_publicKey src @ drop (length src) (ep_keys e) \<and> ep_epochId e' = ep_epochId e
    \<and> length (ep_packedStakes e') = 50"
proof -
  let ?ss = "map bp_stake src"
  obtain p t where st: "store_stakes ?ss 0 (ep_packedStakes e) 0 = (p, t)" by fastforce
  have len: "length src \<le> 100" using assms(1) by (auto simp: setBlockProducers_def MAX_BLOCK_PRODUCERS_def res_bind_eq_Inr_iff)
  have e': "e' = e\<lparr>ep_numBPs := length src, ep_keys := map bp_publicKey src @ drop (length src) (ep_keys e),
      ep_packedStakes := p, ep_stakeThreshold := t * 2 div 3\<rparr>"
    using assms(1) st by (auto simp: setBlockProducers_def res_bind_eq_Inr_iff)
  have ok: "length p = 50" "\<forall>i < length src. stake_at p i = ucast (bp_stake (src ! i))" "t = sum_list (map ucast ?ss)"
    using store_stakes_ok [OF st] len assms(2) by auto
  have "t = (\<Sum>i<length src. ucast (?ss ! i))"
    using ok(3) by (simp add: sum_list_sum_nth atLeast0LessThan)
  moreover have "unat (\<Sum>i<length src. ucast (?ss ! i) :: uint256) = (\<Sum>i<length src. unat (?ss ! i))
      \<and> (\<Sum>i<length src. unat (?ss ! i)) \<le> length src * 2 ^ 128"
    using unat_sum_stakes [of "\<lambda>i. ucast (?ss ! i)" "length src"] len stake_less by (auto simp: unat_ucast_stake)
  moreover have "(\<Sum>i<length src. unat (?ss ! i)) = sum_list (stakes_of src)"
    by (simp add: stakes_of_def sum_list_sum_nth atLeast0LessThan)
  ultimately have t: "unat t = sum_list (stakes_of src)" "unat t \<le> length src * 2 ^ 128" by simp_all
  have "length src * 2 ^ 128 \<le> 100 * (2 ^ 128 :: nat)" using len by (intro mult_right_mono) auto
  with t(2) have "unat t * 2 < 2 ^ 256" by simp
  then have "unat (t * 2 div 3) = 2 * sum_list (stakes_of src) div 3"
    by (simp add: unat_div_distrib unat_word_ariths t(1) mult.commute)
  then show ?thesis using len ok e' by simp
qed

lemma quorum_iff:
  assumes "setBlockProducers src e = Inr e'" "length (ep_packedStakes e) = 50" "length src \<le> length approvals"
  shows "ep_stakeThreshold e' < voted_for (ep_packedStakes e') approvals 0 (ep_numBPs e') 0
    \<longleftrightarrow> quorum (stakes_of src) (map (\<lambda>a. a \<noteq> None) approvals)"
proof -
  note th = set_threshold [OF assms(1,2)]
  have "unat (voted_for (ep_packedStakes e') approvals 0 (length src) 0)
      = (\<Sum>i<length src. if approvals ! i \<noteq> None then unat (map bp_stake src ! i) else 0)"
    using th by (intro unat_voted) auto
  also have "\<dots> = stake_sum (stakes_of src) (map (\<lambda>a. a \<noteq> None) approvals)"
    using assms(3) by (auto simp: stake_sum_def stakes_of_def intro!: sum.cong)
  finally have v: "unat (voted_for (ep_packedStakes e') approvals 0 (length src) 0)
      = stake_sum (stakes_of src) (map (\<lambda>a. a \<noteq> None) approvals)" .
  have "2 * s div 3 < v \<longleftrightarrow> 2 * s < 3 * v" for s v :: nat by linarith
  then show ?thesis using th v by (simp add: word_less_nat_alt quorum_def)
qed

text \<open>
  C3. The contract's check of the approvals implements the abstract quorum: for an epoch set up with any
  block producers, the packed, wrapping sum of the stakes that approve exceeds the stored threshold exactly
  when the stakes that approve are more than two thirds of all the stakes. Neither packing, nor overflow, nor
  the rounding of the threshold makes a difference.
\<close>

theorem quorum_refinement:
  assumes "setBlockProducers src e = Inr e'" "length (ep_packedStakes e) = 50" "length src \<le> length approvals"
  shows "ep_stakeThreshold e' < voted_for (ep_packedStakes e') approvals 0 (ep_numBPs e') 0
    \<longleftrightarrow> quorum (stakes_of src) (map (\<lambda>a. a \<noteq> None) approvals)"
  using quorum_iff [OF assms] .

definition demo_producers :: "sol_block_producer list" where
  "demo_producers = map (\<lambda>n. \<lparr>bp_publicKey = zero_bytes32, bp_stake = n, bp_isChunkOnly = False\<rparr>) [40, 40, 20]"

theorem quorum_refinement_witness:
  "\<exists>e'. setBlockProducers demo_producers empty_epoch = Inr e'
    \<and> ep_stakeThreshold e' < voted_for (ep_packedStakes e') [Some (), Some (), None] 0 (ep_numBPs e') 0
    \<and> \<not> ep_stakeThreshold e' < voted_for (ep_packedStakes e') [Some (), None, Some ()] 0 (ep_numBPs e') 0"
proof -
  obtain e' where e': "setBlockProducers demo_producers empty_epoch = Inr e'"
    by (auto simp: setBlockProducers_def demo_producers_def MAX_BLOCK_PRODUCERS_def split: prod.splits)
  have "length (ep_packedStakes empty_epoch) = 50" by (simp add: empty_epoch_def MAX_BLOCK_PRODUCERS_def)
  note q = quorum_refinement [OF e' this, where 'a = unit]
  have "ep_stakeThreshold e' < voted_for (ep_packedStakes e') [Some (), Some (), None] 0 (ep_numBPs e') 0"
    by (subst q) (simp_all add: demo_producers_def quorum_def stakes_of_def stake_sum_def)
  moreover have "\<not> ep_stakeThreshold e' < voted_for (ep_packedStakes e') [Some (), None, Some ()] 0 (ep_numBPs e') 0"
    by (subst q) (simp_all add: demo_producers_def quorum_def stakes_of_def stake_sum_def)
  ultimately show ?thesis using e' by blast
qed

end
