(* ===== verification/Bridge_Safety.thy ===== *)
theory Bridge_Safety
  imports Bridge_Accepts Bridge_Quorum
begin

text \<open>
  What the light client contract guarantees over any sequence of transactions: the stakes it holds are
  covered, the stake behind a block that can still be challenged is there, heights grow, and a block hash
  that was confirmed once is never changed.

  The locale \<open>storage_invariant\<close> is the contract between an invariant and the transactions; each invariant
  of this theory is an interpretation of it.
\<close>

locale storage_invariant =
  fixes sha :: "bytes \<Rightarrow> bytes" and ed :: edcheck and I :: "uint256 \<Rightarrow> nearbridge \<Rightarrow> bool"
  assumes deployed_ok: "bridge_constructor lock dur rep adm flags = Inr s \<Longrightarrow> I t s"
    and pass_ok: "I t s \<Longrightarrow> t \<le> t' \<Longrightarrow> I t' s"
    and call_ok: "I t s \<Longrightarrow> t = tx_now tx \<Longrightarrow> t < 2 ^ 64 \<Longrightarrow> bridge_exec sha ed tx c s = Inr s' \<Longrightarrow> I t s'"
begin

lemma step_keeps: "bridge_step sha ed c c' \<Longrightarrow> I (fst c) (snd c) \<Longrightarrow> I (fst c') (snd c')"
  by (induction rule: bridge_step.induct) (auto intro: call_ok pass_ok)

lemma reach_holds: "bridge_reach sha ed c \<Longrightarrow> I (fst c) (snd c)"
  by (induction rule: bridge_reach.induct) (auto intro: deployed_ok step_keeps)

end

section \<open>The stakes\<close>

definition stakes_ok :: "uint256 \<Rightarrow> nearbridge \<Rightarrow> bool" where
  "stakes_ok t s \<longleftrightarrow> (\<forall>a. nb_balanceOf s a = 0 \<or> nb_balanceOf s a = nb_lockEthAmount s)
     \<and> (\<Sum>a\<in>UNIV. unat (nb_balanceOf s a)) \<le> nb_ether s
     \<and> (t < nb_lastValidAt s \<longrightarrow> nb_balanceOf s (nb_lastSubmitter s) = nb_lockEthAmount s)"

lemma sum_balance_upd:
  fixes f :: "eth_address \<Rightarrow> uint256"
  shows "(\<Sum>b\<in>UNIV. unat ((f(a := v)) b)) + unat (f a) = (\<Sum>b\<in>UNIV. unat (f b)) + unat v"
proof -
  have "(\<Sum>b\<in>UNIV. unat ((f(a := v)) b)) = unat v + (\<Sum>b\<in>UNIV - {a}. unat (f b))"
    by (subst sum.remove [of UNIV a]) (auto intro!: sum.cong)
  moreover have "(\<Sum>b\<in>UNIV. unat (f b)) = unat (f a) + (\<Sum>b\<in>UNIV - {a}. unat (f b))"
    by (rule sum.remove) auto
  ultimately show ?thesis by simp
qed

lemmas bridge_op_defs = bridge_deposit_def bridge_withdraw_def bridge_challenge_def initWithValidators_def initWithBlock_def
  addLightClientBlock_def add_block_def commit_previous_def transfer_def Let_def

text \<open>What the transactions leave alone.\<close>

lemma init_frame:
  assumes "initWithValidators tx data s = Inr s'"
  shows "\<exists>eps. s' = s\<lparr>nb_epochs := eps\<rparr>"
  using assms by (auto simp: initWithValidators_def res_bind_eq_Inr_iff)

lemma initBlock_frame:
  assumes "initWithBlock sha tx data s = Inr s'"
  shows "\<exists>h x r eps. \<not> nb_initialized s \<and> s' = s\<lparr>nb_initialized := True, nb_curHeight := h, nb_epochs := eps,
    nb_blockHashes := (nb_blockHashes s)(h := x), nb_blockMerkleRoots := (nb_blockMerkleRoots s)(h := r)\<rparr>"
  using assms by (auto simp: initWithBlock_def res_bind_eq_Inr_iff Let_def)

text \<open>A block is added to the storage after the previous one was committed or may be replaced.\<close>

lemma addBlock_elim:
  assumes "addLightClientBlock sha tx data s0 = Inr s'"
  obtains s b ne eps where "nb_initialized s0" "nb_lockEthAmount s0 \<le> nb_balanceOf s0 (tx_sender tx)"
    "commit_previous (tx_now tx) (sil_timestamp (slb_inner_lite b)) s0 = Inr s"
    "nb_curHeight s < sil_height (slb_inner_lite b)" "from_next_epoch s (sil_epoch_id (slb_inner_lite b)) = Inr ne"
    "check_block b ne (nb_epochs s ! (if ne then next_epoch_index s else nb_curEpoch s)) = Inr ()"
    "next_producers b ne s = Inr eps"
    "s' = set_untrusted tx b ne (store_signatures 0 (take (ep_numBPs (nb_epochs s ! (if ne then next_epoch_index s else nb_curEpoch s)))
       (slb_approvals_after_next b)) 0 (nb_untrustedSignatures s)) eps s"
proof -
  obtain b where b: "nb_initialized s0" "nb_lockEthAmount s0 \<le> nb_balanceOf s0 (tx_sender tx)" "add_block tx b s0 = Inr s'"
    using assms by (auto simp: addLightClientBlock_def res_bind_eq_Inr_iff)
  from b(3) obtain s ne u eps where "commit_previous (tx_now tx) (sil_timestamp (slb_inner_lite b)) s0 = Inr s"
    "nb_curHeight s < sil_height (slb_inner_lite b)" "from_next_epoch s (sil_epoch_id (slb_inner_lite b)) = Inr ne"
    "check_block b ne (nb_epochs s ! (if ne then next_epoch_index s else nb_curEpoch s)) = Inr u"
    "next_producers b ne s = Inr eps"
    "s' = set_untrusted tx b ne (store_signatures 0 (take (ep_numBPs (nb_epochs s ! (if ne then next_epoch_index s else nb_curEpoch s)))
       (slb_approvals_after_next b)) 0 (nb_untrustedSignatures s)) eps s"
    unfolding add_block_def Let_def res_bind_eq_Inr_iff require_Inr by blast
  moreover have "u = ()" by simp
  ultimately show thesis using that b(1,2) by blast
qed

lemma addBlock_frame:
  assumes "addLightClientBlock sha tx data s0 = Inr s'"
  shows "\<exists>s b ne sg eps. commit_previous (tx_now tx) (sil_timestamp (slb_inner_lite b)) s0 = Inr s \<and> nb_initialized s0
    \<and> nb_lockEthAmount s0 \<le> nb_balanceOf s0 (tx_sender tx) \<and> nb_curHeight s < sil_height (slb_inner_lite b)
    \<and> s' = set_untrusted tx b ne sg eps s"
  using assms by (rule addBlock_elim) blast

lemma set_untrusted_simps [simp]:
  "nb_curHeight (set_untrusted tx b ne sg eps s) = nb_curHeight s"
  "nb_lastValidAt (set_untrusted tx b ne sg eps s) = tx_now tx + nb_lockDuration s"
  "nb_untrustedHeight (set_untrusted tx b ne sg eps s) = sil_height (slb_inner_lite b)"
  "nb_untrustedHash (set_untrusted tx b ne sg eps s) = slb_hash b"
  "nb_untrustedMerkleRoot (set_untrusted tx b ne sg eps s) = sil_block_merkle_root (slb_inner_lite b)"
  "nb_blockHashes (set_untrusted tx b ne sg eps s) = nb_blockHashes s"
  "nb_blockMerkleRoots (set_untrusted tx b ne sg eps s) = nb_blockMerkleRoots s"
  "nb_balanceOf (set_untrusted tx b ne sg eps s) = nb_balanceOf s"
  "nb_lockEthAmount (set_untrusted tx b ne sg eps s) = nb_lockEthAmount s"
  "nb_lastSubmitter (set_untrusted tx b ne sg eps s) = tx_sender tx"
  "nb_ether (set_untrusted tx b ne sg eps s) = nb_ether s"
  "nb_initialized (set_untrusted tx b ne sg eps s) = nb_initialized s"
  by (simp_all add: set_untrusted_def Let_def)

lemma commit_frame:
  assumes "commit_previous now ts s = Inr s'"
  shows "(s' = s \<and> (now < nb_lastValidAt s \<or> nb_lastValidAt s = 0))
    \<or> (nb_lastValidAt s \<le> now \<and> nb_lastValidAt s \<noteq> 0 \<and> s' = commit_block s)"
  using assms by (auto simp: commit_previous_def res_bind_eq_Inr_iff split: if_splits)

lemma commit_block_simps [simp]:
  "nb_curHeight (commit_block s) = nb_untrustedHeight s" "nb_lastValidAt (commit_block s) = 0"
  "nb_blockHashes (commit_block s) = (nb_blockHashes s)(nb_untrustedHeight s := nb_untrustedHash s)"
  "nb_blockMerkleRoots (commit_block s) = (nb_blockMerkleRoots s)(nb_untrustedHeight s := nb_untrustedMerkleRoot s)"
  "nb_balanceOf (commit_block s) = nb_balanceOf s" "nb_lockEthAmount (commit_block s) = nb_lockEthAmount s"
  "nb_ether (commit_block s) = nb_ether s" "nb_initialized (commit_block s) = nb_initialized s"
  "nb_lockDuration (commit_block s) = nb_lockDuration s" "nb_replaceDuration (commit_block s) = nb_replaceDuration s"
  "nb_epochs (commit_block s) = nb_epochs s" "nb_untrustedSignatures (commit_block s) = nb_untrustedSignatures s"
  by (simp_all add: commit_block_def)

lemma deposit_stakes: "stakes_ok (tx_now tx) s \<Longrightarrow> bridge_deposit tx s = Inr s' \<Longrightarrow> stakes_ok (tx_now tx) s'"
  using sum_balance_upd [of "nb_balanceOf s" "tx_sender tx" "tx_value tx"]
  by (auto simp: stakes_ok_def bridge_deposit_def res_bind_eq_Inr_iff) blast+

lemma withdraw_stakes: "stakes_ok (tx_now tx) s \<Longrightarrow> bridge_withdraw tx s = Inr s' \<Longrightarrow> stakes_ok (tx_now tx) s'"
  using sum_balance_upd [of "nb_balanceOf s" "tx_sender tx" 0]
  by (auto simp: stakes_ok_def bridge_withdraw_def transfer_def Let_def res_bind_eq_Inr_iff) blast+

lemma challenge_stakes:
  assumes "stakes_ok (tx_now tx) s" "bridge_challenge ed tx rcv i s = Inr s'"
  shows "stakes_ok (tx_now tx) s'"
proof -
  let ?sub = "nb_lastSubmitter s"
  have now: "tx_now tx < nb_lastValidAt s"
    and le: "unat (nb_lockEthAmount s) div 2 \<le> nb_ether s"
    and s': "s' = s\<lparr>nb_balanceOf := (nb_balanceOf s)(?sub := nb_balanceOf s ?sub - nb_lockEthAmount s),
      nb_ether := nb_ether s - unat (nb_lockEthAmount s) div 2, nb_lastValidAt := 0\<rparr>"
    using assms(2) by (auto simp: bridge_challenge_def transfer_def Let_def res_bind_eq_Inr_iff)
  have "nb_balanceOf s ?sub = nb_lockEthAmount s" using assms(1) now by (simp add: stakes_ok_def)
  then show ?thesis
    using assms(1) le sum_balance_upd [of "nb_balanceOf s" ?sub 0] by (auto simp: stakes_ok_def s')
qed

lemma addBlock_stakes:
  assumes "stakes_ok (tx_now tx) s" "addLightClientBlock sha tx data s = Inr s'"
  shows "stakes_ok (tx_now tx) s'"
proof -
  have "nb_lockEthAmount s \<le> nb_balanceOf s (tx_sender tx)" using addBlock_frame [OF assms(2)] by blast
  moreover have "nb_balanceOf s (tx_sender tx) = 0 \<or> nb_balanceOf s (tx_sender tx) = nb_lockEthAmount s"
    using assms(1) by (simp add: stakes_ok_def)
  ultimately have "nb_balanceOf s (tx_sender tx) = nb_lockEthAmount s" by auto
  then show ?thesis
    using assms(1) addBlock_frame [OF assms(2)] by (auto simp: stakes_ok_def dest!: commit_frame)
qed

lemma admin_stakes:
  "stakes_ok t s \<Longrightarrow> res_bind (nonpayable tx) (\<lambda>_. res_bind (onlyAdmin tx s) (\<lambda>_. Inr (s\<lparr>nb_paused := flags\<rparr>))) = Inr s' \<Longrightarrow> stakes_ok t s'"
  "stakes_ok t s \<Longrightarrow> res_bind (onlyAdmin tx s) (\<lambda>_. Inr (s\<lparr>nb_ether := nb_ether s + v\<rparr>)) = Inr s' \<Longrightarrow> stakes_ok t s'"
  by (auto simp: stakes_ok_def res_bind_eq_Inr_iff)

interpretation stakes: storage_invariant sha ed stakes_ok for sha ed
proof
  fix lock dur rep adm flags s t
  assume "bridge_constructor lock dur rep adm flags = Inr s"
  then show "stakes_ok t s" by (auto simp: bridge_constructor_def stakes_ok_def res_bind_eq_Inr_iff)
next
  fix t tx c s s'
  assume *: "stakes_ok t s" "t = tx_now tx" "bridge_exec sha ed tx c s = Inr s'"
  show "stakes_ok t s'"
  proof (cases c)
    case (InitWithValidators data)
    with * init_frame [of tx data s s'] show ?thesis by (auto simp: stakes_ok_def)
  next
    case (InitWithBlock data)
    with * initBlock_frame [of sha tx data s s'] show ?thesis by (auto simp: stakes_ok_def)
  next
    case (Challenge rcv i)
    with * challenge_stakes [of tx s ed rcv i s'] show ?thesis by simp
  next
    case (AddLightClientBlock data)
    with * addBlock_stakes [of tx s sha data s'] show ?thesis by simp
  next
    case (AdminPause flags)
    with * admin_stakes(1) [of t s tx flags s'] show ?thesis by simp
  next
    case AdminReceiveEth
    with * admin_stakes(2) [of t s tx "unat (tx_value tx)" s'] show ?thesis by simp
  qed (use * deposit_stakes [of tx s s'] withdraw_stakes [of tx s s'] in simp_all)
qed (auto simp: stakes_ok_def)

section \<open>The chain of confirmed blocks\<close>

definition chain_ok :: "uint256 \<Rightarrow> nearbridge \<Rightarrow> bool" where
  "chain_ok t s \<longleftrightarrow> (nb_lastValidAt s \<noteq> 0 \<longrightarrow> nb_initialized s \<and> nb_curHeight s < nb_untrustedHeight s)
     \<and> (\<forall>h > nb_curHeight s. nb_blockHashes s h = zero_bytes32 \<and> nb_blockMerkleRoots s h = zero_bytes32)
     \<and> (\<not> nb_initialized s \<longrightarrow> (\<forall>h. nb_blockHashes s h = zero_bytes32 \<and> nb_blockMerkleRoots s h = zero_bytes32))"

lemma addBlock_chain:
  assumes "chain_ok t s" "addLightClientBlock sha tx data s = Inr s'"
  shows "chain_ok t s'"
  using assms(1) addBlock_frame [OF assms(2)]
  by (auto simp: chain_ok_def dest!: commit_frame)

lemma other_chain:
  "chain_ok t s \<Longrightarrow> bridge_deposit tx s = Inr s' \<Longrightarrow> chain_ok t s'"
  "chain_ok t s \<Longrightarrow> bridge_withdraw tx s = Inr s' \<Longrightarrow> chain_ok t s'"
  "chain_ok t s \<Longrightarrow> bridge_challenge ed tx rcv i s = Inr s' \<Longrightarrow> chain_ok t s'"
  "chain_ok t s \<Longrightarrow> initWithValidators tx data s = Inr s' \<Longrightarrow> chain_ok t s'"
  "chain_ok t s \<Longrightarrow> initWithBlock sha tx data s = Inr s' \<Longrightarrow> chain_ok t s'"
  by (auto simp: chain_ok_def bridge_deposit_def bridge_withdraw_def bridge_challenge_def transfer_def Let_def
      res_bind_eq_Inr_iff dest!: init_frame initBlock_frame)

lemma admin_chain:
  "chain_ok t s \<Longrightarrow> res_bind (nonpayable tx) (\<lambda>_. res_bind (onlyAdmin tx s) (\<lambda>_. Inr (s\<lparr>nb_paused := flags\<rparr>))) = Inr s' \<Longrightarrow> chain_ok t s'"
  "chain_ok t s \<Longrightarrow> res_bind (onlyAdmin tx s) (\<lambda>_. Inr (s\<lparr>nb_ether := nb_ether s + v\<rparr>)) = Inr s' \<Longrightarrow> chain_ok t s'"
  by (auto simp: chain_ok_def res_bind_eq_Inr_iff)

interpretation chain: storage_invariant sha ed chain_ok for sha ed
proof
  fix lock dur rep adm flags s t
  assume "bridge_constructor lock dur rep adm flags = Inr s"
  then show "chain_ok t s" by (auto simp: bridge_constructor_def chain_ok_def res_bind_eq_Inr_iff)
next
  fix t tx c s s'
  assume *: "chain_ok t s" "bridge_exec sha ed tx c s = Inr s'"
  show "chain_ok t s'"
  proof (cases c)
    case (InitWithValidators data)
    with * other_chain(4) [of t s tx data s'] show ?thesis by simp
  next
    case (InitWithBlock data)
    with * other_chain(5) [of t s sha tx data s'] show ?thesis by simp
  next
    case (Challenge rcv i)
    with * other_chain(3) [of t s ed tx rcv i s'] show ?thesis by simp
  next
    case (AddLightClientBlock data)
    with * addBlock_chain [of t s sha tx data s'] show ?thesis by simp
  next
    case (AdminPause flags)
    with * admin_chain(1) [of t s tx flags s'] show ?thesis by simp
  next
    case AdminReceiveEth
    with * admin_chain(2) [of t s tx "unat (tx_value tx)" s'] show ?thesis by simp
  qed (use * other_chain(1,2) [of t s tx s'] in simp_all)
qed (auto simp: chain_ok_def)

section \<open>Confirmed blocks are final\<close>

definition same_chain :: "nearbridge \<Rightarrow> nearbridge \<Rightarrow> bool" where
  "same_chain s s' \<longleftrightarrow> nb_blockHashes s' = nb_blockHashes s \<and> nb_blockMerkleRoots s' = nb_blockMerkleRoots s
     \<and> nb_untrustedHeight s' = nb_untrustedHeight s \<and> nb_untrustedHash s' = nb_untrustedHash s
     \<and> nb_untrustedMerkleRoot s' = nb_untrustedMerkleRoot s \<and> nb_lastValidAt s' = nb_lastValidAt s
     \<and> nb_curHeight s' = nb_curHeight s \<and> nb_initialized s' = nb_initialized s"

lemma exec_same_chain:
  assumes "bridge_exec sha ed tx c s = Inr s'"
  shows "same_chain s s' \<or> (\<exists>rcv i. c = Challenge rcv i) \<or> (\<exists>data. c = InitWithBlock data) \<or> (\<exists>data. c = AddLightClientBlock data)"
proof (cases c)
  case (InitWithValidators data)
  with assms init_frame [of tx data s s'] show ?thesis by (auto simp: same_chain_def)
qed (use assms in \<open>auto simp: same_chain_def bridge_deposit_def bridge_withdraw_def transfer_def Let_def res_bind_eq_Inr_iff\<close>)

text \<open>
  The two mappings of the contract are treated alike: \<open>st\<close> is the stored mapping and \<open>pe\<close> the value of the
  pending block.
\<close>

definition chain_view :: "(nearbridge \<Rightarrow> 64 word \<Rightarrow> bytes) \<Rightarrow> (nearbridge \<Rightarrow> bytes) \<Rightarrow> bool" where
  "chain_view st pe \<longleftrightarrow> (st = nb_blockHashes \<and> pe = nb_untrustedHash) \<or> (st = nb_blockMerkleRoots \<and> pe = nb_untrustedMerkleRoot)"

text \<open>A height is settled when the block there is committed, or is the pending one and its challenge period is over.\<close>

definition height_settled :: "uint256 \<Rightarrow> nearbridge \<Rightarrow> 64 word \<Rightarrow> bool" where
  "height_settled t s h \<longleftrightarrow> (nb_initialized s \<and> h \<le> nb_curHeight s)
     \<or> (nb_lastValidAt s \<le> t \<and> nb_lastValidAt s \<noteq> 0 \<and> h = nb_untrustedHeight s)"

lemma confirmed_settled:
  assumes "chain_view st pe" "chain_ok t s" "confirmed t s (st s) (pe s) h \<noteq> zero_bytes32"
  shows "height_settled t s h"
proof (rule ccontr)
  assume "\<not> height_settled t s h"
  then have "\<not> nb_initialized s \<or> nb_curHeight s < h" "\<not> (nb_lastValidAt s \<le> t \<and> nb_lastValidAt s \<noteq> 0 \<and> h = nb_untrustedHeight s)"
    by (auto simp: height_settled_def)
  with assms show False by (auto simp: chain_ok_def chain_view_def confirmed_def split: if_splits)
qed

lemma settled_exec:
  assumes v: "chain_view st pe" and inv: "chain_ok t s" and now: "t \<le> tx_now tx"
    and ex: "bridge_exec sha ed tx c s = Inr s'" and h: "height_settled t s h"
  shows "confirmed (tx_now tx) s' (st s') (pe s') h = confirmed t s (st s) (pe s) h \<and> height_settled (tx_now tx) s' h"
proof -
  consider (same) "same_chain s s'" | (challenge) rcv i where "c = Challenge rcv i"
    | (init) data where "c = InitWithBlock data" | (add) data where "c = AddLightClientBlock data"
    using exec_same_chain [OF ex] by blast
  then show ?thesis
  proof cases
    case same
    with v inv h now show ?thesis by (auto simp: same_chain_def chain_view_def chain_ok_def confirmed_def height_settled_def)
  next
    case challenge
    with ex have "tx_now tx < nb_lastValidAt s" "nb_lastValidAt s' = 0" "nb_blockHashes s' = nb_blockHashes s"
      "nb_blockMerkleRoots s' = nb_blockMerkleRoots s" "nb_curHeight s' = nb_curHeight s" "nb_initialized s' = nb_initialized s"
      by (auto simp: bridge_challenge_def transfer_def Let_def res_bind_eq_Inr_iff)
    with v h now show ?thesis by (auto simp: chain_view_def confirmed_def height_settled_def)
  next
    case init
    with ex initBlock_frame [of sha tx data s s'] have "\<not> nb_initialized s" by auto
    with inv h show ?thesis by (auto simp: chain_ok_def height_settled_def)
  next
    case add
    with ex obtain s1 b ne sg eps where
      c: "commit_previous (tx_now tx) (sil_timestamp (slb_inner_lite b)) s = Inr s1" "nb_curHeight s1 < sil_height (slb_inner_lite b)"
        "nb_initialized s" and s': "s' = set_untrusted tx b ne sg eps s1"
      using addBlock_frame [of sha tx data s s'] by auto
    have "st s1 h = confirmed t s (st s) (pe s) h \<and> h \<le> nb_curHeight s1 \<and> nb_initialized s1"
      using commit_frame [OF c(1)]
    proof
      assume "s1 = s \<and> (tx_now tx < nb_lastValidAt s \<or> nb_lastValidAt s = 0)"
      with c(3) h now show ?thesis by (auto simp: confirmed_def height_settled_def)
    next
      assume "nb_lastValidAt s \<le> tx_now tx \<and> nb_lastValidAt s \<noteq> 0 \<and> s1 = commit_block s"
      with inv v h c(3) show ?thesis by (auto simp: chain_ok_def chain_view_def confirmed_def height_settled_def)
    qed
    moreover have "st s' = st s1" using v by (auto simp: s' chain_view_def)
    ultimately show ?thesis using c(2) by (auto simp: s' confirmed_def height_settled_def)
  qed
qed

lemma settled_step:
  assumes "bridge_step sha ed c c'" "chain_view st pe" "chain_ok (fst c) (snd c)" "height_settled (fst c) (snd c) h"
  shows "confirmed (fst c') (snd c') (st (snd c')) (pe (snd c')) h = confirmed (fst c) (snd c) (st (snd c)) (pe (snd c)) h
    \<and> height_settled (fst c') (snd c') h"
  using assms
proof (induction rule: bridge_step.induct)
  case (pass t t' s)
  then show ?case by (auto simp: confirmed_def height_settled_def chain_ok_def)
next
  case (call t tx c s s')
  then show ?case using settled_exec [of st pe t s tx sha ed c s' h] by simp
qed

text \<open>What the client reads at a settled height never changes, zero or not.\<close>

lemma settled_steps:
  assumes "(bridge_step sha ed)\<^sup>*\<^sup>* c c'" "chain_view st pe" "chain_ok (fst c) (snd c)" "height_settled (fst c) (snd c) h"
  shows "confirmed (fst c') (snd c') (st (snd c')) (pe (snd c')) h = confirmed (fst c) (snd c) (st (snd c)) (pe (snd c)) h
    \<and> height_settled (fst c') (snd c') h \<and> chain_ok (fst c') (snd c')"
  using assms
proof (induction rule: rtranclp_induct)
  case (step y z)
  then show ?case using settled_step [OF step.hyps(2) step.prems(1), of h] chain.step_keeps [OF step.hyps(2)] by simp
qed simp

text \<open>
  C2. A block the light client has confirmed is final: if a call of \<^verbatim>\<open>blockHashes\<close> (or \<^verbatim>\<open>blockMerkleRoots\<close>) in a
  reachable state returns a hash that is not zero, then every later call for the same height, after any
  transactions, returns the same hash, unless the function is paused for the caller.
\<close>

theorem confirmed_hash_final:
  assumes "bridge_reach sha ed (tx_now tx, s)" "(bridge_step sha ed)\<^sup>*\<^sup>* (tx_now tx, s) (tx_now tx', s')"
  shows "(blockHashes tx s h = Inr x \<and> x \<noteq> zero_bytes32 \<and> blockHashes tx' s' h = Inr y \<longrightarrow> y = x)
    \<and> (blockMerkleRoots tx s h = Inr r \<and> r \<noteq> zero_bytes32 \<and> blockMerkleRoots tx' s' h = Inr q \<longrightarrow> q = r)"
proof -
  have inv: "chain_ok (tx_now tx) s" using chain.reach_holds [OF assms(1)] by simp
  note final = settled_steps [OF assms(2), simplified fst_conv snd_conv, OF _ inv] confirmed_settled [OF _ inv]
  show ?thesis
    using final [of nb_blockHashes nb_untrustedHash h] final [of nb_blockMerkleRoots nb_untrustedMerkleRoot h]
    by (auto simp: blockHashes_def blockMerkleRoots_def chain_view_def res_bind_eq_Inr_iff)
qed

section \<open>A wrong signature can be challenged\<close>

text \<open>
  As long as a pending block can be challenged the stake of its submitter is in the contract: in a
  reachable state, before the end of the challenge period, a challenge of a signature that does not check
  is never refused for lack of stake or of ether. It takes the whole stake of the submitter, removes the
  pending block, and pays half of the stake out.
\<close>

lemma challenge_works:
  assumes "bridge_reach sha ed (tx_now tx, s)" "tx_now tx < nb_lastValidAt s"
    and "checkBlockProducerSignatureInHead ed i s = Inr False"
    and "tx_value tx = 0" "nb_paused s AND 8 = 0" "tx_accepts tx"
  shows "\<exists>s'. bridge_challenge ed tx rcv i s = Inr s' \<and> nb_lastValidAt s' = 0
    \<and> nb_balanceOf s (nb_lastSubmitter s) = nb_lockEthAmount s \<and> nb_balanceOf s' (nb_lastSubmitter s) = 0
    \<and> nb_ether s' + unat (nb_lockEthAmount s) div 2 = nb_ether s
    \<and> (\<Sum>a\<in>UNIV. unat (nb_balanceOf s' a)) + unat (nb_lockEthAmount s) \<le> nb_ether s"
proof -
  have "stakes_ok (tx_now tx) s" using stakes.reach_holds [OF assms(1)] by simp
  with assms(2) have bal: "nb_balanceOf s (nb_lastSubmitter s) = nb_lockEthAmount s"
    and sum: "(\<Sum>a\<in>UNIV. unat (nb_balanceOf s a)) \<le> nb_ether s" by (auto simp: stakes_ok_def)
  let ?f = "(nb_balanceOf s)(nb_lastSubmitter s := 0)"
  have upd: "(\<Sum>b\<in>UNIV. unat (?f b)) + unat (nb_lockEthAmount s) = (\<Sum>b\<in>UNIV. unat (nb_balanceOf s b))"
    using sum_balance_upd [of "nb_balanceOf s" "nb_lastSubmitter s" 0] bal by simp
  have "unat (nb_lockEthAmount s) div 2 \<le> nb_ether s" using upd sum by linarith
  then show ?thesis
    using assms(2-6) bal upd sum
    by (simp add: bridge_challenge_def transfer_def Let_def nonpayable_def pausable_def fun_upd_same del: fun_upd_apply)
qed

section \<open>The shape of the storage\<close>

definition epoch_ok :: "epoch \<Rightarrow> bool" where
  "epoch_ok e \<longleftrightarrow> length (ep_keys e) = MAX_BLOCK_PRODUCERS \<and> length (ep_packedStakes e) = 50 \<and> ep_numBPs e \<le> MAX_BLOCK_PRODUCERS"

definition shape_ok :: "uint256 \<Rightarrow> nearbridge \<Rightarrow> bool" where
  "shape_ok t s \<longleftrightarrow> length (nb_epochs s) = 3 \<and> nb_curEpoch s < 3 \<and> list_all epoch_ok (nb_epochs s)
     \<and> length (nb_untrustedSignatures s) = MAX_BLOCK_PRODUCERS
     \<and> (nb_lastValidAt s \<noteq> 0 \<longrightarrow> (\<forall>i. bit (nb_untrustedSignatureSet s) i \<longrightarrow> i < ep_numBPs (untrusted_epoch s)))
     \<and> unat (nb_lockDuration s) * 1000000000 < unat (nb_replaceDuration s)"

lemma store_signatures_bits:
  "bit (fst (store_signatures i aps st sg)) n \<longleftrightarrow> bit st n \<or> (i \<le> n \<and> n < i + length aps \<and> n < 256 \<and> aps ! (n - i) \<noteq> None)"
proof (induction i aps st sg rule: store_signatures.induct)
  case (2 i aps st sg)
  have "(None # aps) ! (n - i) = aps ! (n - Suc i)" if "Suc i \<le> n" using that by (simp add: Suc_diff_le [symmetric] nth_Cons')
  with 2 show ?case by (cases "n = i") auto
next
  case (3 i sig aps st sg)
  have "(Some sig # aps) ! (n - i) = aps ! (n - Suc i)" if "Suc i \<le> n" using that by (simp add: nth_Cons')
  with 3 show ?case by (cases "n = i") (auto simp: bit_simps)
qed auto

lemma store_signatures_values:
  "length (snd (store_signatures i aps st sg)) = length sg"
  "i \<le> n \<Longrightarrow> n < i + length aps \<Longrightarrow> n < length sg \<Longrightarrow> aps ! (n - i) = Some x \<Longrightarrow> snd (store_signatures i aps st sg) ! n = x"
  "n < i \<Longrightarrow> snd (store_signatures i aps st sg) ! n = sg ! n"
  by (induction i aps st sg rule: store_signatures.induct) (auto simp: nth_Cons' split: if_splits)

lemma set_keeps_ok: "setBlockProducers src e = Inr e' \<Longrightarrow> epoch_ok e \<Longrightarrow> epoch_ok e'"
  using set_threshold [of src e e'] by (auto simp: epoch_ok_def MAX_BLOCK_PRODUCERS_def)

lemma epochs_update: "list_all epoch_ok eps \<Longrightarrow> epoch_ok e \<Longrightarrow> list_all epoch_ok (eps[i := e])"
  using set_update_subset_insert [of eps i e] by (auto simp: list_all_iff)

lemma epochs_nth: "list_all epoch_ok eps \<Longrightarrow> i < length eps \<Longrightarrow> epoch_ok (eps ! i)"
  by (simp add: list_all_length)

lemma epoch_id_ok [simp]: "epoch_ok (e\<lparr>ep_epochId := x\<rparr>) = epoch_ok e"
  by (simp add: epoch_ok_def)

lemma validators_shape:
  assumes "shape_ok t s" "nb_lastValidAt s = 0" "initWithValidators tx data s = Inr s'"
  shows "shape_ok t s'"
proof -
  obtain src e where e: "setBlockProducers src (nb_epochs s ! 0) = Inr e" "s' = s\<lparr>nb_epochs := (nb_epochs s)[0 := e]\<rparr>"
    using assms(3) by (auto simp: initWithValidators_def res_bind_eq_Inr_iff)
  have "epoch_ok e" using set_keeps_ok [OF e(1)] epochs_nth assms(1) by (auto simp: shape_ok_def)
  with assms(1,2) show ?thesis by (auto simp: shape_ok_def e(2) epochs_update)
qed

lemma initBlock_shape:
  assumes "shape_ok t s" "nb_lastValidAt s = 0" "initWithBlock sha tx data s = Inr s'"
  shows "shape_ok t s'"
proof -
  obtain src x y h f g e where e: "setBlockProducers src ((nb_epochs s ! 1)\<lparr>ep_epochId := y\<rparr>) = Inr e"
    "s' = s\<lparr>nb_initialized := True, nb_curHeight := h, nb_epochs := (nb_epochs s)[0 := (nb_epochs s ! 0)\<lparr>ep_epochId := x\<rparr>, 1 := e],
       nb_blockHashes := f, nb_blockMerkleRoots := g\<rparr>"
    using assms(3) by (auto simp: initWithBlock_def res_bind_eq_Inr_iff Let_def)
  have "epoch_ok e" "epoch_ok (nb_epochs s ! 0)" using set_keeps_ok [OF e(1)] epochs_nth assms(1) by (auto simp: shape_ok_def)
  with assms(1,2) show ?thesis by (auto simp: shape_ok_def e(2) epochs_update)
qed

lemma next_producers_shape:
  assumes "next_producers b ne s = Inr eps" "length (nb_epochs s) = 3" "nb_curEpoch s < 3" "list_all epoch_ok (nb_epochs s)"
  shows "length eps = 3 \<and> list_all epoch_ok eps
    \<and> eps ! (if ne then next_epoch_index s else nb_curEpoch s) = nb_epochs s ! (if ne then next_epoch_index s else nb_curEpoch s)"
proof (cases ne)
  case True
  let ?i = "(nb_curEpoch s + 2) mod 3"
  obtain src x e where e: "setBlockProducers src ((nb_epochs s ! ?i)\<lparr>ep_epochId := x\<rparr>) = Inr e" "eps = (nb_epochs s)[?i := e]"
    using assms(1) True by (auto simp: next_producers_def Let_def res_bind_eq_Inr_iff)
  have "epoch_ok e" using set_keeps_ok [OF e(1)] epochs_nth [of "nb_epochs s" ?i] assms(2,4) by simp
  moreover have "?i \<noteq> next_epoch_index s" using assms(3) by (auto simp: next_epoch_index_def mod_Suc)
  ultimately show ?thesis using True assms(2,4) e(2) epochs_update by simp
qed (use assms in \<open>auto simp: next_producers_def\<close>)

lemma commit_shape:
  assumes "shape_ok t s" "commit_previous now ts s = Inr s1"
  shows "shape_ok t s1"
  using commit_frame [OF assms(2)] assms(1)
  by (auto simp: shape_ok_def commit_block_def next_epoch_index_def)

lemma addBlock_shape:
  assumes "shape_ok t s0" "addLightClientBlock sha tx data s0 = Inr s'"
  shows "shape_ok t s'"
  using assms(2)
proof (rule addBlock_elim)
  fix s and b :: sol_light_client_block and ne eps
  let ?i = "if ne then next_epoch_index s else nb_curEpoch s"
  let ?sg = "store_signatures 0 (take (ep_numBPs (nb_epochs s ! ?i)) (slb_approvals_after_next b)) 0 (nb_untrustedSignatures s)"
  assume c: "commit_previous (tx_now tx) (sil_timestamp (slb_inner_lite b)) s0 = Inr s"
    and n: "next_producers b ne s = Inr eps" and s': "s' = set_untrusted tx b ne ?sg eps s"
  have sh: "shape_ok t s" using commit_shape [OF assms(1) c] .
  then have eps: "length eps = 3" "list_all epoch_ok eps" "eps ! ?i = nb_epochs s ! ?i"
    using next_producers_shape [OF n] by (auto simp: shape_ok_def)
  have "untrusted_epoch s' = eps ! ?i"
    by (simp add: s' untrusted_epoch_def next_epoch_index_def set_untrusted_def Let_def)
  then have "i < ep_numBPs (untrusted_epoch s')" if "bit (fst ?sg) i" for i
    using that eps(3) by (auto simp: store_signatures_bits)
  with sh eps(1,2) show ?thesis
    by (auto simp: shape_ok_def s' set_untrusted_def Let_def store_signatures_values)
qed

lemma other_shape:
  "shape_ok t s \<Longrightarrow> bridge_deposit tx s = Inr s' \<Longrightarrow> shape_ok t s'"
  "shape_ok t s \<Longrightarrow> bridge_withdraw tx s = Inr s' \<Longrightarrow> shape_ok t s'"
  "shape_ok t s \<Longrightarrow> bridge_challenge ed tx rcv i s = Inr s' \<Longrightarrow> shape_ok t s'"
  by (auto simp: shape_ok_def untrusted_epoch_def next_epoch_index_def bridge_deposit_def bridge_withdraw_def bridge_challenge_def
      transfer_def Let_def res_bind_eq_Inr_iff)

interpretation shape: storage_invariant sha ed "\<lambda>t s. chain_ok t s \<and> shape_ok t s" for sha ed
proof
  fix lock dur rep adm flags s t
  assume c: "bridge_constructor lock dur rep adm flags = Inr s"
  then have "shape_ok t s"
    by (auto simp: bridge_constructor_def shape_ok_def res_bind_eq_Inr_iff epoch_ok_def empty_epoch_def MAX_BLOCK_PRODUCERS_def
        list_all_iff)
  with chain.deployed_ok [OF c] show "chain_ok t s \<and> shape_ok t s" by simp
next
  fix t tx c s s'
  assume *: "chain_ok t s \<and> shape_ok t s" "t = tx_now tx" "t < 2 ^ 64" "bridge_exec sha ed tx c s = Inr s'"
  have quiet: "nb_lastValidAt s = 0" if "\<not> nb_initialized s" using that * by (auto simp: chain_ok_def)
  have "shape_ok t s'"
  proof (cases c)
    case (InitWithValidators data)
    with * have "\<not> nb_initialized s" by (auto simp: initWithValidators_def res_bind_eq_Inr_iff)
    with InitWithValidators * quiet validators_shape [of t s tx data s'] show ?thesis by simp
  next
    case (InitWithBlock data)
    with * have "\<not> nb_initialized s" by (auto simp: initWithBlock_def res_bind_eq_Inr_iff)
    with InitWithBlock * quiet initBlock_shape [of t s sha tx data s'] show ?thesis by simp
  next
    case (Challenge rcv i)
    with * other_shape(3) [of t s ed tx rcv i s'] show ?thesis by simp
  next
    case (AddLightClientBlock data)
    with * addBlock_shape [of t s sha tx data s'] show ?thesis by simp
  qed (use * other_shape(1,2) [of t s tx s'] in
      \<open>auto simp: shape_ok_def untrusted_epoch_def next_epoch_index_def res_bind_eq_Inr_iff\<close>)
  with chain.call_ok [OF _ *(2-4)] * show "chain_ok t s' \<and> shape_ok t s'" by simp
qed (auto simp: chain_ok_def shape_ok_def)


section \<open>A concrete run\<close>

text \<open>
  A contract is deployed and initialized with one validator and the block of \<^verbatim>\<open>Near_Roundtrip\<close>, a submitter
  deposits its stake and submits the next block, whose only signature does not check.
\<close>

definition demo_tx :: "eth_address \<Rightarrow> uint256 \<Rightarrow> uint256 \<Rightarrow> eth_tx" where
  "demo_tx a v t = \<lparr>tx_sender = a, tx_value = v, tx_now = t, tx_accepts = True\<rparr>"

definition demo_sha :: "bytes \<Rightarrow> bytes" where
  "demo_sha x = replicate 31 0 @ [1]"

definition no_signature :: edcheck where
  "no_signature k r s m1 m2 = False"

lemma demo_tx_simps [simp]:
  "tx_sender (demo_tx a v t) = a" "tx_value (demo_tx a v t) = v" "tx_now (demo_tx a v t) = t" "tx_accepts (demo_tx a v t)"
  by (simp_all add: demo_tx_def)

definition initialized_state :: "uint256 \<Rightarrow> nearbridge \<Rightarrow> bool" where
  "initialized_state t s \<longleftrightarrow> bridge_reach demo_sha no_signature (t, s) \<and> nb_initialized s \<and> nb_curHeight s = 12640118
     \<and> nb_blockHashes s 12640118 = replicate 31 0 @ [1] \<and> nb_paused s = 0 \<and> nb_lastValidAt s = 0 \<and> nb_lockEthAmount s = 5
     \<and> nb_lockDuration s = 10 \<and> nb_curEpoch s = 0
     \<and> (\<exists>e. setBlockProducers [producer_view demo_lib (demo_validator None)] empty_epoch = Inr e
          \<and> nb_epochs s ! 0 = e\<lparr>ep_epochId := the_hash demo_lib zero_hash\<rparr>)"

lemma demo_initialized: "\<exists>s. initialized_state 100 s \<and> nb_balanceOf s = (\<lambda>_. 0)"
proof -
  let ?tx = "demo_tx 1 0 100"
  obtain s0 where s0: "bridge_constructor 5 10 100000000000 1 0 = Inr s0" "nb_epochs s0 = replicate 3 empty_epoch"
    "\<not> nb_initialized s0" "nb_admin s0 = 1" "nb_paused s0 = 0" "nb_lastValidAt s0 = 0" "nb_lockEthAmount s0 = 5"
    "nb_lockDuration s0 = 10" "nb_curEpoch s0 = 0" "nb_balanceOf s0 = (\<lambda>_. 0)"
    by (simp add: bridge_constructor_def)
  obtain bv where bv: "borshifyInitialValidators demo_lib [demo_validator None] = Inr bv"
    using block_producers.whole_message [of demo_lib "[demo_validator None]"] demo_lib_ok demo_validators_ok by (auto simp: list_all_iff)
  obtain bb where bb: "borshify demo_lib demo_block = Inr bb"
    using light_block.whole_message [of demo_lib demo_block demo_sha] demo_lib_ok demo_block_ok by blast
  have empty: "nb_epochs s0 ! 0 = empty_epoch" "ep_numBPs empty_epoch = 0" using s0(2) by (simp_all add: empty_epoch_def)
  obtain e where e: "setBlockProducers [producer_view demo_lib (demo_validator None)] empty_epoch = Inr e"
    "initWithValidators ?tx bv s0 = Inr (s0\<lparr>nb_epochs := (nb_epochs s0)[0 := e]\<rparr>)"
    using initWithValidators_accepts [OF demo_lib_ok _ _ bv, of ?tx s0] s0 demo_validators_ok empty
    by (auto simp: MAX_BLOCK_PRODUCERS_def)
  let ?s1 = "s0\<lparr>nb_epochs := (nb_epochs s0)[0 := e]\<rparr>"
  have "ep_numBPs e = 1" using setBlockProducers_ok [of "[producer_view demo_lib (demo_validator None)]" empty_epoch] e(1)
    by (simp add: MAX_BLOCK_PRODUCERS_def)
  then have num: "nb_epochs ?s1 ! 0 = e" "ep_numBPs (nb_epochs ?s1 ! 0) \<noteq> 0" using s0(2) by simp_all
  have bps: "length (block_producers_of demo_block) \<le> MAX_BLOCK_PRODUCERS"
    by (simp add: block_producers_of_def demo_block_def MAX_BLOCK_PRODUCERS_def)
  obtain s2 e1 where s2: "initWithBlock demo_sha ?tx bb ?s1 = Inr s2" "nb_initialized s2"
    "nb_curHeight s2 = 12640118" "nb_blockHashes s2 = (nb_blockHashes ?s1)(12640118 := replicate 31 0 @ [1])"
    "nb_epochs s2 = (nb_epochs ?s1)[0 := e\<lparr>ep_epochId := the_hash demo_lib zero_hash\<rparr>, 1 := e1]"
    "nb_paused s2 = 0" "nb_lastValidAt s2 = 0" "nb_balanceOf s2 = (\<lambda>_. 0)" "nb_lockEthAmount s2 = 5" "nb_lockDuration s2 = 10" "nb_curEpoch s2 = 0"
    using initWithBlock_accepts [OF demo_lib_ok demo_block_ok bb bps, of ?tx ?s1 demo_sha] s0 num
    by (auto simp: block_view_def Let_def demo_sha_def demo_block_def demo_header_def)
  have "bridge_reach demo_sha no_signature (100, s0)" using bridge_reach.deployed [OF s0(1)] by simp
  then have "bridge_reach demo_sha no_signature (100, ?s1)"
    using bridge_step.call [of 100 ?tx demo_sha no_signature "InitWithValidators bv" s0 ?s1] e(2) by (auto intro: bridge_reach.stepped)
  then have "bridge_reach demo_sha no_signature (100, s2)"
    using bridge_step.call [of 100 ?tx demo_sha no_signature "InitWithBlock bb" ?s1 s2] s2(1) by (auto intro: bridge_reach.stepped)
  moreover have "nb_epochs s2 ! 0 = e\<lparr>ep_epochId := the_hash demo_lib zero_hash\<rparr>" using s2(5) s0(2) by simp
  ultimately show ?thesis using s2 e(1) by (auto simp: initialized_state_def)
qed

theorem confirmed_hash_final_witness:
  "\<exists>s. bridge_reach demo_sha no_signature (100, s) \<and> blockHashes (demo_tx 3 0 100) s 12640118 = Inr (replicate 31 0 @ [1])
    \<and> (\<forall>y. blockHashes (demo_tx 3 0 200) s 12640118 = Inr y \<longrightarrow> y = replicate 31 0 @ [1])"
proof -
  obtain s where s: "initialized_state 100 s" using demo_initialized by blast
  have "(bridge_step demo_sha no_signature)\<^sup>*\<^sup>* (tx_now (demo_tx 3 0 100), s) (tx_now (demo_tx 3 0 200), s)"
    by (intro r_into_rtranclp) (simp add: bridge_step.pass)
  note f = confirmed_hash_final [OF _ this]
  have nz: "replicate 31 0 @ [1] \<noteq> zero_bytes32"
    by (simp add: zero_bytes32_def numeral_eq_Suc)
  with s have b: "blockHashes (demo_tx 3 0 100) s 12640118 = Inr (replicate 31 0 @ [1])"
    by (auto simp: initialized_state_def blockHashes_def pausable_def confirmed_def)
  with nz show ?thesis using s f [of 12640118 "replicate 31 0 @ [1]"] unfolding initialized_state_def by auto
qed


end
