(* ===== verification/Near2Eth_Relay.thy ===== *)
theory Near2Eth_Relay
  imports Near_Transactions Near_Roundtrip
begin

text \<open>
  The NEAR-to-Ethereum relay, class \<^verbatim>\<open>Near2EthRelay\<close> of \<^verbatim>\<open>near2eth-block-relay/index.js\<close>: the
  initialization of the light client contract on Ethereum, and the endless loop that reads the
  state of the contract, fetches the next light client block from NEAR and submits it when the
  contract would take it.

  What the two chains answer during \<^verbatim>\<open>initialize\<close> and during one round of the loop are the records
  \<open>n2e_init_env\<close> and \<open>n2e_env\<close>; the transactions the relay sends are its effects.
\<close>

datatype n2e_effect =
    SendInitValidators bytes nat
  | SendInitBlock bytes nat
  | SendDeposit nat nat
  | SendBlock bytes nat
  | SendWithdraw nat

section \<open>initialize\<close>

record n2e_init_env =
  ie_initialized :: "bool res"
  ie_lastFinalBlock :: "string res"
  ie_validators :: "nat \<Rightarrow> validator list option res"
  ie_lightBlock :: "nat \<Rightarrow> light_client_block option res"
  ie_gasPrice :: "nat res"
  ie_sendValidators :: "nat \<Rightarrow> unit res"
  ie_blockGasPrice :: "nat \<Rightarrow> nat res"
  ie_sendBlock :: "nat \<Rightarrow> unit res"

text \<open>
  The loop that waits for the light client block; \<open>None\<close> is an answer that is \<^verbatim>\<open>null\<close> or empty. It may
  wait forever: \<open>fuel\<close> bounds its rounds, and running out of it is \<open>Inr None\<close>.
\<close>

fun wait_light_block :: "nat \<Rightarrow> n2e_init_env \<Rightarrow> nat \<Rightarrow> (validator list \<times> light_client_block) option res" where
  "wait_light_block 0 E i = Inr None"
| "wait_light_block (Suc fuel) E i = res_bind (ie_validators E i) (\<lambda>currentValidators.
     case currentValidators of
       None \<Rightarrow> wait_light_block fuel E (Suc i)
     | Some vs \<Rightarrow> res_bind (ie_lightBlock E i) (\<lambda>lightClientBlock.
         case lightClientBlock of
           None \<Rightarrow> wait_light_block fuel E (Suc i)
         | Some b \<Rightarrow> Inr (Some (vs, b))))"

definition underpriced :: "js_error \<Rightarrow> bool" where
  "underpriced e = js_includes (error_message e) ''replacement transaction underpriced''"

text \<open>The two loops of at most ten attempts; the result is the variable \<^verbatim>\<open>err\<close> after the loop.\<close>

fun init_validators_loop :: "n2e_init_env \<Rightarrow> bytes \<Rightarrow> nat \<Rightarrow> nat \<Rightarrow> nat \<Rightarrow> (n2e_effect, js_error option) run" where
  "init_validators_loop E bs i 0 gasPrice = run_ret None"
| "init_validators_loop E bs i (Suc left) gasPrice = (case ie_sendValidators E i of
     Inr _ \<Rightarrow> run_bind (run_do (SendInitValidators bs gasPrice) (Inr ())) (\<lambda>_. run_ret None)
   | Inl e \<Rightarrow> run_bind (run_do (SendInitValidators bs gasPrice) (Inr ())) (\<lambda>_.
       if underpriced e then init_validators_loop E bs (Suc i) left (gasPrice * 11 div 10)
       else run_ret (Some e)))"

fun init_block_loop :: "n2e_init_env \<Rightarrow> nat \<Rightarrow> bytes \<Rightarrow> nat \<Rightarrow> nat \<Rightarrow> (n2e_effect, js_error option) run" where
  "init_block_loop E mult bs i 0 = run_ret None"
| "init_block_loop E mult bs i (Suc left) = (case ie_blockGasPrice E i of
     Inl e \<Rightarrow> if underpriced e then init_block_loop E mult bs (Suc i) left else run_ret (Some e)
   | Inr price \<Rightarrow> (case ie_sendBlock E i of
       Inr _ \<Rightarrow> run_bind (run_do (SendInitBlock bs (price * mult)) (Inr ())) (\<lambda>_. run_ret None)
     | Inl e \<Rightarrow> run_bind (run_do (SendInitBlock bs (price * mult)) (Inr ())) (\<lambda>_.
         if underpriced e then init_block_loop E mult bs (Suc i) left else run_ret (Some e))))"

definition exit_on_err :: "js_error option \<Rightarrow> (n2e_effect, unit) run" where
  "exit_on_err err = run_ask (case err of None \<Rightarrow> Inr () | Some _ \<Rightarrow> Inl (ProcessExit 1))"

text \<open>Out of fuel while waiting is \<open>Inr False\<close>; a completed initialization is \<open>Inr True\<close>.\<close>

definition n2e_initialize :: "nat \<Rightarrow> bridge_lib \<Rightarrow> nat \<Rightarrow> n2e_init_env \<Rightarrow> (n2e_effect, bool) run" where
  "n2e_initialize fuel L mult E = run_catch
     (run_bind (run_ask (ie_initialized E)) (\<lambda>isInitialized.
        if isInitialized then run_ret True
        else run_bind (run_ask (ie_lastFinalBlock E)) (\<lambda>_.
          run_bind (run_ask (wait_light_block fuel E 0)) (\<lambda>found.
            case found of
              None \<Rightarrow> run_ret False
            | Some (currentValidators, lightClientBlock) \<Rightarrow>
                run_bind (run_ask (borshifyInitialValidators L currentValidators)) (\<lambda>borshInitialValidators.
                run_bind (run_ask (ie_gasPrice E)) (\<lambda>price.
                run_bind (init_validators_loop E borshInitialValidators 0 10 (price * mult)) (\<lambda>err.
                run_bind (exit_on_err err) (\<lambda>_.
                run_bind (run_ask (borshify L lightClientBlock)) (\<lambda>borshBlock.
                run_bind (init_block_loop E mult borshBlock 0 10) (\<lambda>err2.
                run_bind (exit_on_err err2) (\<lambda>_. run_ret True)))))))))))
     (\<lambda>e. run_ask (Inl (ProcessExit 1)))"

definition n2e_withdraw :: "nat \<Rightarrow> nat res \<Rightarrow> unit res \<Rightarrow> (n2e_effect, unit) run" where
  "n2e_withdraw mult price outcome =
     run_bind (run_ask price) (\<lambda>p. run_do (SendWithdraw (p * mult)) outcome)"

section \<open>One round of runInternal\<close>

record bridge_state =
  currentHeight :: nat
  nextTimestamp :: nat
  nextValidAt :: nat
  numBlockProducers :: nat

record n2e_options =
  submitInvalidBlock :: bool
  minDelay :: int
  maxDelay :: int
  errorDelay :: int
  ethGasMultiplier :: nat

record n2e_env =
  ne_bridgeState :: "bridge_state res"
  ne_blockHash :: "nat \<Rightarrow> string res"
  ne_lastBlock :: "string \<Rightarrow> light_client_block option res"
  ne_replaceDuration :: "nat res"
  ne_lockEthAmount :: "nat res"
  ne_balance :: "nat res"
  ne_depositGasPrice :: "nat res"
  ne_deposit :: "unit res"
  ne_random :: "nat \<Rightarrow> nat"
  ne_gasPrice :: "nat res"
  ne_addBlock :: "unit res"
  ne_latestTimestamp :: "int res"
  ne_status :: "unit res"

text \<open>\<^verbatim>\<open>BN.div\<close> rounds towards zero, and \<^verbatim>\<open>BN.toNumber\<close> throws above 53 bits.\<close>

definition bn_div :: "int \<Rightarrow> int \<Rightarrow> int" where
  "bn_div a b = sgn a * (\<bar>a\<bar> div b)"

definition to_number :: "int \<Rightarrow> int res" where
  "to_number a = (if \<bar>a\<bar> < 2 ^ 53 then Inr a else Inl (LibraryError ''bn.js''))"

text \<open>\<^verbatim>\<open>lastBlock.inner_lite\<close> of an empty answer is a TypeError.\<close>

definition block_lite :: "light_client_block option \<Rightarrow> inner_lite res" where
  "block_lite b = (case b of None \<Rightarrow> Inl JsTypeError | Some x \<Rightarrow> Inr (lcb_inner_lite x))"

definition replace_delay :: "bridge_state \<Rightarrow> nat \<Rightarrow> light_client_block option \<Rightarrow> int option res" where
  "replace_delay st replaceDuration lastBlock =
     (if nextValidAt st = 0 then Inr None
      else res_bind (block_lite lastBlock) (\<lambda>lite.
        case timestamp lite of
          None \<Rightarrow> Inl (LibraryError ''web3'')
        | Some t \<Rightarrow> Inr (Some (int (nextTimestamp st) + int replaceDuration - int (num_value t)))))"

definition wants_submit :: "bridge_state \<Rightarrow> int option \<Rightarrow> inner_lite \<Rightarrow> bool" where
  "wants_submit st delay lite \<longleftrightarrow> currentHeight st < num_value (height lite)
     \<and> (case delay of None \<Rightarrow> True | Some d \<Rightarrow> d \<le> 0)"

definition mutate :: "(nat \<Rightarrow> nat) \<Rightarrow> bytes \<Rightarrow> bytes" where
  "mutate rnd bs = (let i = rnd (length bs) in bs[i := bs ! i + 1])"

definition ensure_stake :: "n2e_options \<Rightarrow> n2e_env \<Rightarrow> nat \<Rightarrow> nat \<Rightarrow> (n2e_effect, unit) run" where
  "ensure_stake opts E lockEthAmount balance = (if balance = 0
     then run_bind (run_ask (ne_depositGasPrice E)) (\<lambda>p.
       run_do (SendDeposit lockEthAmount (p * ethGasMultiplier opts)) (ne_deposit E))
     else run_ret ())"

definition send_block :: "bridge_lib \<Rightarrow> n2e_options \<Rightarrow> n2e_env \<Rightarrow> light_client_block \<Rightarrow> (n2e_effect, int) run" where
  "send_block L opts E b =
     run_bind (run_ask (borshify L b)) (\<lambda>bs.
     let borshBlock = (if submitInvalidBlock opts then mutate (ne_random E) bs else bs) in
     run_bind (run_ask (ne_gasPrice E)) (\<lambda>gasPrice.
     run_bind (run_ask (to_number (int gasPrice))) (\<lambda>_.
     run_bind (run_do (SendBlock borshBlock (gasPrice * ethGasMultiplier opts)) (ne_addBlock E)) (\<lambda>_.
     if submitInvalidBlock opts then run_ask (Inl (ProcessExit 0)) else run_ret 240000))))"

definition submit_block :: "bridge_lib \<Rightarrow> n2e_options \<Rightarrow> n2e_env \<Rightarrow> light_client_block \<Rightarrow> (n2e_effect, int) run" where
  "submit_block L opts E b =
     run_bind (run_ask (ne_lockEthAmount E)) (\<lambda>lockEthAmount.
     run_bind (run_ask (ne_balance E)) (\<lambda>balance.
     run_bind (ensure_stake opts E lockEthAmount balance) (\<lambda>_. send_block L opts E b)))"

definition idle_delay :: "n2e_options \<Rightarrow> n2e_env \<Rightarrow> bridge_state \<Rightarrow> int option \<Rightarrow> int res" where
  "idle_delay opts E st delay =
     res_bind (if nextValidAt st = 0 then Inr (maxDelay opts)
       else res_bind (ne_latestTimestamp E) (\<lambda>latest.
         res_bind (to_number (int (nextValidAt st))) (\<lambda>validAt.
         res_bind (to_number (bn_div (case delay of Some d \<Rightarrow> d | None \<Rightarrow> 0) (10 ^ 9))) (\<lambda>rd.
           Inr (min (min (maxDelay opts) (validAt - latest)) rd)))))
     (\<lambda>d. Inr (max d (minDelay opts)))"

definition n2e_round_body :: "bridge_lib \<Rightarrow> n2e_options \<Rightarrow> n2e_env \<Rightarrow> (n2e_effect, int) run" where
  "n2e_round_body L opts E =
     run_bind (run_ask (ne_bridgeState E)) (\<lambda>st.
     run_bind (run_ask (ne_blockHash E (currentHeight st))) (\<lambda>h.
     run_bind (run_ask (ne_lastBlock E h)) (\<lambda>lastBlock.
     run_bind (run_ask (ne_replaceDuration E)) (\<lambda>replaceDuration.
     run_bind (run_ask (replace_delay st replaceDuration lastBlock)) (\<lambda>delay.
     run_bind (run_ask (block_lite lastBlock)) (\<lambda>lite.
     if wants_submit st delay lite
     then (case lastBlock of Some b \<Rightarrow> submit_block L opts E b | None \<Rightarrow> run_ask (Inl JsTypeError))
     else run_bind (run_ask (idle_delay opts E st delay)) (\<lambda>d.
       run_bind (run_ask (ne_status E)) (\<lambda>_. run_ret (1000 * d)))))))))"

text \<open>A round ends with the milliseconds it sleeps, or with the end of the process.\<close>

definition n2e_round :: "bridge_lib \<Rightarrow> n2e_options \<Rightarrow> n2e_env \<Rightarrow> (n2e_effect, int) run" where
  "n2e_round L opts E = run_catch (n2e_round_body L opts E) (\<lambda>e. run_ret (1000 * errorDelay opts))"

fun runInternal :: "bridge_lib \<Rightarrow> n2e_options \<Rightarrow> n2e_env list \<Rightarrow> (n2e_effect, int list) run" where
  "runInternal L opts [] = run_ret []"
| "runInternal L opts (E # Es) = run_bind (n2e_round L opts E) (\<lambda>ms.
     run_bind (runInternal L opts Es) (\<lambda>rest. run_ret (ms # rest)))"

section \<open>What a round sends\<close>

lemma fst_run_catch: "(\<And>e. fst (h e) = []) \<Longrightarrow> fst (run_catch r h) = fst r"
  by (auto simp: run_catch_def split: prod.splits sum.splits js_error.splits)
    (metis append.right_neutral fst_conv)+

lemma ensure_stake_no_block: "SendBlock bs p \<notin> set (fst (ensure_stake opts E lock bal))"
  by (simp add: ensure_stake_def set_run_bind)

lemma ensure_stake_effects:
  assumes "snd (ensure_stake opts E lock bal) = Inr ()"
  shows "\<exists>dp. fst (ensure_stake opts E lock bal) = (if bal = 0 then [SendDeposit lock dp] else [])
     \<and> (bal = 0 \<longrightarrow> ne_deposit E = Inr ())"
proof (cases "bal = 0")
  case True
  then show ?thesis
    using assms by (cases "ne_depositGasPrice E") (simp_all add: ensure_stake_def run_simps)
qed (simp add: ensure_stake_def)

lemma send_block_sends:
  assumes sent: "SendBlock bs p \<in> set (fst (send_block L opts E b))"
  shows "\<exists>raw. borshify L b = Inr raw \<and> bs = (if submitInvalidBlock opts then mutate (ne_random E) raw else raw)
    \<and> fst (send_block L opts E b) = [SendBlock bs p]"
proof -
  obtain raw where raw: "borshify L b = Inr raw"
    using sent by (cases "borshify L b") (auto simp: send_block_def run_simps)
  obtain g where g: "ne_gasPrice E = Inr g"
    using sent raw by (cases "ne_gasPrice E") (auto simp: send_block_def run_simps Let_def)
  obtain m where "to_number (int g) = Inr m"
    using sent raw g by (cases "to_number (int g)") (auto simp: send_block_def run_simps Let_def)
  then show ?thesis
    using sent raw g by (cases "ne_addBlock E") (auto simp: send_block_def run_simps Let_def)
qed

lemma submit_block_sends:
  assumes sent: "SendBlock bs p \<in> set (fst (submit_block L opts E b))"
  shows "\<exists>lock bal raw. ne_lockEthAmount E = Inr lock \<and> ne_balance E = Inr bal \<and> borshify L b = Inr raw
    \<and> bs = (if submitInvalidBlock opts then mutate (ne_random E) raw else raw)
    \<and> (bal = 0 \<longrightarrow> ne_deposit E = Inr ())
    \<and> (\<exists>dp. fst (submit_block L opts E b) = (if bal = 0 then [SendDeposit lock dp] else []) @ [SendBlock bs p])"
proof -
  obtain lock where lock: "ne_lockEthAmount E = Inr lock"
    using sent by (cases "ne_lockEthAmount E") (auto simp: submit_block_def run_simps)
  obtain bal where bal: "ne_balance E = Inr bal"
    using sent lock by (cases "ne_balance E") (auto simp: submit_block_def run_simps)
  have eq: "submit_block L opts E b = run_bind (ensure_stake opts E lock bal) (\<lambda>_. send_block L opts E b)"
    by (simp add: submit_block_def lock bal run_simps)
  have ok: "snd (ensure_stake opts E lock bal) = Inr ()"
    and sent': "SendBlock bs p \<in> set (fst (send_block L opts E b))"
    using sent ensure_stake_no_block by (auto simp: eq set_run_bind)
  have "fst (submit_block L opts E b) = fst (ensure_stake opts E lock bal) @ fst (send_block L opts E b)"
    using ok by (cases "ensure_stake opts E lock bal") (auto simp: eq run_bind_def split: prod.splits)
  then show ?thesis
    using lock bal ensure_stake_effects [OF ok] send_block_sends [OF sent'] by auto
qed

lemma round_body_sends:
  assumes "SendBlock bs p \<in> set (fst (n2e_round_body L opts E))"
  shows "\<exists>st h rd b delay. ne_bridgeState E = Inr st \<and> ne_blockHash E (currentHeight st) = Inr h
    \<and> ne_lastBlock E h = Inr (Some b) \<and> ne_replaceDuration E = Inr rd
    \<and> replace_delay st rd (Some b) = Inr delay \<and> wants_submit st delay (lcb_inner_lite b)
    \<and> SendBlock bs p \<in> set (fst (submit_block L opts E b))
    \<and> fst (n2e_round_body L opts E) = fst (submit_block L opts E b)"
  using assms
  by (auto simp: n2e_round_body_def set_run_bind block_lite_def run_simps split: if_splits option.splits)

text \<open>
  C15. The relay submits a block only when the light client contract would accept it: if a round sends a
  block, the state it read from the contract has a lower height than the block, and while another
  block is pending there the new one is newer by at least the replace duration; the bytes are the
  encoding of the block NEAR returned for the contract's current hash; and the sender has stake:
  the round sends nothing but the block, or first deposits exactly the required amount when its
  balance was zero, and that deposit succeeded.
\<close>

theorem n2e_round_submits:
  assumes "SendBlock bs p \<in> set (fst (n2e_round L opts E))"
  shows "\<exists>st h rd b raw lock bal dp. ne_bridgeState E = Inr st \<and> ne_blockHash E (currentHeight st) = Inr h
    \<and> ne_lastBlock E h = Inr (Some b) \<and> ne_replaceDuration E = Inr rd
    \<and> currentHeight st < num_value (height (lcb_inner_lite b))
    \<and> (nextValidAt st \<noteq> 0 \<longrightarrow> (\<exists>t. timestamp (lcb_inner_lite b) = Some t \<and> nextTimestamp st + rd \<le> num_value t))
    \<and> borshify L b = Inr raw \<and> bs = (if submitInvalidBlock opts then mutate (ne_random E) raw else raw)
    \<and> ne_lockEthAmount E = Inr lock \<and> ne_balance E = Inr bal \<and> (bal = 0 \<longrightarrow> ne_deposit E = Inr ())
    \<and> fst (n2e_round L opts E) = (if bal = 0 then [SendDeposit lock dp] else []) @ [SendBlock bs p]"
proof -
  have eq: "fst (n2e_round L opts E) = fst (n2e_round_body L opts E)"
    unfolding n2e_round_def by (rule fst_run_catch) simp
  from round_body_sends [of bs p L opts E] assms obtain st h rd b delay where
    *: "ne_bridgeState E = Inr st" "ne_blockHash E (currentHeight st) = Inr h" "ne_lastBlock E h = Inr (Some b)"
      "ne_replaceDuration E = Inr rd"
    and delay: "replace_delay st rd (Some b) = Inr delay" "wants_submit st delay (lcb_inner_lite b)"
    and sub: "SendBlock bs p \<in> set (fst (submit_block L opts E b))"
      "fst (n2e_round_body L opts E) = fst (submit_block L opts E b)"
    unfolding eq by blast
  have "currentHeight st < num_value (height (lcb_inner_lite b))"
    and "nextValidAt st \<noteq> 0 \<longrightarrow> (\<exists>t. timestamp (lcb_inner_lite b) = Some t \<and> nextTimestamp st + rd \<le> num_value t)"
    using delay by (auto simp: wants_submit_def replace_delay_def block_lite_def split: option.splits if_splits)
  then show ?thesis
    using * submit_block_sends [OF sub(1)] sub(2) eq by auto
qed

lemma wait_times:
  assumes "snd (n2e_round_body L opts E) = Inr ms"
  shows "ms = 240000 \<or> (1000 * minDelay opts \<le> ms \<and> ms \<le> 1000 * max (minDelay opts) (maxDelay opts))"
proof -
  have sub: "snd (submit_block L opts E b) = Inr ms \<Longrightarrow> ms = 240000" for b
    by (auto simp: submit_block_def send_block_def run_bind_Inr_iff Let_def split: if_splits)
  have idle: "idle_delay opts E st delay = Inr d \<Longrightarrow>
      minDelay opts \<le> d \<and> d \<le> max (minDelay opts) (maxDelay opts)" for st delay d
    by (auto simp: idle_delay_def res_bind_eq_Inr_iff split: if_splits)
  show ?thesis
    using assms sub idle
    by (auto simp: n2e_round_body_def run_bind_Inr_iff split: if_splits option.splits)
qed

text \<open>
  Every round of the relay ends with a sleep of one of three durations, four minutes after a
  submission, the error delay after an exception, and otherwise a time between the minimal delay
  and the larger of the two configured delays, or else with the end of the process.
\<close>

lemma n2e_round_sleeps:
  "case snd (n2e_round L opts E) of
     Inr ms \<Rightarrow> ms = 240000 \<or> ms = 1000 * errorDelay opts
       \<or> (1000 * minDelay opts \<le> ms \<and> ms \<le> 1000 * max (minDelay opts) (maxDelay opts))
   | Inl e \<Rightarrow> (\<exists>n. e = ProcessExit n)"
proof -
  obtain ts r where body: "n2e_round_body L opts E = (ts, r)" by fastforce
  show ?thesis
  proof (cases r)
    case (Inr ms)
    then have "n2e_round L opts E = (ts, Inr ms)" using body by (simp add: n2e_round_def run_simps)
    then show ?thesis using wait_times [of L opts E ms] body Inr by auto
  next
    case (Inl e)
    then show ?thesis
      using body by (cases e) (simp_all add: n2e_round_def run_simps)
  qed
qed

section \<open>Initialization\<close>

lemma init_validators_underpriced:
  assumes "\<forall>j<left. \<exists>e. ie_sendValidators E (i + j) = Inl e \<and> underpriced e"
  shows "snd (init_validators_loop E bs i left g) = Inr None
    \<and> length (fst (init_validators_loop E bs i left g)) = left"
  using assms
proof (induction left arbitrary: i g)
  case (Suc left)
  then obtain e where "ie_sendValidators E i = Inl e" "underpriced e"
    by (metis add_0_right zero_less_Suc)
  moreover have "\<forall>j<left. \<exists>e. ie_sendValidators E (Suc i + j) = Inl e \<and> underpriced e"
    using Suc.prems by auto
  ultimately show ?case using Suc.IH [of "Suc i"] by (simp add: run_simps)
qed simp

lemma init_block_underpriced:
  assumes "\<forall>j<left. \<exists>e. ie_sendBlock E (i + j) = Inl e \<and> underpriced e" "\<forall>j. ie_blockGasPrice E j = Inr (gp j)"
  shows "snd (init_block_loop E mult bs i left) = Inr None
    \<and> length (fst (init_block_loop E mult bs i left)) = left"
  using assms(1)
proof (induction left arbitrary: i)
  case (Suc left)
  then obtain e where "ie_sendBlock E i = Inl e" "underpriced e"
    by (metis add_0_right zero_less_Suc)
  moreover have "\<forall>j<left. \<exists>e. ie_sendBlock E (Suc i + j) = Inl e \<and> underpriced e"
    using Suc.prems by auto
  ultimately show ?case using Suc.IH [of "Suc i"] assms(2) by (simp add: run_simps)
qed simp

lemma exit_on_err_simps [run_simps]:
  "exit_on_err None = run_ret ()" "exit_on_err (Some e) = run_ask (Inl (ProcessExit 1))"
  by (simp_all add: exit_on_err_def run_ret_def run_ask_def)

text \<open>
  Ten underpriced attempts count as a success: when every attempt to send the validators and the
  first block is refused with \<^verbatim>\<open>replacement transaction underpriced\<close>, \<^verbatim>\<open>initialize\<close> still ends
  normally, after twenty refused transactions, and reports the client as initialized.
\<close>

lemma n2e_initialize_underpriced:
  assumes "ie_initialized E = Inr False" "ie_lastFinalBlock E = Inr h"
    and "wait_light_block fuel E 0 = Inr (Some (vs, b))"
    and "borshifyInitialValidators L vs = Inr bv" "borshify L b = Inr bb"
    and "ie_gasPrice E = Inr g" "\<forall>j. ie_blockGasPrice E j = Inr (gp j)"
    and "\<forall>j<10. \<exists>e. ie_sendValidators E j = Inl e \<and> underpriced e"
    and "\<forall>j<10. \<exists>e. ie_sendBlock E j = Inl e \<and> underpriced e"
  shows "snd (n2e_initialize fuel L mult E) = Inr True \<and> length (fst (n2e_initialize fuel L mult E)) = 20"
proof -
  obtain ts1 where v: "init_validators_loop E bv 0 10 (g * mult) = (ts1, Inr None)" "length ts1 = 10"
    using init_validators_underpriced [of 10 E 0 bv "g * mult"] assms(8)
    by (cases "init_validators_loop E bv 0 10 (g * mult)") auto
  obtain ts2 where b: "init_block_loop E mult bb 0 10 = (ts2, Inr None)" "length ts2 = 10"
    using init_block_underpriced [of 10 E 0 gp mult bb] assms(7,9)
    by (cases "init_block_loop E mult bb 0 10") auto
  show ?thesis
    using assms(1-6) v b by (simp add: n2e_initialize_def run_simps)
qed

text \<open>
  Otherwise a normal end means an initialized client: if no attempt is refused as underpriced and
  \<^verbatim>\<open>initialize\<close> completes, then the contract was initialized already and nothing was sent, or the
  transaction with the encoded validators and then the one with the encoded block were sent, one
  each, and both were accepted.
\<close>

lemma n2e_initialize_sends:
  assumes "n2e_initialize fuel L mult E = (ts, Inr True)"
    and "\<forall>j e. ie_sendValidators E j = Inl e \<or> ie_sendBlock E j = Inl e \<or> ie_blockGasPrice E j = Inl e \<longrightarrow> \<not> underpriced e"
  shows "(ie_initialized E = Inr True \<and> ts = [])
    \<or> (\<exists>vs b bv bb g gb. wait_light_block fuel E 0 = Inr (Some (vs, b))
        \<and> borshifyInitialValidators L vs = Inr bv \<and> borshify L b = Inr bb
        \<and> ie_gasPrice E = Inr g \<and> ie_blockGasPrice E 0 = Inr gb
        \<and> ts = [SendInitValidators bv (g * mult), SendInitBlock bb (gb * mult)]
        \<and> ie_sendValidators E 0 = Inr () \<and> ie_sendBlock E 0 = Inr ())"
proof -
  have vloop: "init_validators_loop E bv 0 10 x = (case ie_sendValidators E 0 of
      Inr _ \<Rightarrow> ([SendInitValidators bv x], Inr None) | Inl e \<Rightarrow> ([SendInitValidators bv x], Inr (Some e)))" for bv x
    using assms(2) by (auto simp: numeral_eq_Suc run_simps run_ret_def split: sum.splits)
  have bloop: "init_block_loop E mult bb 0 10 = (case ie_blockGasPrice E 0 of
      Inl e \<Rightarrow> ([], Inr (Some e))
    | Inr gb \<Rightarrow> (case ie_sendBlock E 0 of
        Inr _ \<Rightarrow> ([SendInitBlock bb (gb * mult)], Inr None)
      | Inl e \<Rightarrow> ([SendInitBlock bb (gb * mult)], Inr (Some e))))" for bb
    using assms(2) by (auto simp: numeral_eq_Suc run_simps run_ret_def split: sum.splits)
  show ?thesis
    using assms(1)
    by (auto simp: n2e_initialize_def run_catch_def run_bind_def run_ask_def run_ret_def vloop bloop exit_on_err_def
        split: sum.splits prod.splits option.splits if_splits js_error.splits)
qed

section \<open>A concrete round\<close>

text \<open>The contract is at height 12640000 with no pending block, and the relay has no stake yet.\<close>

definition demo_options_n2e :: n2e_options where
  "demo_options_n2e = \<lparr>submitInvalidBlock = False, minDelay = 1, maxDelay = 600, errorDelay = 1, ethGasMultiplier = 2\<rparr>"

definition demo_n2e_env :: n2e_env where
  "demo_n2e_env = \<lparr>ne_bridgeState = Inr \<lparr>currentHeight = 12640000, nextTimestamp = 0, nextValidAt = 0, numBlockProducers = 0\<rparr>,
     ne_blockHash = (\<lambda>h. Inr zero_hash), ne_lastBlock = (\<lambda>h. Inr (Some demo_block)), ne_replaceDuration = Inr 100,
     ne_lockEthAmount = Inr 5, ne_balance = Inr 0, ne_depositGasPrice = Inr 7, ne_deposit = Inr (),
     ne_random = (\<lambda>n. 0), ne_gasPrice = Inr 8, ne_addBlock = Inr (), ne_latestTimestamp = Inr 0, ne_status = Inr ()\<rparr>"

lemma demo_block_encoded: "\<exists>bs. borshify demo_lib demo_block = Inr bs"
  using light_block.whole_message [of demo_lib demo_block "\<lambda>x. x"] demo_lib_ok demo_block_ok by blast

theorem n2e_round_submits_witness:
  "\<exists>bs dp. borshify demo_lib demo_block = Inr bs
    \<and> fst (n2e_round demo_lib demo_options_n2e demo_n2e_env) = [SendDeposit 5 dp, SendBlock bs 16]"
proof -
  obtain bs where bs: "borshify demo_lib demo_block = Inr bs" using demo_block_encoded ..
  have "SendBlock bs 16 \<in> set (fst (n2e_round demo_lib demo_options_n2e demo_n2e_env))"
    using bs by (simp add: n2e_round_def run_catch_def n2e_round_body_def demo_n2e_env_def demo_options_n2e_def run_simps
        replace_delay_def block_lite_def wants_submit_def submit_block_def ensure_stake_def send_block_def to_number_def
        demo_block_def demo_header_def)
  from n2e_round_submits [OF this] bs show ?thesis
    by (auto simp: demo_n2e_env_def)
qed

definition demo_init_env :: "unit res \<Rightarrow> n2e_init_env" where
  "demo_init_env r = \<lparr>ie_initialized = Inr False, ie_lastFinalBlock = Inr zero_hash,
     ie_validators = (\<lambda>i. if i = 0 then Inr None else Inr (Some [demo_validator None])),
     ie_lightBlock = (\<lambda>i. Inr (Some demo_block)), ie_gasPrice = Inr 10, ie_sendValidators = (\<lambda>i. r),
     ie_blockGasPrice = (\<lambda>i. Inr 20), ie_sendBlock = (\<lambda>i. r)\<rparr>"

lemma demo_validators_encoded: "\<exists>bs. borshifyInitialValidators demo_lib [demo_validator None] = Inr bs"
  using block_producers.whole_message [of demo_lib "[demo_validator None]"] demo_lib_ok demo_validators_ok
  by (auto simp: list_all_iff)

lemma demo_wait: "wait_light_block (Suc (Suc 0)) (demo_init_env r) 0 = Inr (Some ([demo_validator None], demo_block))"
  by (simp add: demo_init_env_def)

lemma demo_initialize:
  "\<exists>ts. n2e_initialize (Suc (Suc 0)) demo_lib 3 (demo_init_env (Inr ())) = (ts, Inr True)"
proof -
  obtain bv bb where enc: "borshifyInitialValidators demo_lib [demo_validator None] = Inr bv"
    "borshify demo_lib demo_block = Inr bb"
    using demo_block_encoded demo_validators_encoded by blast
  have "snd (n2e_initialize (Suc (Suc 0)) demo_lib 3 (demo_init_env (Inr ()))) = Inr True"
    using enc demo_wait [of "Inr ()"]
    by (simp add: n2e_initialize_def run_catch_def demo_init_env_def run_simps numeral_eq_Suc)
  then show ?thesis by (metis prod.collapse)
qed

end
