(* ===== verification/Metrics_Server.thy ===== *)
theory Metrics_Server
  imports Bridge_Prelude
begin

text \<open>
  The metrics server \<^verbatim>\<open>utils/http-prometheus.js\<close>, which the services of the bridge share, and the metrics that the two relays and the watchdog
  register with it when they start.

  The registry of the package prom-client is the list of its metrics, in the order of their registration. It refuses a name it has already and
  a name that is not valid; which names are valid is the argument \<open>valid\<close>.
\<close>

section \<open>HttpPrometheus\<close>

text \<open>\<open>None\<close> is a port that was not given at all.\<close>

definition prometheus_listens :: "string option \<Rightarrow> bool" where
  "prometheus_listens port \<longleftrightarrow> port \<noteq> Some ''null''"

definition prometheus_answer :: "string \<Rightarrow> string \<Rightarrow> string" where
  "prometheus_answer metrics url = (if url = ''/metrics'' then metrics else ''Not Found'')"

definition metric_name :: "string \<Rightarrow> string \<Rightarrow> string" where
  "metric_name metricsPrefix name = metricsPrefix @ name"

record http_prometheus =
  hp_metricsPrefix :: string
  hp_port :: "string option"
  hp_listening :: bool

definition HttpPrometheus :: "string option \<Rightarrow> string option \<Rightarrow> http_prometheus" where
  "HttpPrometheus port metricsPrefix = \<lparr>hp_metricsPrefix = (case metricsPrefix of None \<Rightarrow> ''near_bridge_'' | Some p \<Rightarrow> p),
     hp_port = (if prometheus_listens port then port else None), hp_listening = prometheus_listens port\<rparr>"

datatype metric_kind = GaugeMetric | CounterMetric

record metric =
  mt_kind :: metric_kind
  mt_name :: string
  mt_help :: string
  mt_labelNames :: "string list"

definition register_metric :: "(string \<Rightarrow> bool) \<Rightarrow> metric \<Rightarrow> metric list \<Rightarrow> metric list res" where
  "register_metric valid mt reg = (if \<not> valid (mt_name mt) then Inl (LibraryError ''Invalid metric name'')
     else if mt_name mt \<in> set (map mt_name reg) then Inl (LibraryError ''A metric with this name has already been registered'')
     else Inr (reg @ [mt]))"

definition hp_gauge :: "(string \<Rightarrow> bool) \<Rightarrow> http_prometheus \<Rightarrow> string \<Rightarrow> string \<Rightarrow> (string \<times> string) list \<Rightarrow> metric list \<Rightarrow> metric list res" where
  "hp_gauge valid hp name help labels = register_metric valid
     \<lparr>mt_kind = GaugeMetric, mt_name = metric_name (hp_metricsPrefix hp) name, mt_help = help, mt_labelNames = map fst labels\<rparr>"

definition hp_counter :: "(string \<Rightarrow> bool) \<Rightarrow> http_prometheus \<Rightarrow> string \<Rightarrow> string \<Rightarrow> (string \<times> string) list \<Rightarrow> metric list \<Rightarrow> metric list res" where
  "hp_counter valid hp name help labels = register_metric valid
     \<lparr>mt_kind = CounterMetric, mt_name = metric_name (hp_metricsPrefix hp) name, mt_help = help, mt_labelNames = map fst labels\<rparr>"

section \<open>The metrics of the services\<close>

definition eth2near_metrics :: "(string \<Rightarrow> bool) \<Rightarrow> string option \<Rightarrow> metric list res" where
  "eth2near_metrics valid metricsPort = (let hp = HttpPrometheus metricsPort (Some ''near_bridge_eth2near_'') in
     res_bind (hp_gauge valid hp ''client_block_number'' ''current client block number'' [] []) (\<lambda>reg1.
     res_bind (hp_gauge valid hp ''chain_block_number'' ''current chain block number'' [] reg1) (\<lambda>reg2.
     hp_counter valid hp ''errors_on_submit'' ''number of errors while submitting header'' [] reg2)))"

definition near2eth_metrics :: "(string \<Rightarrow> bool) \<Rightarrow> string option \<Rightarrow> metric list res" where
  "near2eth_metrics valid metricsPort = (let hp = HttpPrometheus metricsPort (Some ''near_bridge_near2eth_'') in
     res_bind (hp_gauge valid hp ''client_height'' ''amount of block client processed'' [] []) (\<lambda>reg1.
     hp_gauge valid hp ''chain_height'' ''current chain height'' [] reg1))"

definition watchdog_metrics :: "(string \<Rightarrow> bool) \<Rightarrow> string option \<Rightarrow> metric list res" where
  "watchdog_metrics valid metricsPort = (let hp = HttpPrometheus metricsPort (Some ''near_bridge_watchdog_'') in
     res_bind (hp_gauge valid hp ''last_block_verified'' ''last block that was already verified'' [] []) (\<lambda>reg1.
     res_bind (hp_gauge valid hp ''block_producers'' ''number of block producers for current block'' [] reg1) (\<lambda>reg2.
     res_bind (hp_counter valid hp ''incorrect_blocks'' ''number of incorrect blocks found'' [] reg2) (\<lambda>reg3.
     hp_counter valid hp ''challenges_submitted'' ''number of blocks challenged'' [] reg3))))"

section \<open>What is registered\<close>

text \<open>The registry never has two metrics of one name, and keeps what it has.\<close>

lemma register_metric_distinct:
  assumes "register_metric valid mt reg = Inr reg'" "distinct (map mt_name reg)"
  shows "distinct (map mt_name reg') \<and> reg' = reg @ [mt] \<and> valid (mt_name mt)"
  using assms by (auto simp: register_metric_def split: if_splits)

text \<open>With valid names no service fails for its metrics, and the names of different services are different.\<close>

definition metric_names :: "metric list res \<Rightarrow> string list" where
  "metric_names r = (case r of Inl _ \<Rightarrow> [] | Inr reg \<Rightarrow> map mt_name reg)"

lemma services_register:
  assumes "\<And>name. valid name"
  shows "distinct (metric_names (eth2near_metrics valid p) @ metric_names (near2eth_metrics valid q) @ metric_names (watchdog_metrics valid r))
    \<and> length (metric_names (eth2near_metrics valid p)) = 3 \<and> length (metric_names (near2eth_metrics valid q)) = 2
    \<and> length (metric_names (watchdog_metrics valid r)) = 4"
  using assms
  by (simp add: metric_names_def eth2near_metrics_def near2eth_metrics_def watchdog_metrics_def hp_gauge_def hp_counter_def register_metric_def
      HttpPrometheus_def metric_name_def)

end
