(* ===== verification/Watchdog.thy ===== *)
theory Watchdog
  imports Near2Eth_Relay Metrics_Server
begin

text \<open>
  The watchdog, \<^verbatim>\<open>near2eth/watchdog/index.js\<close>, which checks the signatures of the block that is
  waiting in the light client contract and challenges it when one of them is wrong.

  The watchdog takes \<^verbatim>\<open>promiseWithTimeout\<close> from the package \<^verbatim>\<open>rainbow-bridge-utils\<close>. Which names that
  package binds is decided by the export list of \<^verbatim>\<open>utils/index.js\<close>, so the list is part of the model:
  a name that is not on it is \<^verbatim>\<open>undefined\<close> in the importing module.
\<close>

section \<open>The exports of rainbow-bridge-utils\<close>

definition utils_exports :: "string list" where
  "utils_exports = [''getScript'', ''backoff'', ''nearAPI'', ''JSONreplacer'', ''Web3'', ''sleep'', ''RobustWeb3'',
     ''setupEthNear'', ''normalizeEthKey'', ''accountExists'', ''remove0x'', ''createLocalKeyStore'', ''getWeb3'',
     ''getEthContract'', ''addSecretKey'', ''fromWei'', ''toWei'', ''txnStatus'', ''ethCallContract'', ''BorshContract'',
     ''hexToBuffer'', ''readerToHex'', ''maybeCreateAccount'', ''verifyAccount'', ''RainbowConfig'',
     ''nearJsonContractFunctionCall'', ''borshifyInitialValidators'', ''borshifyOutcomeProof'', ''borshify'']"

definition watchdog_imports :: "string list" where
  "watchdog_imports = [''sleep'', ''Web3'', ''RobustWeb3'', ''normalizeEthKey'', ''promiseWithTimeout'']"

definition imported :: "string \<Rightarrow> bool" where
  "imported name \<longleftrightarrow> name \<in> set utils_exports"

section \<open>The watchdog\<close>

datatype watchdog_effect =
    IncorrectBlock
  | SendChallenge nat nat nat
  | ChallengeCounted

record watchdog_env =
  wd_bridgeState :: "bridge_state res"
  wd_check :: "nat \<Rightarrow> bool res"
  wd_gasPrice :: "nat res"
  wd_nonce :: "nat res"
  wd_send :: "nat \<Rightarrow> (nat \<times> (string + unit)) option"

text \<open>The key of the master account, without its prefix.\<close>

definition watchdog_key :: "string \<Rightarrow> string" where
  "watchdog_key ethMasterSk = (if startsWith ethMasterSk ''0x'' then drop 2 ethMasterSk else ethMasterSk)"

text \<open>
  \<^verbatim>\<open>promiseWithTimeout(5 * 60 * 1000, sendSignedTransaction(tx), msg)\<close>: the arguments are evaluated
  first, so the transaction is sent; calling \<^verbatim>\<open>undefined\<close> is then a TypeError.
\<close>

definition send_with_timeout :: "watchdog_env \<Rightarrow> nat \<Rightarrow> js_error + unit" where
  "send_with_timeout E attempt =
     (if imported ''promiseWithTimeout'' then
        (case promiseWithTimeout (5 * 60 * 1000) (wd_send E attempt) SLOW_TX_ERROR_MSG of
           Inl m \<Rightarrow> Inl (JsError m) | Inr u \<Rightarrow> Inr u)
      else Inl JsTypeError)"

text \<open>The loop that resends a challenge with a doubled gas price; \<open>Inr False\<close> is out of fuel.\<close>

fun challenge_loop :: "nat \<Rightarrow> watchdog_env \<Rightarrow> nat \<Rightarrow> nat \<Rightarrow> nat \<Rightarrow> nat \<Rightarrow> (watchdog_effect, bool) run" where
  "challenge_loop 0 E i nonce attempt gasPrice = run_ret False"
| "challenge_loop (Suc fuel) E i nonce attempt gasPrice =
     (if gasPrice < GAS_LIMIT then
        run_bind (run_do (SendChallenge i gasPrice nonce) (Inr ())) (\<lambda>_.
          case send_with_timeout E attempt of
            Inr _ \<Rightarrow> run_do ChallengeCounted (Inr True)
          | Inl e \<Rightarrow> if error_message e = SLOW_TX_ERROR_MSG
              then challenge_loop fuel E i nonce (Suc attempt) (gasPrice * 2)
              else run_ask (Inl e))
      else run_ret True)"

definition challenge :: "nat \<Rightarrow> watchdog_env \<Rightarrow> nat \<Rightarrow> (watchdog_effect, bool) run" where
  "challenge fuel E i = run_catch
     (run_bind (run_ask (wd_gasPrice E)) (\<lambda>gasPrice.
      run_bind (run_ask (wd_nonce E)) (\<lambda>nonce. challenge_loop fuel E i nonce 0 gasPrice)))
     (\<lambda>e. run_ret True)"

fun check_signatures :: "nat \<Rightarrow> watchdog_env \<Rightarrow> nat \<Rightarrow> nat \<Rightarrow> (watchdog_effect, bool) run" where
  "check_signatures fuel E i 0 = run_ret True"
| "check_signatures fuel E i (Suc left) = (case wd_check E i of
     Inl e \<Rightarrow> if endsWith (error_message e) ''No such signature''
       then check_signatures fuel E (Suc i) left else run_ask (Inl e)
   | Inr True \<Rightarrow> check_signatures fuel E (Suc i) left
   | Inr False \<Rightarrow> run_bind (run_do IncorrectBlock (Inr ())) (\<lambda>_. challenge fuel E i))"

text \<open>One round of \<^verbatim>\<open>run\<close>; its result is the number of seconds to sleep.\<close>

definition watchdog_round :: "nat \<Rightarrow> watchdog_env \<Rightarrow> int \<Rightarrow> int \<Rightarrow> (watchdog_effect, int) run" where
  "watchdog_round fuel E watchdogDelay watchdogErrorDelay = run_catch
     (run_bind (run_ask (wd_bridgeState E)) (\<lambda>st.
      run_bind (if nextValidAt st = 0 then run_ret True
        else check_signatures fuel E 0 (numBlockProducers st)) (\<lambda>_. run_ret watchdogDelay)))
     (\<lambda>e. run_ret watchdogErrorDelay)"

section \<open>Which block is challenged\<close>

text \<open>A signature the watchdog passes over: a correct one, or one that is not there.\<close>

definition passed_over :: "bool res \<Rightarrow> bool" where
  "passed_over r = (case r of Inr b \<Rightarrow> b | Inl e \<Rightarrow> endsWith (error_message e) ''No such signature'')"

lemma challenge_loop_effects:
  "x \<in> set (fst (challenge_loop fuel E i nonce attempt g)) \<Longrightarrow>
   x = ChallengeCounted \<and> imported ''promiseWithTimeout'' \<or> (\<exists>p. x = SendChallenge i p nonce \<and> p < GAS_LIMIT)"
proof (induction fuel arbitrary: attempt g)
  case (Suc fuel)
  then show ?case
    by (auto simp: set_run_bind send_with_timeout_def split: if_splits sum.splits)
qed simp

lemma challenge_effects:
  "x \<in> set (fst (challenge fuel E i)) \<Longrightarrow>
   x = ChallengeCounted \<and> imported ''promiseWithTimeout'' \<or> (\<exists>p nonce. x = SendChallenge i p nonce \<and> p < GAS_LIMIT)"
  unfolding challenge_def
  by (subst (asm) fst_run_catch) (auto simp: set_run_bind dest: challenge_loop_effects)

lemma check_signatures_effects:
  assumes "x \<in> set (fst (check_signatures fuel E i left))"
  shows "\<exists>j. i \<le> j \<and> j < i + left \<and> (\<forall>k. i \<le> k \<and> k < j \<longrightarrow> passed_over (wd_check E k)) \<and> wd_check E j = Inr False
    \<and> (x = IncorrectBlock \<or> x \<in> set (fst (challenge fuel E j)))"
  using assms
proof (induction left arbitrary: i)
  case (Suc left)
  show ?case
  proof (cases "passed_over (wd_check E i)")
    case True
    then have "check_signatures fuel E i (Suc left) = check_signatures fuel E (Suc i) left"
      by (auto simp: passed_over_def split: sum.splits)
    with Suc.IH [of "Suc i"] Suc.prems obtain j where j: "Suc i \<le> j" "j < Suc i + left"
      "\<forall>k. Suc i \<le> k \<and> k < j \<longrightarrow> passed_over (wd_check E k)" "wd_check E j = Inr False"
      "x = IncorrectBlock \<or> x \<in> set (fst (challenge fuel E j))" by auto
    have "\<forall>k. i \<le> k \<and> k < j \<longrightarrow> passed_over (wd_check E k)"
      using j(3) True by (metis Suc_leI le_neq_implies_less)
    with j show ?thesis by (intro exI [of _ j]) auto
  next
    case False
    then show ?thesis
      using Suc.prems by (intro exI [of _ i])
        (auto simp: passed_over_def set_run_bind split: sum.splits bool.splits if_splits)
  qed
qed simp

lemma fst_watchdog_round:
  "fst (watchdog_round fuel E d ed) = (case wd_bridgeState E of
     Inl _ \<Rightarrow> [] | Inr st \<Rightarrow> if nextValidAt st = 0 then [] else fst (check_signatures fuel E 0 (numBlockProducers st)))"
proof -
  have "fst (run_bind r (\<lambda>_. run_ret x)) = fst r" for r :: "(watchdog_effect, bool) run" and x :: int
    by (auto simp: run_bind_def run_ret_def split: prod.splits sum.splits)
  then show ?thesis
    unfolding watchdog_round_def by (subst fst_run_catch) (auto simp: run_simps split: sum.splits)
qed

text \<open>
  C31. The watchdog challenges only a wrong signature: if a round sends a challenge of signature \<open>i\<close>, a block
  is waiting in the contract, \<open>i\<close> is below its number of block producers, the contract reports
  signature \<open>i\<close> as wrong and every earlier one as correct or missing, and the gas price is below 1e13.
\<close>

theorem watchdog_challenges_wrong_signature:
  assumes "SendChallenge i p n \<in> set (fst (watchdog_round fuel E watchdogDelay watchdogErrorDelay))"
  shows "\<exists>st. wd_bridgeState E = Inr st \<and> nextValidAt st \<noteq> 0 \<and> i < numBlockProducers st
    \<and> wd_check E i = Inr False \<and> (\<forall>k<i. passed_over (wd_check E k)) \<and> p < GAS_LIMIT"
proof -
  from assms obtain st where st: "wd_bridgeState E = Inr st" "nextValidAt st \<noteq> 0"
    "SendChallenge i p n \<in> set (fst (check_signatures fuel E 0 (numBlockProducers st)))"
    by (cases "wd_bridgeState E") (auto simp: fst_watchdog_round split: if_splits)
  from check_signatures_effects [OF st(3)] obtain j where j: "j < numBlockProducers st"
    "\<forall>k<j. passed_over (wd_check E k)" "wd_check E j = Inr False" "SendChallenge i p n \<in> set (fst (challenge fuel E j))"
    by auto
  with challenge_effects [OF j(4)] st show ?thesis by auto
qed

definition demo_watchdog_env :: watchdog_env where
  "demo_watchdog_env = \<lparr>wd_bridgeState = Inr \<lparr>currentHeight = 5, nextTimestamp = 6, nextValidAt = 7, numBlockProducers = 4\<rparr>,
     wd_check = (\<lambda>i. if i = 0 then Inl (JsError ''revert No such signature'') else if i = 2 then Inr False else Inr True),
     wd_gasPrice = Inr 50, wd_nonce = Inr 3, wd_send = (\<lambda>i. Some (1000, Inr ()))\<rparr>"

text \<open>The first wrong signature.\<close>

lemma check_signatures_first_wrong:
  assumes "\<forall>k<m. passed_over (wd_check E (i + k))" "m < left" "wd_check E (i + m) = Inr False"
  shows "check_signatures fuel E i left = run_bind (run_do IncorrectBlock (Inr ())) (\<lambda>_. challenge fuel E (i + m))"
  using assms
proof (induction m arbitrary: i left)
  case 0
  then show ?case by (cases left) simp_all
next
  case (Suc m)
  then obtain left' where left: "left = Suc left'" by (cases left) auto
  have "passed_over (wd_check E i)" using Suc.prems(1) by (metis add_0_right zero_less_Suc)
  then have "check_signatures fuel E i left = check_signatures fuel E (Suc i) left'"
    by (auto simp: left passed_over_def split: sum.splits)
  moreover have "\<forall>k<m. passed_over (wd_check E (Suc i + k))" using Suc.prems(1) by auto
  ultimately show ?case
    using Suc.IH [of "Suc i" left'] Suc.prems(2,3) left by simp
qed

lemma check_signatures_challenge:
  assumes "i < num" "\<forall>k<i. passed_over (wd_check E k)" "wd_check E i = Inr False"
    and "wd_gasPrice E = Inr g" "wd_nonce E = Inr n" "g < GAS_LIMIT"
  shows "check_signatures (Suc fuel) E 0 num = ([IncorrectBlock, SendChallenge i g n], Inr True)"
proof -
  have no: "\<not> imported ''promiseWithTimeout''" by (simp add: imported_def utils_exports_def)
  have "challenge (Suc fuel) E i = ([SendChallenge i g n], Inr True)"
    using assms(4-6) no by (simp add: challenge_def run_simps send_with_timeout_def SLOW_TX_ERROR_MSG_def)
  then show ?thesis
    using check_signatures_first_wrong [of i E 0 num "Suc fuel"] assms(1-3) by (simp add: run_simps)
qed

text \<open>
  The watchdog does challenge the first wrong signature: in a round that can read the gas price and the
  nonce, the block is counted as incorrect and exactly one challenge is sent, for that signature, at
  the current gas price, if it is below 1e13. It is never counted as submitted and never resent
  with a higher gas price, whatever becomes of it: \<^verbatim>\<open>promiseWithTimeout\<close> is not exported by
  \<^verbatim>\<open>rainbow-bridge-utils\<close>, and calling it fails right after the transaction has been handed to the node.
\<close>

lemma watchdog_challenges_once:
  assumes "wd_bridgeState E = Inr st" "nextValidAt st \<noteq> 0" "i < numBlockProducers st"
    and "\<forall>k<i. passed_over (wd_check E k)" "wd_check E i = Inr False"
    and "wd_gasPrice E = Inr g" "wd_nonce E = Inr n" "g < GAS_LIMIT"
  shows "fst (watchdog_round (Suc fuel) E watchdogDelay watchdogErrorDelay) = [IncorrectBlock, SendChallenge i g n]
    \<and> snd (watchdog_round (Suc fuel) E watchdogDelay watchdogErrorDelay) = Inr watchdogDelay"
  using assms(1,2) check_signatures_challenge [OF assms(3-8)] by (simp add: watchdog_round_def run_simps)

theorem watchdog_challenges_wrong_signature_witness:
  "\<exists>p n. SendChallenge 2 p n \<in> set (fst (watchdog_round (Suc 0) demo_watchdog_env 300 2)) \<and> p < GAS_LIMIT"
proof -
  have "SendChallenge 2 50 3 \<in> set (fst (watchdog_round (Suc 0) demo_watchdog_env 300 2))"
    using check_signatures_challenge [of 2 4 demo_watchdog_env 50 3 0]
    by (simp add: fst_watchdog_round demo_watchdog_env_def passed_over_def endsWith_def GAS_LIMIT_def)
  from watchdog_challenges_wrong_signature [OF this] this show ?thesis by blast
qed

end
