(* ===== verification/Bridge_Composition.thy ===== *)
theory Bridge_Composition
  imports Bridge_Safety Watchdog
begin

text \<open>
  The relay and the watchdog together with the light client contract: what the two programs decide from the
  state they read, the contract accepts. The programs read the contract through web3, which hands out the
  integers of the contract as numbers and reports a revert as an error whose message ends with the reason.
\<close>

section \<open>Reading the contract\<close>

definition relay_state :: "uint256 \<Rightarrow> nearbridge \<Rightarrow> bridge_state" where
  "relay_state now s = (let st = bridgeState now s in
     \<lparr>currentHeight = unat (sbs_currentHeight st), nextTimestamp = unat (sbs_nextTimestamp st),
      nextValidAt = unat (sbs_nextValidAt st), numBlockProducers = sbs_numBlockProducers st\<rparr>)"

text \<open>The storage as a new block finds it: a pending block whose challenge period is over is committed.\<close>

definition head_state :: "uint256 \<Rightarrow> nearbridge \<Rightarrow> nearbridge" where
  "head_state now s = (if nb_lastValidAt s \<le> now \<and> nb_lastValidAt s \<noteq> 0 then commit_block s else s)"

lemma unat_ucast_height: "unat (ucast (h :: 64 word) :: uint256) = unat h"
proof -
  have "unat h < 2 ^ 64" using unsigned_less [of h, where ?'a = nat] by simp
  then have "unat h < 2 ^ 256" by (rule less_le_trans) simp
  then show ?thesis by (simp only: unsigned_ucast_eq take_bit_nat_eq_self_iff) simp
qed

lemma relay_state_height: "currentHeight (relay_state now s) = unat (nb_curHeight (head_state now s))"
  by (auto simp: relay_state_def bridgeState_def head_state_def unat_ucast_height Let_def)

lemma relay_state_pending:
  "nextValidAt (relay_state now s) = (if now < nb_lastValidAt s then unat (nb_lastValidAt s) else 0)"
  "now < nb_lastValidAt s \<Longrightarrow> nextTimestamp (relay_state now s) = unat (nb_untrustedTimestamp s)"
  "now < nb_lastValidAt s \<Longrightarrow> numBlockProducers (relay_state now s) = ep_numBPs (untrusted_epoch s)"
  by (simp_all add: relay_state_def bridgeState_def Let_def)

section \<open>The relay\<close>

text \<open>
  What the relay leaves to NEAR: the block belongs to the current or the next epoch of the contract and
  carries the approvals, and at the start of an epoch the block producers, that the contract asks for.
\<close>

definition verifiable :: "nearbridge \<Rightarrow> sol_light_client_block \<Rightarrow> bool" where
  "verifiable s b \<longleftrightarrow> (\<exists>ne eps. from_next_epoch s (sil_epoch_id (slb_inner_lite b)) = Inr ne
     \<and> check_block b ne (nb_epochs s ! (if ne then next_epoch_index s else nb_curEpoch s)) = Inr ()
     \<and> next_producers b ne s = Inr eps)"

lemma add_block_accepts:
  assumes "commit_previous (tx_now tx) (sil_timestamp (slb_inner_lite b)) s = Inr s1"
    and "nb_curHeight s1 < sil_height (slb_inner_lite b)" "verifiable s1 b"
  shows "\<exists>ne eps. from_next_epoch s1 (sil_epoch_id (slb_inner_lite b)) = Inr ne \<and> add_block tx b s = Inr (set_untrusted tx b ne
    (store_signatures 0 (take (ep_numBPs (nb_epochs s1 ! (if ne then next_epoch_index s1 else nb_curEpoch s1)))
      (slb_approvals_after_next b)) 0 (nb_untrustedSignatures s1)) eps s1)"
proof -
  obtain ne eps where ne: "from_next_epoch s1 (sil_epoch_id (slb_inner_lite b)) = Inr ne"
    "check_block b ne (nb_epochs s1 ! (if ne then next_epoch_index s1 else nb_curEpoch s1)) = Inr ()"
    "next_producers b ne s1 = Inr eps" using assms(3) unfolding verifiable_def by blast
  show ?thesis
    unfolding add_block_def Let_def
    by (intro exI [of _ ne] exI [of _ eps] conjI ne(1)) (simp only: assms(1,2) ne res_bind_Inr require_True)
qed

text \<open>\<^verbatim>\<open>timestamp\<close> and \<^verbatim>\<open>timestamp_nanosec\<close> of a block header are the same number, one of them as a string.\<close>

definition timestamps_agree :: "inner_lite \<Rightarrow> bool" where
  "timestamps_agree h \<longleftrightarrow> (\<forall>t. timestamp h = Some t \<longrightarrow> the_num (num_or (timestamp_nanosec h) (timestamp h)) = num_value t)"

lemma commit_accepts:
  assumes "block_ok L b" "timestamps_agree (lcb_inner_lite b)"
    and "now < nb_lastValidAt s \<longrightarrow> (\<exists>t. timestamp (lcb_inner_lite b) = Some t \<and> unat (nb_untrustedTimestamp s) + unat (nb_replaceDuration s) \<le> num_value t)"
  shows "commit_previous now (sil_timestamp (inner_lite_view L sha (lcb_inner_lite b))) s = Inr (head_state now s)"
proof (cases "now < nb_lastValidAt s")
  case True
  let ?ts = "the_num (num_or (timestamp_nanosec (lcb_inner_lite b)) (timestamp (lcb_inner_lite b)))"
  have small: "?ts < 2 ^ 64"
    using assms(1) num_ok_bound [of 8] by (auto simp: block_ok_def inner_lite_ok_def)
  have le: "unat (nb_untrustedTimestamp s) + unat (nb_replaceDuration s) \<le> ?ts"
    using True assms(2,3) by (auto simp: timestamps_agree_def)
  have big: "unat (nb_untrustedTimestamp s) + unat (nb_replaceDuration s) < 2 ^ 256"
    using le small by (rule le_less_trans [THEN less_le_trans]) simp
  have "unat (word_of_nat ?ts :: 64 word) = ?ts" using small by (simp add: unat_of_nat)
  then have "unat (ucast (word_of_nat ?ts :: 64 word) :: uint256) = ?ts" by (simp add: unat_ucast_height)
  with le big have "nb_untrustedTimestamp s + nb_replaceDuration s \<le> ucast (word_of_nat ?ts :: 64 word)"
    by (simp add: word_le_nat_alt unat_word_ariths)
  with True show ?thesis by (auto simp: commit_previous_def head_state_def inner_lite_view_def)
qed (auto simp: commit_previous_def head_state_def)

lemma head_state_frame:
  "nb_epochs (head_state now (s\<lparr>nb_balanceOf := f, nb_ether := n\<rparr>)) = nb_epochs (head_state now s)"
  "nb_curEpoch (head_state now (s\<lparr>nb_balanceOf := f, nb_ether := n\<rparr>)) = nb_curEpoch (head_state now s)"
  "nb_curHeight (head_state now (s\<lparr>nb_balanceOf := f, nb_ether := n\<rparr>)) = nb_curHeight (head_state now s)"
  by (simp_all add: head_state_def commit_block_def next_epoch_index_def)

lemma verifiable_frame:
  "nb_epochs s' = nb_epochs s \<Longrightarrow> nb_curEpoch s' = nb_curEpoch s \<Longrightarrow> verifiable s' b = verifiable s b"
  by (simp add: verifiable_def from_next_epoch_def next_producers_def next_epoch_index_def Let_def)

lemma wants_submit_fresh:
  assumes "replace_delay st rd (Some b) = Inr delay" "wants_submit st delay (lcb_inner_lite b)"
  shows "nextValidAt st \<noteq> 0 \<longrightarrow> (\<exists>t. timestamp (lcb_inner_lite b) = Some t \<and> nextTimestamp st + rd \<le> num_value t)"
  using assms by (auto simp: wants_submit_def replace_delay_def block_lite_def split: option.splits if_splits)

text \<open>The transaction \<^verbatim>\<open>deposit\<close> the relay sends before the block when it has no stake.\<close>

definition after_deposit :: "eth_address \<Rightarrow> uint256 \<Rightarrow> nearbridge \<Rightarrow> sol_error + nearbridge" where
  "after_deposit me now s = (if nb_balanceOf s me = 0
     then bridge_deposit \<lparr>tx_sender = me, tx_value = nb_lockEthAmount s, tx_now = now, tx_accepts = True\<rparr> s else Inr s)"

lemma after_deposit_ok:
  assumes "stakes_ok now s" "nb_paused s AND 1 = 0"
  shows "\<exists>f n. after_deposit me now s = Inr (s\<lparr>nb_balanceOf := f, nb_ether := n\<rparr>) \<and> f me = nb_lockEthAmount s"
proof (cases "nb_balanceOf s me = 0")
  case True
  then show ?thesis
    using assms(2) by (simp add: after_deposit_def bridge_deposit_def pausable_def) (metis fun_upd_same)
next
  case False
  then have "nb_balanceOf s me = nb_lockEthAmount s" using assms(1) by (auto simp: stakes_ok_def)
  moreover have "s = s\<lparr>nb_balanceOf := nb_balanceOf s, nb_ether := nb_ether s\<rparr>" by simp
  ultimately show ?thesis using False unfolding after_deposit_def by metis
qed


section \<open>Initialization\<close>



section \<open>The watchdog\<close>

text \<open>What \<^verbatim>\<open>checkBlockProducerSignatureInHead(i).call()\<close> gives; \<open>describe\<close> is the message web3 makes of a revert.\<close>

definition web3_result :: "(string \<Rightarrow> string) \<Rightarrow> sol_error + 'a \<Rightarrow> 'a res" where
  "web3_result describe r = (case r of Inr x \<Rightarrow> Inr x | Inl (Revert m) \<Rightarrow> Inl (LibraryError (describe m)))"

definition reports_reason :: "(string \<Rightarrow> string) \<Rightarrow> bool" where
  "reports_reason describe \<longleftrightarrow> (\<forall>m. endsWith (describe m) m)"

lemma check_outcomes:
  assumes "reports_reason describe" "web3_result describe (checkBlockProducerSignatureInHead ed i s) \<noteq> Inr False"
  shows "passed_over (web3_result describe (checkBlockProducerSignatureInHead ed i s))"
proof (cases "checkBlockProducerSignatureInHead ed i s")
  case (Inl e)
  then have "e = Revert ''No such signature''"
    by (auto simp: checkBlockProducerSignatureInHead_def require_def res_bind_def Let_def split: if_splits)
  with Inl assms(1) show ?thesis by (simp add: web3_result_def passed_over_def reports_reason_def)
qed (use assms(2) in \<open>simp add: web3_result_def passed_over_def\<close>)

text \<open>
  C4. The watchdog removes a block with a wrong signature: if, in a reachable state with a pending block, some
  signature of the block does not check, a round of the watchdog that reads this state sends exactly one
  challenge, and the contract accepts it before the end of the challenge period: the pending block is gone and
  the stake of its submitter is taken.
\<close>

theorem watchdog_removes_wrong_block:
  assumes reach: "bridge_reach sha ed (tx_now tx, s)" and pending: "tx_now tx < nb_lastValidAt s"
    and reads: "wd_bridgeState E = Inr (relay_state (tx_now tx) s)"
      "wd_check E = (\<lambda>i. web3_result describe (checkBlockProducerSignatureInHead ed i s))" "reports_reason describe"
      "wd_gasPrice E = Inr g" "wd_nonce E = Inr n" "g < GAS_LIMIT"
    and wrong: "checkBlockProducerSignatureInHead ed j s = Inr False"
    and call: "tx_value tx = 0" "nb_paused s AND 8 = 0" "tx_accepts tx"
  shows "\<exists>i s'. fst (watchdog_round (Suc fuel) E watchdogDelay watchdogErrorDelay) = [IncorrectBlock, SendChallenge i g n]
    \<and> bridge_challenge ed tx (tx_sender tx) i s = Inr s' \<and> nb_lastValidAt s' = 0 \<and> nb_balanceOf s' (nb_lastSubmitter s) = 0"
proof -
  let ?bad = "\<lambda>i. checkBlockProducerSignatureInHead ed i s = Inr False"
  define i where "i = (LEAST i. ?bad i)"
  have bad: "?bad i" unfolding i_def using wrong by (rule LeastI)
  have "passed_over (wd_check E k)" if "k < i" for k
  proof -
    have "\<not> ?bad k" using that not_less_Least unfolding i_def by blast
    then have "web3_result describe (checkBlockProducerSignatureInHead ed k s) \<noteq> Inr False"
      by (auto simp: web3_result_def split: sum.splits sol_error.splits)
    from check_outcomes [OF reads(3) this] show ?thesis by (simp add: reads(2))
  qed
  moreover have "i < numBlockProducers (relay_state (tx_now tx) s)"
  proof -
    have "shape_ok (tx_now tx) s" using shape.reach_holds [OF reach] by simp
    moreover have "bit (nb_untrustedSignatureSet s) i" "nb_lastValidAt s \<noteq> 0"
      using bad pending by (auto simp: checkBlockProducerSignatureInHead_def res_bind_eq_Inr_iff and_exp_eq_0_iff_not_bit push_bit_of_1)
    ultimately show ?thesis using relay_state_pending(3) [OF pending] by (auto simp: shape_ok_def)
  qed
  moreover have "wd_check E i = Inr False" by (simp add: reads(2) bad web3_result_def)
  ultimately have c: "check_signatures (Suc fuel) E 0 (numBlockProducers (relay_state (tx_now tx) s)) = ([IncorrectBlock, SendChallenge i g n], Inr True)"
    using check_signatures_challenge [of i] reads(4-6) by blast
  have "nextValidAt (relay_state (tx_now tx) s) \<noteq> 0"
    using pending relay_state_pending(1) [of "tx_now tx" s] by (simp add: word_less_nat_alt)
  with c reads(1) have "fst (watchdog_round (Suc fuel) E watchdogDelay watchdogErrorDelay) = [IncorrectBlock, SendChallenge i g n]"
    by (simp add: fst_watchdog_round)
  with challenge_works [OF reach pending bad call] show ?thesis by blast
qed

section \<open>Concrete runs\<close>

definition one_hash :: string where
  "one_hash = ''11111111111111111111111111111112''"

lemma demo_one_hash: "hash_ok demo_lib one_hash" "the_hash demo_lib one_hash = replicate 31 0 @ [1]"
  by code_simp+

definition demo_next_block :: light_client_block where
  "demo_next_block = demo_block\<lparr>lcb_inner_lite := demo_header\<lparr>height := Num 12640119, block_merkle_root := one_hash\<rparr>,
     approvals_after_next := [Some (''ed25519:'' @ zero_hash @ zero_hash)]\<rparr>"

lemma demo_next_block_ok: "block_ok demo_lib demo_next_block"
  using demo_block_ok demo_approval_ok demo_one_hash(1)
  by (simp add: block_ok_def demo_next_block_def demo_block_def demo_header_def inner_lite_ok_def num_ok_def)

lemma demo_next_timestamps: "timestamps_agree (lcb_inner_lite demo_next_block)"
  by (simp add: timestamps_agree_def demo_next_block_def demo_header_def)

lemma demo_next_verifiable:
  assumes "initialized_state t s"
  shows "verifiable s (block_view demo_lib demo_sha demo_next_block)"
proof -
  let ?src = "[producer_view demo_lib (demo_validator None)]"
  let ?aps = "map (approval_view demo_lib) (approvals_after_next demo_next_block)"
  obtain e where e: "setBlockProducers ?src empty_epoch = Inr e" "nb_epochs s ! 0 = e\<lparr>ep_epochId := the_hash demo_lib zero_hash\<rparr>"
    "nb_curEpoch s = 0" using assms by (auto simp: initialized_state_def)
  have num: "ep_numBPs e = 1" using setBlockProducers_ok [of ?src empty_epoch] e(1) by (simp add: MAX_BLOCK_PRODUCERS_def)
  have "ep_stakeThreshold e < voted_for (ep_packedStakes e) ?aps 0 (ep_numBPs e) 0"
    using quorum_iff [OF e(1), of ?aps]
    by (simp add: empty_epoch_def MAX_BLOCK_PRODUCERS_def quorum_def stakes_of_def stake_sum_def demo_next_block_def approval_view_def
        producer_view_def demo_validator_def)
  with e num have "from_next_epoch s (the_hash demo_lib zero_hash) = Inr False"
    "check_block (block_view demo_lib demo_sha demo_next_block) False (nb_epochs s ! nb_curEpoch s) = Inr ()"
    by (simp_all add: from_next_epoch_def check_block_def demo_next_block_def)
  moreover have "epoch_id (lcb_inner_lite demo_next_block) = zero_hash" by (simp add: demo_next_block_def demo_header_def)
  ultimately show ?thesis
    by (auto simp: verifiable_def next_producers_def inner_lite_view_def intro!: exI [of _ False])
qed

definition demo_relay_env :: "nearbridge \<Rightarrow> n2e_env" where
  "demo_relay_env s = \<lparr>ne_bridgeState = Inr (relay_state 100 s), ne_blockHash = (\<lambda>h. Inr ''head''),
     ne_lastBlock = (\<lambda>h. Inr (Some demo_next_block)), ne_replaceDuration = Inr (unat (nb_replaceDuration s)),
     ne_lockEthAmount = Inr (unat (nb_lockEthAmount s)), ne_balance = Inr (unat (nb_balanceOf s 7)),
     ne_depositGasPrice = Inr 3, ne_deposit = Inr (), ne_random = (\<lambda>n. 0), ne_gasPrice = Inr 4, ne_addBlock = Inr (),
     ne_latestTimestamp = Inr 0, ne_status = Inr ()\<rparr>"

definition demo_relay_options :: n2e_options where
  "demo_relay_options = \<lparr>submitInvalidBlock = False, minDelay = 1, maxDelay = 10, errorDelay = 1, ethGasMultiplier = 1\<rparr>"


lemma demo_pending:
  "\<exists>s0 bs s. bridge_reach demo_sha no_signature (100, s0) \<and> borshify demo_lib demo_next_block = Inr bs
    \<and> addLightClientBlock demo_sha (demo_tx 7 0 100) bs s0 = Inr s \<and> bridge_reach demo_sha no_signature (100, s)
    \<and> nb_lastValidAt s = 110 \<and> nb_paused s = 0 \<and> checkBlockProducerSignatureInHead no_signature 0 s = Inr False"
proof -
  let ?dep = "\<lparr>tx_sender = 7, tx_value = 5, tx_now = 100, tx_accepts = True\<rparr>" and ?tx = "demo_tx 7 0 100"
  let ?b = "block_view demo_lib demo_sha demo_next_block"
  obtain s where s: "initialized_state 100 s" "nb_balanceOf s = (\<lambda>_. 0)" using demo_initialized by blast
  note st = s(1) [unfolded initialized_state_def]
  obtain bs where bs: "borshify demo_lib demo_next_block = Inr bs"
    using light_block.whole_message [of demo_lib demo_next_block demo_sha] demo_lib_ok demo_next_block_ok by blast
  define s1 where "s1 = s\<lparr>nb_balanceOf := (\<lambda>_. 0)(7 := 5), nb_ether := nb_ether s + 5\<rparr>"
  have d: "bridge_exec demo_sha no_signature ?dep Deposit s = Inr s1"
    using s st by (simp add: bridge_deposit_def pausable_def s1_def)
  have r1: "bridge_reach demo_sha no_signature (100, s1)"
    using bridge_step.call [OF _ _ d, of 100] st by (auto intro: bridge_reach.stepped)
  have hd: "head_state 100 s1 = s1" using st by (simp add: head_state_def s1_def)
  have ver: "verifiable s1 ?b"
    using verifiable_frame [of s1 s ?b] demo_next_verifiable [OF s(1)] by (simp add: s1_def)
  have com: "commit_previous 100 (sil_timestamp (slb_inner_lite ?b)) s1 = Inr s1"
    using st by (simp add: commit_previous_def s1_def)
  have higher: "nb_curHeight s1 < sil_height (slb_inner_lite ?b)"
    using st by (simp add: s1_def inner_lite_view_def demo_next_block_def)
  obtain e where e: "nb_epochs s1 ! nb_curEpoch s1 = e\<lparr>ep_epochId := the_hash demo_lib zero_hash\<rparr>" "ep_numBPs e = 1"
    using st setBlockProducers_ok [of "[producer_view demo_lib (demo_validator None)]" empty_epoch]
    by (auto simp: s1_def MAX_BLOCK_PRODUCERS_def)
  have "from_next_epoch s1 (sil_epoch_id (slb_inner_lite ?b)) = Inr False"
    using e by (simp add: from_next_epoch_def inner_lite_view_def demo_next_block_def demo_header_def)
  with add_block_accepts [of ?tx ?b s1 s1] com higher ver e obtain eps where
    add: "add_block ?tx ?b s1 = Inr (set_untrusted ?tx ?b False (store_signatures 0 (take 1 (slb_approvals_after_next ?b)) 0
      (nb_untrustedSignatures s1)) eps s1)" by auto
  let ?s2 = "set_untrusted ?tx ?b False (store_signatures 0 (take 1 (slb_approvals_after_next ?b)) 0 (nb_untrustedSignatures s1)) eps s1"
  have acc: "addLightClientBlock demo_sha ?tx bs s1 = Inr ?s2"
    using addLightClientBlock_encoded [OF demo_lib_ok demo_next_block_ok bs, of ?tx s1 demo_sha] add st by (simp add: s1_def)
  then have "bridge_reach demo_sha no_signature (100, ?s2)"
    using bridge_step.call [of 100 ?tx demo_sha no_signature "AddLightClientBlock bs" s1 ?s2] r1 by (auto intro: bridge_reach.stepped)
  moreover have "nb_untrustedSignatureSet ?s2 AND push_bit 0 1 \<noteq> 0"
    using store_signatures_bits [of 0 "take 1 (slb_approvals_after_next ?b)" 0 "nb_untrustedSignatures s1" 0]
    by (simp add: set_untrusted_def Let_def and_exp_eq_0_iff_not_bit [of _ 0, simplified] demo_next_block_def approval_view_def)
  moreover have "nb_paused ?s2 = 0" "nb_lastValidAt ?s2 = 110" using st by (simp_all add: set_untrusted_def s1_def Let_def)
  ultimately show ?thesis
    using r1 bs acc by (intro exI [of _ s1] exI [of _ bs] exI [of _ ?s2])
      (simp add: checkBlockProducerSignatureInHead_def no_signature_def Let_def)
qed

definition demo_describe :: "string \<Rightarrow> string" where
  "demo_describe m = ''Returned error: VM Exception while processing transaction: revert '' @ m"

definition demo_pending_env :: "nearbridge \<Rightarrow> watchdog_env" where
  "demo_pending_env s = \<lparr>wd_bridgeState = Inr (relay_state 100 s),
     wd_check = (\<lambda>i. web3_result demo_describe (checkBlockProducerSignatureInHead no_signature i s)),
     wd_gasPrice = Inr 50, wd_nonce = Inr 3, wd_send = (\<lambda>i. Some (1000, Inr ()))\<rparr>"

theorem watchdog_removes_wrong_block_witness:
  "\<exists>s i s'. bridge_reach demo_sha no_signature (100, s)
    \<and> fst (watchdog_round (Suc 0) (demo_pending_env s) 300 10) = [IncorrectBlock, SendChallenge i 50 3]
    \<and> bridge_challenge no_signature (demo_tx 3 0 100) 3 i s = Inr s' \<and> nb_lastValidAt s' = 0"
proof -
  obtain s where s: "bridge_reach demo_sha no_signature (100, s)" "nb_lastValidAt s = 110" "nb_paused s = 0"
    "checkBlockProducerSignatureInHead no_signature 0 s = Inr False" using demo_pending by blast
  have "reports_reason demo_describe" by (simp add: reports_reason_def demo_describe_def endsWith_def)
  then show ?thesis
    using s watchdog_removes_wrong_block [of demo_sha no_signature "demo_tx 3 0 100" s "demo_pending_env s" demo_describe 50 3 0 0 300 10]
    by (auto simp: demo_pending_env_def GAS_LIMIT_def)
qed

end
