(* ===== verification/Json_Log.thy ===== *)
theory Json_Log
  imports Borsh_Schema
begin

text \<open>
  JSON files with buffers in them: \<^verbatim>\<open>JSON.stringify\<close> on the values of \<^verbatim>\<open>Borsh_Schema\<close>, with and without
  the replacer \<^verbatim>\<open>JSONreplacer\<close> of \<^verbatim>\<open>utils/index.js\<close>, and the transfer log of
  \<^verbatim>\<open>testing/transfer-eth-erc20/to-near.js\<close> (\<^verbatim>\<open>recordTransferLog\<close>, \<^verbatim>\<open>parseBuffer\<close>, \<^verbatim>\<open>loadTransferLog\<close>).

  A JSON text is its tree: a value without \<open>JBytes\<close> and \<open>JUndefined\<close>. \<^verbatim>\<open>JSON.stringify\<close> writes a Buffer as the
  object \<^verbatim>\<open>{type: 'Buffer', data: [...]}\<close>, leaves out properties that are undefined and writes null for
  undefined elements of an array; \<^verbatim>\<open>JSON.parse\<close> reads the tree back.
\<close>

section \<open>JSON.stringify\<close>

text \<open>\<^verbatim>\<open>o.k\<close> on a value known to be neither null nor undefined.\<close>

definition js_prop :: "js_value \<Rightarrow> string \<Rightarrow> js_value" where
  "js_prop v k = (case js_get v k of Inr w \<Rightarrow> w | Inl _ \<Rightarrow> JUndefined)"

definition byte_numbers :: "bytes \<Rightarrow> js_value list" where
  "byte_numbers bs = map (\<lambda>b. JInt (int (unat b))) bs"

definition undefined_null :: "js_value \<Rightarrow> js_value" where
  "undefined_null v = (if v = JUndefined then JNull else v)"

lemma size_field: "(k, v) \<in> set kvs \<Longrightarrow> size (v :: js_value) < Suc (size_list (size_prod (\<lambda>x. 0) size) kvs)"
  by (induction kvs) auto

lemma size_item: "x \<in> set xs \<Longrightarrow> size (x :: js_value) < Suc (size_list size xs)"
  by (induction xs) auto

text \<open>
  The tree of the text of \<^verbatim>\<open>JSON.stringify(v)\<close>, and of \<^verbatim>\<open>JSON.stringify(v, JSONreplacer)\<close> when \<open>replacer\<close> holds:
  the replacer sees a Buffer after its \<^verbatim>\<open>toJSON\<close> and puts the array of its bytes there. \<open>JUndefined\<close> is
  a value that is left out.
\<close>

function json_tree :: "bool \<Rightarrow> js_value \<Rightarrow> js_value" where
  "json_tree replacer (JBytes bs) = (if replacer then JArr (byte_numbers bs)
     else JObj [(''type'', JStr ''Buffer''), (''data'', JArr (byte_numbers bs))])"
| "json_tree replacer (JArr xs) = JArr (map (\<lambda>x. undefined_null (json_tree replacer x)) xs)"
| "json_tree replacer (JObj kvs) =
     (let written = filter (\<lambda>(k, v). v \<noteq> JUndefined) (map (\<lambda>(k, v). (k, json_tree replacer v)) kvs) in
      if replacer \<and> js_prop (JObj kvs) ''type'' = JStr ''Buffer'' then js_prop (JObj written) ''data''
      else JObj written)"
| "json_tree replacer JUndefined = JUndefined"
| "json_tree replacer JNull = JNull"
| "json_tree replacer (JBool b) = JBool b"
| "json_tree replacer (JInt n) = JInt n"
| "json_tree replacer (JStr s) = JStr s"
  by pat_completeness auto
termination
  by (relation "measure (\<lambda>(r, v). size v)") (auto dest: size_field size_item)

section \<open>The transfer log\<close>

text \<open>
  \<^verbatim>\<open>Buffer.from(data)\<close>. The elements of an array are taken modulo 256; a Buffer that was written has numbers
  there, and what is not a number counts as zero.
\<close>

fun to_uint8 :: "js_value \<Rightarrow> byte" where
  "to_uint8 (JInt n) = word_of_int n"
| "to_uint8 (JBool b) = (if b then 1 else 0)"
| "to_uint8 _ = 0"

fun buffer_from :: "js_value \<Rightarrow> bytes res" where
  "buffer_from (JArr xs) = Inr (map to_uint8 xs)"
| "buffer_from (JBytes bs) = Inr bs"
| "buffer_from (JStr s) = Inr (utf8_bytes s)"
| "buffer_from _ = Inl JsTypeError"

text \<open>One turn of the loop of \<^verbatim>\<open>parseBuffer\<close>, on the property value \<open>v\<close>; \<open>rec\<close> is the recursive call.\<close>

definition parse_item :: "(js_value \<Rightarrow> js_value res) \<Rightarrow> js_value \<Rightarrow> js_value res" where
  "parse_item rec v = (if truthy v \<and> js_prop v ''type'' = JStr ''Buffer''
     then res_bind (buffer_from (js_prop v ''data'')) (\<lambda>bs. Inr (JBytes bs))
     else rec v)"

lemma parse_item_cong [fundef_cong]:
  "v = w \<Longrightarrow> f w = g w \<Longrightarrow> parse_item f v = parse_item g w"
  by (simp add: parse_item_def)

function parseBuffer :: "js_value \<Rightarrow> js_value res" where
  "parseBuffer (JObj kvs) = res_bind
     (res_list (map (\<lambda>(k, v). res_bind (parse_item parseBuffer v) (\<lambda>w. Inr (k, w))) kvs)) (\<lambda>kws. Inr (JObj kws))"
| "parseBuffer (JArr xs) = res_bind (res_list (map (parse_item parseBuffer) xs)) (\<lambda>ys. Inr (JArr ys))"
| "parseBuffer (JBytes bs) = Inr (JBytes bs)"
| "parseBuffer JUndefined = Inr JUndefined"
| "parseBuffer JNull = Inr JNull"
| "parseBuffer (JBool b) = Inr (JBool b)"
| "parseBuffer (JInt n) = Inr (JInt n)"
| "parseBuffer (JStr s) = Inr (JStr s)"
  by pat_completeness auto
termination
  by (relation "measure size") (auto dest: size_field size_item)

text \<open>The content of the file: \<open>None\<close> when there is none, or when it is not JSON.\<close>

type_synonym log_file = "js_value option"

definition recordTransferLog :: "js_value \<Rightarrow> log_file" where
  "recordTransferLog obj = Some (json_tree False obj)"

definition loadTransferLog :: "log_file \<Rightarrow> js_value" where
  "loadTransferLog f = (case f of
     None \<Rightarrow> JObj []
   | Some t \<Rightarrow> (case parseBuffer (if truthy t then t else JObj []) of Inr v \<Rightarrow> v | Inl _ \<Rightarrow> JObj []))"

section \<open>Reading the log back\<close>

text \<open>
  Values that survive the file: nothing undefined inside, and no object with a property \<^verbatim>\<open>type\<close> that says
  \<^verbatim>\<open>'Buffer'\<close> (a Buffer itself is no such object).
\<close>

function plain :: "js_value \<Rightarrow> bool" where
  "plain (JObj kvs) \<longleftrightarrow> js_prop (JObj kvs) ''type'' \<noteq> JStr ''Buffer'' \<and> list_all (\<lambda>(k, v). plain v) kvs"
| "plain (JArr xs) \<longleftrightarrow> list_all plain xs"
| "plain JUndefined \<longleftrightarrow> False"
| "plain (JBytes bs) \<longleftrightarrow> True"
| "plain JNull \<longleftrightarrow> True"
| "plain (JBool b) \<longleftrightarrow> True"
| "plain (JInt n) \<longleftrightarrow> True"
| "plain (JStr s) \<longleftrightarrow> True"
  by pat_completeness auto
termination
  by (relation "measure size") (auto dest: size_field size_item)

lemma js_prop_simps [simp]:
  "js_prop (JObj kvs) k = (case map_of kvs k of None \<Rightarrow> JUndefined | Some v \<Rightarrow> v)"
  "js_prop (JArr xs) k = length_or_undefined k (length xs)"
  "js_prop (JBytes bs) k = length_or_undefined k (length bs)"
  "js_prop (JStr s) k = length_or_undefined k (length s)"
  "js_prop (JInt n) k = JUndefined" "js_prop (JBool b) k = JUndefined" "js_prop JNull k = JUndefined" "js_prop JUndefined k = JUndefined"
  by (simp_all add: js_prop_def)

lemma byte_numbers_back [simp]: "map to_uint8 (byte_numbers bs) = bs"
  by (induction bs) (auto simp: byte_numbers_def)

lemma plain_written: "plain v \<Longrightarrow> json_tree False v \<noteq> JUndefined"
  by (cases v) (simp_all add: Let_def)

text \<open>The \<^verbatim>\<open>type\<close> of an object is not touched by writing it.\<close>

lemma json_tree_type:
  "list_all (\<lambda>(k, v). plain v) kvs \<Longrightarrow> map_of kvs ''type'' \<noteq> Some (JStr ''Buffer'') \<Longrightarrow>
   map_of (map (\<lambda>(k, v). (k, json_tree False v)) kvs) ''type'' \<noteq> Some (JStr ''Buffer'')"
proof (induction kvs)
  case (Cons kv kvs)
  obtain k v where kv: "kv = (k, v)" by (cases kv)
  have "json_tree False v = JStr s \<Longrightarrow> v = JStr s" for s by (cases v) (auto simp: Let_def)
  with Cons kv show ?case by auto
qed simp

lemma plain_roundtrip:
  "plain v \<Longrightarrow> parse_item parseBuffer (json_tree False v) = Inr v"
proof (induction v rule: plain.induct)
  case (1 kvs)
  let ?w = "map (\<lambda>(k, v). (k, json_tree False v)) kvs"
  have keep: "filter (\<lambda>(k, v). v \<noteq> JUndefined) ?w = ?w"
    using 1(2) by (intro filter_True) (auto simp: list_all_iff dest!: plain_written)
  have ty: "js_prop (JObj ?w) ''type'' \<noteq> JStr ''Buffer''"
    using json_tree_type [of kvs] 1(2) by (auto split: option.splits)
  have "map (\<lambda>(k, v). res_bind (parse_item parseBuffer v) (\<lambda>w. Inr (k, w))) ?w = map Inr kvs"
    using 1 by (auto simp: list_all_iff)
  then have "parseBuffer (JObj ?w) = Inr (JObj kvs)"
    by (simp only: parseBuffer.simps res_list_map_Inr res_bind_Inr)
  then show ?case using keep ty by (simp add: parse_item_def Let_def del: js_prop_simps parseBuffer.simps)
next
  case (2 xs)
  then have "map (parse_item parseBuffer) (map (\<lambda>x. undefined_null (json_tree False x)) xs) = map Inr xs"
    by (auto simp: list_all_iff undefined_null_def plain_written)
  then have "parseBuffer (JArr (map (\<lambda>x. undefined_null (json_tree False x)) xs)) = Inr (JArr xs)"
    by (simp only: parseBuffer.simps res_list_map_Inr res_bind_Inr)
  then show ?case by (simp add: parse_item_def length_or_undefined_def del: parseBuffer.simps)
qed (simp_all add: parse_item_def length_or_undefined_def)

text \<open>The properties of a log that was recorded: those that are undefined are gone, the others are as before.\<close>

lemma load_record:
  assumes "map_of kvs ''type'' = None" "\<forall>(k, v) \<in> set kvs. v = JUndefined \<or> plain v"
  shows "loadTransferLog (recordTransferLog (JObj kvs)) = JObj (filter (\<lambda>(k, v). v \<noteq> JUndefined) kvs)"
proof -
  let ?ks = "filter (\<lambda>(k, v). v \<noteq> JUndefined) kvs"
  have "\<forall>(k, v) \<in> set kvs. json_tree False v = JUndefined \<longleftrightarrow> v = JUndefined"
    using assms(2) plain_written by fastforce
  then have w: "filter (\<lambda>(k, v). v \<noteq> JUndefined) (map (\<lambda>(k, v). (k, json_tree False v)) kvs)
      = map (\<lambda>(k, v). (k, json_tree False v)) ?ks"
    by (induction kvs) (auto split: if_splits)
  have "map (\<lambda>(k, v). res_bind (parse_item parseBuffer v) (\<lambda>w. Inr (k, w))) (map (\<lambda>(k, v). (k, json_tree False v)) ?ks) = map Inr ?ks"
    using assms(2) plain_roundtrip by auto
  then have "parseBuffer (JObj (map (\<lambda>(k, v). (k, json_tree False v)) ?ks)) = Inr (JObj ?ks)"
    by (simp only: parseBuffer.simps res_list_map_Inr res_bind_Inr)
  then show ?thesis
    by (simp add: recordTransferLog_def loadTransferLog_def w Let_def del: parseBuffer.simps)
qed

text \<open>
  C30. The transfer log keeps what a step writes: the object read back from the file is the object
  that was recorded, Buffers at any depth included, provided that nothing in it is undefined and no object
  in it has a property \<^verbatim>\<open>type\<close> with the value \<^verbatim>\<open>'Buffer'\<close>.
\<close>

theorem transfer_log_roundtrip:
  assumes "plain (JObj kvs)"
  shows "loadTransferLog (recordTransferLog (JObj kvs)) = JObj kvs"
proof -
  have "parse_item parseBuffer (json_tree False (JObj kvs)) = Inr (JObj kvs)"
    using assms by (rule plain_roundtrip)
  moreover obtain ws where ws: "json_tree False (JObj kvs) = JObj ws" by (simp add: Let_def)
  ultimately have "parseBuffer (JObj ws) = Inr (JObj kvs)"
    by (auto simp: parse_item_def res_bind_eq_Inr_iff split: if_splits simp del: parseBuffer.simps)
  with ws show ?thesis
    by (simp add: recordTransferLog_def loadTransferLog_def del: parseBuffer.simps json_tree.simps)
qed

theorem transfer_log_roundtrip_witness:
  "loadTransferLog (recordTransferLog (JObj [(''finished'', JStr ''find-proof''),
     (''proof'', JObj [(''header_rlp'', JBytes [249, 2, 255]), (''receiptProof'', JArr [JArr [JBytes [1], JBytes []]]), (''txIndex'', JInt 0)])]))
   = JObj [(''finished'', JStr ''find-proof''),
     (''proof'', JObj [(''header_rlp'', JBytes [249, 2, 255]), (''receiptProof'', JArr [JArr [JBytes [1], JBytes []]]), (''txIndex'', JInt 0)])]"
  by (rule transfer_log_roundtrip) simp

end
