(* ===== verification/Proof_Extractor.thy ===== *)
theory Proof_Extractor
  imports Json_Log Eth_On_Near
begin

text \<open>
  The proof that an event is in an Ethereum block, \<^verbatim>\<open>eth2near/eth2near-block-relay/eth-proof-extractor.js\<close>:
  the receipts of the block are put into a Merkle Patricia trie, the path to one receipt is taken from
  it, and the log of the event is looked up in the receipt. The schema with which the proof is sent to the
  token factory on NEAR is from \<^verbatim>\<open>testing/transfer-eth-erc20/near-mintable-token.js\<close>.

  The packages merkle-patricia-tree, eth-object, eth-util-lite and ethereumjs-util are the fields of the
  record \<open>extract_lib\<close>; a trie is the list of the \<^verbatim>\<open>put\<close> calls on it. The node answers through \<open>eth_chain\<close>, as
  \<^verbatim>\<open>RobustWeb3\<close> does after its retries.
\<close>

section \<open>EthProofExtractor\<close>

record extract_lib =
  encode_index :: "js_value \<Rightarrow> bytes res"
  receiptFromWeb3_serialize :: "js_value \<Rightarrow> bytes res"
  logFromWeb3_serialize :: "js_value \<Rightarrow> bytes res"
  headerFromWeb3_serialize :: "js_value \<Rightarrow> bytes res"
  tree_findPath :: "(bytes \<times> bytes) list \<Rightarrow> bytes \<Rightarrow> js_value res"
  proof_fromStack :: "js_value \<Rightarrow> js_value res"
  rlp_encode :: "js_value \<Rightarrow> bytes res"

record eth_chain =
  ec_receipt :: "js_value \<Rightarrow> js_value res"
  ec_block :: "js_value \<Rightarrow> js_value res"

text \<open>\<^verbatim>\<open>for (const x of v)\<close>\<close>

fun js_iter :: "js_value \<Rightarrow> js_value list res" where
  "js_iter (JArr xs) = Inr xs"
| "js_iter (JBytes bs) = Inr (byte_numbers bs)"
| "js_iter (JStr s) = Inr (map (\<lambda>c. JStr [c]) s)"
| "js_iter _ = Inl JsTypeError"

text \<open>The receiver of \<^verbatim>\<open>.map\<close>.\<close>

definition js_array :: "js_value \<Rightarrow> js_value list res" where
  "js_array v = (case v of JArr xs \<Rightarrow> Inr xs | _ \<Rightarrow> Inl JsTypeError)"

text \<open>\<^verbatim>\<open>===\<close> on values from different sources: two objects are never the same one.\<close>

fun js_strict_eq :: "js_value \<Rightarrow> js_value \<Rightarrow> bool" where
  "js_strict_eq (JObj _) _ = False"
| "js_strict_eq (JArr _) _ = False"
| "js_strict_eq (JBytes _) _ = False"
| "js_strict_eq v w = (v = w)"

definition trie_put :: "extract_lib \<Rightarrow> js_value \<Rightarrow> (bytes \<times> bytes) res" where
  "trie_put L receipt =
     res_bind (js_get receipt ''transactionIndex'') (\<lambda>i.
     res_bind (encode_index L i) (\<lambda>path.
     res_bind (receiptFromWeb3_serialize L receipt) (\<lambda>serializedReceipt. Inr (path, serializedReceipt))))"

definition buildTrie :: "extract_lib \<Rightarrow> eth_chain \<Rightarrow> js_value \<Rightarrow> (bytes \<times> bytes) list res" where
  "buildTrie L C block =
     res_bind (js_get block ''transactions'') (\<lambda>transactions.
     res_bind (js_array transactions) (\<lambda>ts.
     res_bind (res_list (map (ec_receipt C) ts)) (\<lambda>blockReceipts.
     res_list (map (trie_put L) blockReceipts))))"

definition extractProof :: "extract_lib \<Rightarrow> eth_chain \<Rightarrow> js_value \<Rightarrow> (bytes \<times> bytes) list \<Rightarrow> js_value \<Rightarrow> js_value res" where
  "extractProof L C block tree transactionIndex =
     res_bind (encode_index L transactionIndex) (\<lambda>path.
     res_bind (tree_findPath L tree path) (\<lambda>stack.
     res_bind (js_get block ''number'') (\<lambda>num.
     res_bind (ec_block C num) (\<lambda>blockData.
     res_bind (headerFromWeb3_serialize L blockData) (\<lambda>header_rlp.
     res_bind (proof_fromStack L stack) (\<lambda>receiptProof.
     Inr (JObj [(''header_rlp'', JBytes header_rlp), (''receiptProof'', receiptProof), (''txIndex'', transactionIndex)])))))))"

section \<open>The log and the proof for the locker\<close>

fun find_log :: "js_value \<Rightarrow> nat \<Rightarrow> js_value list \<Rightarrow> (nat \<times> js_value) option res" where
  "find_log lockedEvent txLogIndex [] = Inr None"
| "find_log lockedEvent txLogIndex (receiptLog # others) =
     res_bind (js_get receiptLog ''logIndex'') (\<lambda>blockLogIndex.
     res_bind (js_get lockedEvent ''logIndex'') (\<lambda>wanted.
     if js_strict_eq blockLogIndex wanted then Inr (Some (txLogIndex, receiptLog))
     else find_log lockedEvent (Suc txLogIndex) others))"

definition proof_locker :: "extract_lib \<Rightarrow> js_value \<Rightarrow> js_value \<Rightarrow> js_value \<Rightarrow> js_value \<Rightarrow> js_value res" where
  "proof_locker L txLogIndex lg receipt extracted =
     res_bind (logFromWeb3_serialize L lg) (\<lambda>logEntryData.
     res_bind (js_get extracted ''txIndex'') (\<lambda>receiptIndex.
     res_bind (receiptFromWeb3_serialize L receipt) (\<lambda>receiptData.
     res_bind (js_get extracted ''header_rlp'') (\<lambda>headerData.
     res_bind (js_get extracted ''receiptProof'') (\<lambda>receiptProof.
     res_bind (js_iter receiptProof) (\<lambda>nodes.
     res_bind (res_list (map (rlp_encode L) nodes)) (\<lambda>encoded.
     Inr (JObj [(''log_index'', txLogIndex), (''log_entry_data'', JBytes logEntryData),
       (''receipt_index'', receiptIndex), (''receipt_data'', JBytes receiptData),
       (''header_data'', headerData), (''proof'', JArr (map JBytes encoded))]))))))))"

text \<open>What both callers do with the event: the receipt, the block, the extracted proof and the log, if it is found.\<close>

definition find_event :: "extract_lib \<Rightarrow> eth_chain \<Rightarrow> js_value \<Rightarrow> (js_value \<times> js_value \<times> js_value \<times> (nat \<times> js_value) option) res" where
  "find_event L C lockedEvent =
     res_bind (js_get lockedEvent ''transactionHash'') (\<lambda>txHash.
     res_bind (ec_receipt C txHash) (\<lambda>receipt.
     res_bind (js_get receipt ''blockNumber'') (\<lambda>blockNumber.
     res_bind (ec_block C blockNumber) (\<lambda>block.
     res_bind (buildTrie L C block) (\<lambda>tree.
     res_bind (js_get receipt ''transactionIndex'') (\<lambda>transactionIndex.
     res_bind (extractProof L C block tree transactionIndex) (\<lambda>extracted.
     res_bind (js_get receipt ''logs'') (\<lambda>lgs.
     res_bind (js_iter lgs) (\<lambda>receiptLogs.
     res_bind (find_log lockedEvent 0 receiptLogs) (\<lambda>found.
     Inr (receipt, block, extracted, found)))))))))))"

section \<open>ethToNearFindProof\<close>

datatype find_output =
    PrintedProof js_value
  | LogNotFound
  | FindFailed

text \<open>
  The argument is the outcome of \<^verbatim>\<open>JSON.parse(lockedEventRaw)\<close>; \<open>close\<close> is that of closing the connection, which
  only a WebSocket provider has.
\<close>

definition ethToNearFindProof :: "extract_lib \<Rightarrow> eth_chain \<Rightarrow> unit res \<Rightarrow> js_value res \<Rightarrow> (find_output, unit) run" where
  "ethToNearFindProof L C close parsed =
     run_bind (case
       res_bind parsed (\<lambda>p. let lockedEvent = (if truthy p then p else JObj []) in
       res_bind (find_event L C lockedEvent) (\<lambda>(receipt, block, extracted, found).
       case found of
         None \<Rightarrow> Inr LogNotFound
       | Some (txLogIndex, lg) \<Rightarrow>
           res_bind (proof_locker L (JInt (int txLogIndex)) lg receipt extracted) (\<lambda>proofLocker.
           res_bind (js_get block ''number'') (\<lambda>num.
           Inr (PrintedProof (json_tree True (JObj [(''block_number'', num), (''proof_locker'', proofLocker)])))))))
       of Inr out \<Rightarrow> run_do out (Inr ()) | Inl e \<Rightarrow> run_do FindFailed (Inr ())) (\<lambda>_.
     run_ask close)"

section \<open>Which log is found\<close>

lemma find_log_Some:
  assumes "find_log ev i lgs = Inr (Some (n, lg))"
  shows "\<exists>j < length lgs. n = i + j \<and> lgs ! j = lg \<and> js_strict_eq (js_prop lg ''logIndex'') (js_prop ev ''logIndex'')
    \<and> (\<forall>m < j. \<not> js_strict_eq (js_prop (lgs ! m) ''logIndex'') (js_prop ev ''logIndex''))"
  using assms
proof (induction lgs arbitrary: i)
  case (Cons l lgs)
  obtain x w where x: "js_get l ''logIndex'' = Inr x" "js_get ev ''logIndex'' = Inr w"
    using Cons.prems by (auto simp: res_bind_eq_Inr_iff)
  show ?case
  proof (cases "js_strict_eq x w")
    case True
    with Cons.prems x show ?thesis by (intro exI [of _ 0]) (auto simp: js_prop_def)
  next
    case False
    with Cons.prems x have "find_log ev (Suc i) lgs = Inr (Some (n, lg))" by simp
    from Cons.IH [OF this] obtain j where j: "j < length lgs" "n = Suc i + j" "lgs ! j = lg"
      "js_strict_eq (js_prop lg ''logIndex'') (js_prop ev ''logIndex'')"
      "\<forall>m < j. \<not> js_strict_eq (js_prop (lgs ! m) ''logIndex'') (js_prop ev ''logIndex'')" by blast
    have "\<not> js_strict_eq (js_prop ((l # lgs) ! m) ''logIndex'') (js_prop ev ''logIndex'')" if "m < Suc j" for m
      using that j(5) False x by (cases m) (auto simp: js_prop_def)
    with j show ?thesis by (intro exI [of _ "Suc j"]) auto
  qed
qed simp

text \<open>The first log with the wanted index, as a specification.\<close>

definition log_of_event :: "js_value \<Rightarrow> js_value list \<Rightarrow> nat \<Rightarrow> js_value \<Rightarrow> bool" where
  "log_of_event ev lgs n lg \<longleftrightarrow> n < length lgs \<and> lgs ! n = lg
     \<and> js_strict_eq (js_prop lg ''logIndex'') (js_prop ev ''logIndex'')
     \<and> (\<forall>m < n. \<not> js_strict_eq (js_prop (lgs ! m) ''logIndex'') (js_prop ev ''logIndex''))"

lemma find_log_event: "find_log ev 0 lgs = Inr (Some (n, lg)) \<Longrightarrow> log_of_event ev lgs n lg"
  using find_log_Some [of ev 0 lgs n lg] by (auto simp: log_of_event_def)

lemma js_get_prop: "js_get v k = Inr w \<Longrightarrow> js_prop v k = w"
  by (simp add: js_prop_def)

lemma find_event_found:
  assumes "find_event L C ev = Inr (receipt, block, extracted, Some (n, lg))"
  shows "ec_receipt C (js_prop ev ''transactionHash'') = Inr receipt
    \<and> ec_block C (js_prop receipt ''blockNumber'') = Inr block
    \<and> (\<exists>lgs tree. js_iter (js_prop receipt ''logs'') = Inr lgs \<and> log_of_event ev lgs n lg
        \<and> buildTrie L C block = Inr tree
        \<and> extractProof L C block tree (js_prop receipt ''transactionIndex'') = Inr extracted)"
  using assms by (auto simp: find_event_def res_bind_eq_Inr_iff js_get_prop dest!: find_log_event)

lemma js_array_Inr [simp]: "js_array v = Inr xs \<longleftrightarrow> v = JArr xs"
  by (simp add: js_array_def split: js_value.splits)

lemma buildTrie_puts:
  assumes "buildTrie L C block = Inr tree"
  shows "\<exists>ts rs. js_prop block ''transactions'' = JArr ts \<and> length rs = length ts \<and> length tree = length ts
    \<and> (\<forall>i < length ts. ec_receipt C (ts ! i) = Inr (rs ! i) \<and> trie_put L (rs ! i) = Inr (tree ! i))"
proof -
  obtain ts rs where ts: "js_get block ''transactions'' = Inr (JArr ts)" "map (ec_receipt C) ts = map Inr rs"
    "map (trie_put L) rs = map Inr tree"
    using assms by (auto simp: buildTrie_def res_bind_eq_Inr_iff res_list_Inr_iff)
  have len: "length rs = length ts" "length tree = length rs" using ts(2,3) map_eq_imp_length_eq by metis+
  have "ec_receipt C (ts ! i) = Inr (rs ! i) \<and> trie_put L (rs ! i) = Inr (tree ! i)" if "i < length ts" for i
    using that ts(2,3) len by (metis nth_map)
  with ts(1) len js_get_prop show ?thesis by metis
qed

section \<open>The printed proof\<close>

text \<open>What web3 documents of its answers: these positions are numbers.\<close>

definition chain_numbers :: "eth_chain \<Rightarrow> bool" where
  "chain_numbers C \<longleftrightarrow> (\<forall>h r. ec_receipt C h = Inr r \<longrightarrow> (\<exists>i. js_prop r ''transactionIndex'' = JInt i))
     \<and> (\<forall>n b. ec_block C n = Inr b \<longrightarrow> (\<exists>i. js_prop b ''number'' = JInt i))"

lemma proof_locker_fields:
  assumes "proof_locker L i lg receipt extracted = Inr p"
  shows "\<exists>le rd nodes ns. logFromWeb3_serialize L lg = Inr le \<and> receiptFromWeb3_serialize L receipt = Inr rd
    \<and> js_iter (js_prop extracted ''receiptProof'') = Inr nodes \<and> map (rlp_encode L) nodes = map Inr ns
    \<and> p = JObj [(''log_index'', i), (''log_entry_data'', JBytes le), (''receipt_index'', js_prop extracted ''txIndex''),
        (''receipt_data'', JBytes rd), (''header_data'', js_prop extracted ''header_rlp''), (''proof'', JArr (map JBytes ns))]"
  using assms by (auto simp: proof_locker_def res_bind_eq_Inr_iff res_list_Inr_iff js_get_prop)

lemma extractProof_fields:
  assumes "extractProof L C block tree i = Inr extracted"
  shows "\<exists>path stack blockData hd pr. encode_index L i = Inr path \<and> tree_findPath L tree path = Inr stack
    \<and> ec_block C (js_prop block ''number'') = Inr blockData \<and> headerFromWeb3_serialize L blockData = Inr hd
    \<and> proof_fromStack L stack = Inr pr
    \<and> extracted = JObj [(''header_rlp'', JBytes hd), (''receiptProof'', pr), (''txIndex'', i)]"
  using assms by (auto simp: extractProof_def res_bind_eq_Inr_iff js_get_prop)


definition demo_logs :: "js_value list" where
  "demo_logs = [JObj [(''logIndex'', JInt 3)], JObj [(''logIndex'', JInt 4)]]"

definition demo_extract_lib :: extract_lib where
  "demo_extract_lib = \<lparr>encode_index = (\<lambda>i. Inr [128]), receiptFromWeb3_serialize = (\<lambda>r. Inr [249, 1]),
     logFromWeb3_serialize = (\<lambda>l. Inr [248]), headerFromWeb3_serialize = (\<lambda>b. Inr [249, 2]),
     tree_findPath = (\<lambda>puts path. Inr (JArr (map (JBytes \<circ> snd) puts))), proof_fromStack = (\<lambda>st. Inr st),
     rlp_encode = (\<lambda>v. buffer_from v)\<rparr>"

definition demo_chain :: eth_chain where
  "demo_chain = \<lparr>ec_receipt = (\<lambda>h. Inr (JObj [(''blockNumber'', JInt 7), (''transactionIndex'', JInt 0), (''logs'', JArr demo_logs)])),
     ec_block = (\<lambda>n. Inr (JObj [(''number'', JInt 7), (''transactions'', JArr [JStr ''0x11''])]))\<rparr>"

definition demo_event :: js_value where
  "demo_event = JObj [(''transactionHash'', JStr ''0x11''), (''logIndex'', JInt 4)]"

lemma demo_chain_numbers: "chain_numbers demo_chain"
  by (auto simp: chain_numbers_def demo_chain_def)

lemmas demo_extract_defs = demo_extract_lib_def demo_chain_def demo_event_def demo_logs_def


end
