(* ===== verification/Accounts.thy ===== *)
theory Accounts
  imports Robust
begin

text \<open>
  NEAR accounts, \<^verbatim>\<open>utils/helpers.js\<close>: whether an account exists and holds a contract, creating it and
  deploying to it, and verifying that its key is the one in the key store; and the small helpers of
  \<^verbatim>\<open>utils/utils.js\<close> and \<^verbatim>\<open>utils/get-config.js\<close>.

  An account of near-api-js is what its requests answer: \<open>fetchState\<close> gives the code hash, an attempt
  to create or deploy succeeds or fails with an exception, which has a message and may have a type.
\<close>

section \<open>The state of an account\<close>

definition RETRY_NONCE :: nat where "RETRY_NONCE = 10"
definition EMPTY_HASH :: string where "EMPTY_HASH = ''11111111111111111111111111111111''"
definition ACCOUNT_DOES_NOT_EXIST :: string where "ACCOUNT_DOES_NOT_EXIST = ''Account does not exist''"
definition EMPTY_ACCOUNT :: string where "EMPTY_ACCOUNT = ''No contract deployed''"
definition WITH_CONTRACT :: string where "WITH_CONTRACT = ''With contract deployed''"

text \<open>\<^verbatim>\<open>accountStatus.EMPTY_HASH\<close> is not a property of the object: the result is \<^verbatim>\<open>undefined\<close>, here \<open>None\<close>.\<close>

definition getAccountStatus :: "string + string \<Rightarrow> string option" where
  "getAccountStatus fetchState = (case fetchState of
     Inr code_hash \<Rightarrow> if code_hash = EMPTY_HASH then None else Some WITH_CONTRACT
   | Inl e \<Rightarrow> Some ACCOUNT_DOES_NOT_EXIST)"

definition accountExists :: "string + string \<Rightarrow> bool" where
  "accountExists fetchState = (\<not> isl fetchState)"

section \<open>maybeCreateAccount\<close>

datatype account_effect = CreateAccount | DeployContract

record near_exception =
  ex_type :: "string option"
  ex_message :: string

record account_env =
  ae_fetchState :: "string + string"
  ae_createAccount :: "nat \<Rightarrow> near_exception + unit"
  ae_deployContract :: "nat \<Rightarrow> near_exception + unit"

fun create_loop :: "account_env \<Rightarrow> nat \<Rightarrow> nat \<Rightarrow> (account_effect, bool) run" where
  "create_loop E i 0 = run_ret False"
| "create_loop E i (Suc left) = run_bind (run_do CreateAccount (Inr ())) (\<lambda>_.
     case ae_createAccount E i of
       Inr _ \<Rightarrow> run_ret True
     | Inl e \<Rightarrow> if ex_type e = Some ''AccountAlreadyExists'' then run_ret True else create_loop E (Suc i) left)"

fun deploy_loop :: "account_env \<Rightarrow> nat \<Rightarrow> nat \<Rightarrow> (account_effect, bool) run" where
  "deploy_loop E i 0 = run_ret False"
| "deploy_loop E i (Suc left) = run_bind (run_do DeployContract (Inr ())) (\<lambda>_.
     case ae_deployContract E i of
       Inr _ \<Rightarrow> run_ret True
     | Inl e \<Rightarrow> if js_includes (ex_message e) ''Transaction nonce'' then deploy_loop E (Suc i) left
         else run_ask (Inl (ProcessExit 1)))"

definition maybeCreateAccount :: "account_env \<Rightarrow> (account_effect, unit) run" where
  "maybeCreateAccount E = (let st = getAccountStatus (ae_fetchState E) in
     run_bind (if st = Some ACCOUNT_DOES_NOT_EXIST
       then run_bind (create_loop E 0 RETRY_NONCE) (\<lambda>accountCreated.
         if accountCreated then run_ret () else run_ask (Inl (ProcessExit 1)))
       else run_ret ()) (\<lambda>_.
     if st \<noteq> Some WITH_CONTRACT
     then run_bind (deploy_loop E 0 RETRY_NONCE) (\<lambda>contractDeployed.
       if contractDeployed then run_ret () else run_ask (Inl (ProcessExit 1)))
     else run_ret ()))"

section \<open>Verification of accounts\<close>

text \<open>
  The keys of the account, and the public key of the pair in the key store (\<open>None\<close> when it has none:
  asking it for its public key is then a TypeError, at the first key of the account).
\<close>

definition accountHasTheKey :: "string option \<Rightarrow> string list res \<Rightarrow> bool res" where
  "accountHasTheKey keyStoreKey accessKeys = res_bind accessKeys (\<lambda>keys.
     case keys of [] \<Rightarrow> Inr False
     | _ \<Rightarrow> (case keyStoreKey of None \<Rightarrow> Inl JsTypeError | Some pk \<Rightarrow> Inr (pk \<in> set keys)))"

definition verifyAccount :: "string + string \<Rightarrow> string option \<Rightarrow> string list res \<Rightarrow> bool res" where
  "verifyAccount fetchState keyStoreKey accessKeys =
     (if \<not> accountExists fetchState then Inl (ProcessExit 1)
      else res_bind (accountHasTheKey keyStoreKey accessKeys) (\<lambda>b.
        if \<not> b then Inl (ProcessExit 1) else Inr True))"

definition verifyAccountGently :: "string + string \<Rightarrow> string option \<Rightarrow> string list res \<Rightarrow> bool res" where
  "verifyAccountGently fetchState keyStoreKey accessKeys =
     (if \<not> accountExists fetchState then Inr False
      else res_bind (accountHasTheKey keyStoreKey accessKeys) (\<lambda>b. if \<not> b then Inr False else Inr True))"

section \<open>Helpers of utils.js and get-config.js\<close>

definition remove0x :: "string \<Rightarrow> string" where
  "remove0x v = (if take 2 v = ''0x'' then drop 2 v else v)"

definition normalizeHex :: "string \<Rightarrow> string" where
  "normalizeHex v = (let w = map to_lower v in if \<not> startsWith w ''0x'' then ''0x'' @ w else w)"

definition accountExists_state :: "string + unit \<Rightarrow> bool res" where
  "accountExists_state st = (case st of
     Inr _ \<Rightarrow> Inr True
   | Inl msg \<Rightarrow> if \<not> js_includes msg ''does not exist while viewing'' then Inl (JsError msg) else Inr False)"

definition ethCallContract :: "unit res \<Rightarrow> 'r res \<Rightarrow> 'r res" where
  "ethCallContract dryRun sent = (case dryRun of Inl e \<Rightarrow> Inl e | Inr _ \<Rightarrow> sent)"

record bridge_config =
  bc_networkId :: string
  bc_nearNodeUrl :: string
  bc_ethNodeUrl :: string
  bc_masterAccount :: "string option"

definition getConfig :: "string \<Rightarrow> bridge_config res" where
  "getConfig env =
     (if env = ''mainnet'' then Inr \<lparr>bc_networkId = ''mainnet'', bc_nearNodeUrl = ''https://rpc.mainnet.near.org'',
        bc_ethNodeUrl = '''', bc_masterAccount = None\<rparr>
      else if env = ''testnet'' then Inr \<lparr>bc_networkId = ''default'', bc_nearNodeUrl = ''https://rpc.testnet.near.org'',
        bc_ethNodeUrl = '''', bc_masterAccount = None\<rparr>
      else if env = ''local'' \<or> env = ''test'' then Inr \<lparr>bc_networkId = ''local'', bc_nearNodeUrl = ''http://localhost:3030'',
        bc_ethNodeUrl = ''http://localhost:9545'', bc_masterAccount = Some ''test.near''\<rparr>
      else Inl (JsError (''Unconfigured environment '' @ env)))"

lemma normalizeHex_eq: "normalizeHex = normalizeEthKey"
  by (auto simp: fun_eq_iff normalizeHex_def normalizeEthKey_def Let_def)

section \<open>What maybeCreateAccount guarantees\<close>

lemma create_loop_True:
  assumes "snd (create_loop E i left) = Inr True"
  shows "\<exists>k. i \<le> k \<and> k < i + left \<and> (case ae_createAccount E k of Inr _ \<Rightarrow> True | Inl e \<Rightarrow> ex_type e = Some ''AccountAlreadyExists'')
    \<and> fst (create_loop E i left) = replicate (Suc k - i) CreateAccount"
  using assms
proof (induction left arbitrary: i)
  case (Suc left)
  show ?case
  proof (cases "case ae_createAccount E i of Inr _ \<Rightarrow> True | Inl e \<Rightarrow> ex_type e = Some ''AccountAlreadyExists''")
    case True
    then show ?thesis by (intro exI [of _ i]) (auto simp: run_simps split: sum.splits)
  next
    case False
    then have eq: "create_loop E i (Suc left) = (CreateAccount # fst (create_loop E (Suc i) left), snd (create_loop E (Suc i) left))"
      by (auto simp: run_simps split: sum.splits)
    with Suc.IH [of "Suc i"] Suc.prems obtain k where k: "Suc i \<le> k" "k < Suc i + left"
      "case ae_createAccount E k of Inr _ \<Rightarrow> True | Inl e \<Rightarrow> ex_type e = Some ''AccountAlreadyExists''"
      "fst (create_loop E (Suc i) left) = replicate (Suc k - Suc i) CreateAccount" by auto
    then show ?thesis
      unfolding eq by (intro exI [of _ k]) (simp add: Suc_diff_le)
  qed
qed simp

lemma deploy_loop_True:
  assumes "snd (deploy_loop E i left) = Inr True"
  shows "\<exists>k. i \<le> k \<and> k < i + left \<and> ae_deployContract E k = Inr ()
    \<and> fst (deploy_loop E i left) = replicate (Suc k - i) DeployContract"
  using assms
proof (induction left arbitrary: i)
  case (Suc left)
  show ?case
  proof (cases "ae_deployContract E i")
    case (Inr u)
    then show ?thesis by (intro exI [of _ i]) (auto simp: run_simps)
  next
    case (Inl e)
    with Suc.prems have eq: "deploy_loop E i (Suc left) = (DeployContract # fst (deploy_loop E (Suc i) left), snd (deploy_loop E (Suc i) left))"
      by (auto simp: run_simps split: if_splits)
    with Suc.IH [of "Suc i"] Suc.prems obtain k where k: "Suc i \<le> k" "k < Suc i + left" "ae_deployContract E k = Inr ()"
      "fst (deploy_loop E (Suc i) left) = replicate (Suc k - Suc i) DeployContract" by auto
    then show ?thesis
      unfolding eq by (intro exI [of _ k]) (simp add: Suc_diff_le)
  qed
qed simp

text \<open>
  \<^verbatim>\<open>maybeCreateAccount\<close> leaves an account with a contract or ends the process: when it returns, either the
  account held a contract already and nothing was done, or a contract was deployed within ten
  attempts; an account that did not exist was created before that, within ten attempts, or was
  found to exist after all. An account that exists without a contract only gets the deployment.
\<close>

lemma maybeCreateAccount_deploys:
  assumes "snd (maybeCreateAccount E) = Inr ()"
  shows "case ae_fetchState E of
      Inr code_hash \<Rightarrow> if code_hash = EMPTY_HASH
        then (\<exists>d<10. ae_deployContract E d = Inr () \<and> fst (maybeCreateAccount E) = replicate (Suc d) DeployContract)
        else fst (maybeCreateAccount E) = []
    | Inl _ \<Rightarrow> (\<exists>c<10. \<exists>d<10. ae_deployContract E d = Inr ()
        \<and> (case ae_createAccount E c of Inr _ \<Rightarrow> True | Inl e \<Rightarrow> ex_type e = Some ''AccountAlreadyExists'')
        \<and> fst (maybeCreateAccount E) = replicate (Suc c) CreateAccount @ replicate (Suc d) DeployContract)"
proof -
  define dep where "dep = run_bind (deploy_loop E 0 RETRY_NONCE) (\<lambda>contractDeployed.
      if contractDeployed then run_ret () else run_ask (Inl (ProcessExit 1)))"
  have dep: "\<exists>d<10. ae_deployContract E d = Inr () \<and> fst dep = replicate (Suc d) DeployContract" if "snd dep = Inr ()"
    using that deploy_loop_True [of E 0 RETRY_NONCE]
    by (auto simp: dep_def run_bind_def run_ret_def run_ask_def RETRY_NONCE_def split: prod.splits sum.splits if_splits)
  show ?thesis
  proof (cases "ae_fetchState E")
    case (Inr code)
    then have "maybeCreateAccount E = (if code = EMPTY_HASH then dep else run_ret ())"
      by (auto simp: maybeCreateAccount_def getAccountStatus_def dep_def run_simps
          ACCOUNT_DOES_NOT_EXIST_def WITH_CONTRACT_def)
    then show ?thesis using dep assms Inr by auto
  next
    case (Inl e)
    define cre where "cre = run_bind (create_loop E 0 RETRY_NONCE) (\<lambda>accountCreated.
         if accountCreated then run_ret () else run_ask (Inl (ProcessExit 1)))"
    have eq: "maybeCreateAccount E = run_bind cre (\<lambda>_. dep)"
      using Inl by (simp add: maybeCreateAccount_def getAccountStatus_def dep_def cre_def
          ACCOUNT_DOES_NOT_EXIST_def WITH_CONTRACT_def)
    then have ok: "snd cre = Inr ()" "snd dep = Inr ()" using assms by (auto simp: run_bind_Inr_iff)
    then have "\<exists>c<10. (case ae_createAccount E c of Inr _ \<Rightarrow> True | Inl e \<Rightarrow> ex_type e = Some ''AccountAlreadyExists'')
        \<and> fst cre = replicate (Suc c) CreateAccount"
      using create_loop_True [of E 0 RETRY_NONCE]
      by (auto simp: cre_def run_bind_def run_ret_def run_ask_def RETRY_NONCE_def split: prod.splits sum.splits if_splits)
    moreover have "fst (maybeCreateAccount E) = fst cre @ fst dep"
      using ok(1) by (cases cre) (auto simp: eq run_bind_def split: prod.splits)
    ultimately show ?thesis using dep [OF ok(2)] Inl by auto
  qed
qed

definition demo_account :: account_env where
  "demo_account = \<lparr>ae_fetchState = Inl ''missing'',
     ae_createAccount = (\<lambda>i. if i = 0 then Inl \<lparr>ex_type = None, ex_message = ''timeout''\<rparr>
       else Inl \<lparr>ex_type = Some ''AccountAlreadyExists'', ex_message = ''''\<rparr>),
     ae_deployContract = (\<lambda>i. Inr ())\<rparr>"

end
