(* ===== verification/Transfer_From_Near.thy ===== *)
theory Transfer_From_Near
  imports Near2Eth_Relay Proof_Roundtrip Accounts
begin

text \<open>
  Moving tokens from NEAR to Ethereum, \<^verbatim>\<open>testing/transfer-eth-erc20/from-near.js\<close>: the tokens are
  withdrawn on NEAR, the block with the receipt is found, the light client on Ethereum is awaited,
  the outcome proof is fetched, and the tokens are unlocked. After each step the program writes a
  log file, and each step runs only if the file says that the step before it has finished.

  The log file is the datatype \<open>from_log\<close> (\<open>FromNone\<close> is a missing file); the calls on the two chains are
  answered by the record \<open>from_env\<close>. A step that fails prints the command to retry and ends the process
  with code 1. The two loops that wait are bounded by \<open>fuel\<close>, and \<open>StillWaiting\<close> says that they are still
  running.
\<close>

section \<open>The log and the environment\<close>

record receipt_outcome =
  ro_id :: string
  ro_SuccessReceiptId :: "string option"
  ro_block_hash :: string

record withdraw_tx =
  wt_receipt_ids :: "string list"
  wt_receipts_outcome :: "receipt_outcome list"

datatype from_log =
    FromNone
  | LogWithdraw withdraw_tx
  | LogFindWithdraw string string nat string
  | LogWaitBlock string string string nat
  | LogGetProof full_outcome_proof nat
  | StillWaiting

datatype from_effect =
    WithdrawTokens string string
  | UnlockTokens bytes nat

record from_env =
  fe_balanceOf :: "nat \<Rightarrow> string + unit"
  fe_withdraw :: "withdraw_tx res"
  fe_block :: "string \<Rightarrow> nat \<Rightarrow> string + nat"
  fe_finalHeight :: "nat \<Rightarrow> nat \<Rightarrow> string + nat"
  fe_bridgeState :: "nat \<Rightarrow> bridge_state res"
  fe_blockHash :: "nat \<Rightarrow> nat \<Rightarrow> string res"
  fe_lockDuration :: "nat \<Rightarrow> int res"
  fe_latestTimestamp :: "nat \<Rightarrow> int res"
  fe_proof :: "string \<Rightarrow> string \<Rightarrow> string \<Rightarrow> full_outcome_proof res"
  fe_proveOutcome :: "bytes \<Rightarrow> nat \<Rightarrow> unit res"
  fe_erc20Balance :: "nat \<Rightarrow> unit res"
  fe_gasPrice :: "nat res"
  fe_unlockToken :: "unit res"

definition msg_res :: "string + 'a \<Rightarrow> 'a res" where
  "msg_res r = (case r of Inl m \<Rightarrow> Inl (LibraryError m) | Inr x \<Rightarrow> Inr x)"

text \<open>\<^verbatim>\<open>showRetryAndExit\<close> in the \<^verbatim>\<open>catch\<close> block of every step.\<close>

definition or_exit :: "('t, 'a) run \<Rightarrow> ('t, 'a) run" where
  "or_exit r = run_catch r (\<lambda>e. run_ask (Inl (ProcessExit 1)))"

section \<open>The steps\<close>

definition withdraw :: "from_env \<Rightarrow> string \<Rightarrow> string \<Rightarrow> (from_effect, from_log) run" where
  "withdraw E amount ethReceiverAddress = or_exit
     (run_bind (run_ask (msg_res (fst (backoff 10 (fe_balanceOf E) DELAY BACKOFF 0)))) (\<lambda>_.
      run_bind (run_do (WithdrawTokens amount ethReceiverAddress) (fe_withdraw E)) (\<lambda>tx.
      run_ret (LogWithdraw tx))))"

definition find_outcome :: "withdraw_tx \<Rightarrow> string \<Rightarrow> receipt_outcome option" where
  "find_outcome tx rid = find (\<lambda>el. ro_id el = rid) (wt_receipts_outcome tx)"

text \<open>The receipt of the second transaction and the hash of its block.\<close>

definition withdraw_receipt :: "withdraw_tx \<Rightarrow> (string \<times> string) res" where
  "withdraw_receipt tx = (case wt_receipt_ids tx of
     [first] \<Rightarrow> (case find_outcome tx first of
         Some el \<Rightarrow> (case ro_SuccessReceiptId el of
             Some txReceiptId \<Rightarrow> (case find_outcome tx txReceiptId of
                 Some el2 \<Rightarrow> Inr (txReceiptId, ro_block_hash el2)
               | None \<Rightarrow> Inl (JsError ''Invalid tx withdraw''))
           | None \<Rightarrow> Inl (JsError ''Invalid tx withdraw''))
       | None \<Rightarrow> Inl (JsError ''Invalid tx withdraw''))
   | _ \<Rightarrow> Inl (JsError ''Fungible token transaction call is expected to produce only one receipt''))"

text \<open>The loop inside the second \<^verbatim>\<open>backoff\<close>: attempt \<open>a\<close> of \<^verbatim>\<open>backoff\<close>, request \<open>i\<close>; \<open>Inr None\<close> is out of fuel.\<close>

fun final_after :: "nat \<Rightarrow> from_env \<Rightarrow> nat \<Rightarrow> nat \<Rightarrow> nat \<Rightarrow> string + nat option" where
  "final_after 0 E a i h = Inr None"
| "final_after (Suc fuel) E a i h = (case fe_finalHeight E a i of
     Inl e \<Rightarrow> Inl e
   | Inr final \<Rightarrow> if final \<le> h then final_after fuel E a (Suc i) h else Inr (Some final))"

definition findWithdrawInBlock :: "nat \<Rightarrow> from_env \<Rightarrow> withdraw_tx \<Rightarrow> (from_effect, from_log) run" where
  "findWithdrawInBlock fuel E tx = or_exit
     (run_bind (run_ask (withdraw_receipt tx)) (\<lambda>(txReceiptId, txReceiptBlockHash).
      run_bind (run_ask (msg_res (fst (backoff 10 (fe_block E txReceiptBlockHash) DELAY BACKOFF 0)))) (\<lambda>receiptHeight.
      run_bind (run_ask (msg_res (fst (backoff 10 (\<lambda>a. final_after fuel E a 0 receiptHeight) DELAY BACKOFF 0)))) (\<lambda>outcome.
      case outcome of
        None \<Rightarrow> run_ret StillWaiting
      | Some outcomeHeight \<Rightarrow> run_ret (LogFindWithdraw txReceiptBlockHash txReceiptId outcomeHeight ''receipt'')))))"

text \<open>The delay of one turn is at least one second; it is the result of the turn when the loop goes on.\<close>

definition wait_delay :: "from_env \<Rightarrow> nat \<Rightarrow> bridge_state \<Rightarrow> int res" where
  "wait_delay E i st = res_bind
     (if nextValidAt st = 0 then fe_lockDuration E i
      else res_bind (fe_latestTimestamp E i) (\<lambda>t. Inr (int (nextValidAt st) - t))) (\<lambda>d. Inr (max d 1))"

fun wait_client :: "nat \<Rightarrow> from_env \<Rightarrow> nat \<Rightarrow> nat \<Rightarrow> (nat \<times> string) option res" where
  "wait_client 0 E outcomeBlockHeight i = Inr None"
| "wait_client (Suc fuel) E outcomeBlockHeight i =
     res_bind (fe_bridgeState E i) (\<lambda>st.
     res_bind (fe_blockHash E i (currentHeight st)) (\<lambda>clientBlockHash.
     if currentHeight st > outcomeBlockHeight then Inr (Some (currentHeight st, clientBlockHash))
     else res_bind (wait_delay E i st) (\<lambda>delay. wait_client fuel E outcomeBlockHeight (Suc i))))"

definition waitBlock :: "nat \<Rightarrow> from_env \<Rightarrow> nat \<Rightarrow> string \<Rightarrow> string \<Rightarrow> (from_effect, from_log) run" where
  "waitBlock fuel E outcomeBlockHeight idType txReceiptId = or_exit
     (run_bind (run_ask (wait_client fuel E outcomeBlockHeight 0)) (\<lambda>found.
      case found of
        None \<Rightarrow> run_ret StillWaiting
      | Some (clientBlockHeight, clientBlockHash) \<Rightarrow>
          run_bind (run_ask (msg_res (fst (backoff 10 (fe_balanceOf E) DELAY BACKOFF 0)))) (\<lambda>_.
          run_ret (LogWaitBlock clientBlockHash idType txReceiptId clientBlockHeight))))"

definition getProof :: "from_env \<Rightarrow> string \<Rightarrow> string \<Rightarrow> string \<Rightarrow> nat \<Rightarrow> (from_effect, from_log) run" where
  "getProof E idType txReceiptId clientBlockHashB58 clientBlockHeight = or_exit
     (run_bind (run_ask (if idType = ''transaction'' \<or> idType = ''receipt''
         then fe_proof E idType txReceiptId clientBlockHashB58
         else Inl (JsError ''Unreachable''))) (\<lambda>proofRes.
      run_ret (LogGetProof proofRes clientBlockHeight)))"

definition unlock :: "bridge_lib \<Rightarrow> from_env \<Rightarrow> full_outcome_proof \<Rightarrow> nat \<Rightarrow> (from_effect, unit) run" where
  "unlock L E proofRes clientBlockHeight = or_exit
     (run_bind (run_ask (borshifyOutcomeProof L proofRes)) (\<lambda>borshProofRes.
      run_bind (run_ask (fe_proveOutcome E borshProofRes clientBlockHeight)) (\<lambda>_.
      run_bind (run_ask (fe_erc20Balance E 0)) (\<lambda>_.
      run_bind (run_ask (fe_gasPrice E)) (\<lambda>_.
      run_bind (run_do (UnlockTokens borshProofRes clientBlockHeight) (fe_unlockToken E)) (\<lambda>_.
      run_ask (fe_erc20Balance E 1)))))))"

section \<open>execute\<close>

text \<open>
  The part of \<^verbatim>\<open>execute\<close> from the log file on. It ends with \<^verbatim>\<open>process.exit(0)\<close>; the result is the log it leaves.
\<close>

definition from_execute :: "nat \<Rightarrow> bridge_lib \<Rightarrow> from_env \<Rightarrow> string \<Rightarrow> string \<Rightarrow> from_log \<Rightarrow> (from_effect, from_log) run" where
  "from_execute fuel L E amount ethReceiverAddress log0 =
     run_bind (case log0 of FromNone \<Rightarrow> withdraw E amount (remove0x ethReceiverAddress) | _ \<Rightarrow> run_ret log0) (\<lambda>log1.
     run_bind (case log1 of LogWithdraw tx \<Rightarrow> findWithdrawInBlock fuel E tx | _ \<Rightarrow> run_ret log1) (\<lambda>log2.
     run_bind (case log2 of LogFindWithdraw bh rid hgt idt \<Rightarrow> waitBlock fuel E hgt idt rid | _ \<Rightarrow> run_ret log2) (\<lambda>log3.
     run_bind (case log3 of LogWaitBlock ch idt rid hgt \<Rightarrow> getProof E idt rid ch hgt | _ \<Rightarrow> run_ret log3) (\<lambda>log4.
     case log4 of
       LogGetProof proofRes hgt \<Rightarrow> run_bind (unlock L E proofRes hgt) (\<lambda>_. run_ret log4)
     | _ \<Rightarrow> run_ret log4))))"

section \<open>What each step leaves\<close>

lemma fst_or_exit [simp]: "fst (or_exit r) = fst r"
  unfolding or_exit_def by (rule fst_run_catch) simp

lemma snd_or_exit [simp]: "snd (or_exit r) = Inr x \<longleftrightarrow> snd r = Inr x"
  by (auto simp: or_exit_def run_catch_def run_ask_def split: prod.splits sum.splits js_error.splits)

lemma or_exit_simps [run_simps]: "or_exit (ts, Inr x) = (ts, Inr x)" "or_exit (run_ret x) = run_ret x" "or_exit (run_ask (Inr x)) = run_ret x"
  "or_exit (run_do t (Inr x)) = run_do t (Inr x)"
  by (simp_all add: or_exit_def run_catch_def run_ret_def run_ask_def run_do_def)

lemma backoff_Inr: "fst (backoff n f d w 0) = Inr x \<Longrightarrow> \<exists>k. f k = Inr x"
  using backoff_outcome_ex [of n f 0 d w] by fastforce

lemma msg_res_Inr: "msg_res r = Inr x \<longleftrightarrow> r = Inr x"
  by (simp add: msg_res_def split: sum.splits)

lemma final_after_Some: "final_after fuel E a i h = Inr (Some final) \<Longrightarrow> h < final \<and> (\<exists>j. fe_finalHeight E a j = Inr final)"
  by (induction fuel arbitrary: i) (auto split: sum.splits if_splits)

lemma wait_client_Some:
  "wait_client fuel E outcome i = Inr (Some (hgt, ch)) \<Longrightarrow>
   outcome < hgt \<and> (\<exists>j st. fe_bridgeState E j = Inr st \<and> currentHeight st = hgt \<and> fe_blockHash E j hgt = Inr ch)"
  by (induction fuel arbitrary: i) (auto simp: res_bind_eq_Inr_iff split: if_splits)

lemma withdraw_step:
  assumes "snd (withdraw E amount addr) = Inr lg"
  shows "\<exists>tx. lg = LogWithdraw tx \<and> fe_withdraw E = Inr tx \<and> fst (withdraw E amount addr) = [WithdrawTokens amount addr]"
proof -
  obtain u where b: "msg_res (fst (backoff 10 (fe_balanceOf E) DELAY BACKOFF 0)) = Inr u"
    using assms by (auto simp: withdraw_def run_bind_Inr_iff)
  then show ?thesis
    using assms by (cases "fe_withdraw E") (auto simp: withdraw_def run_simps)
qed

lemma find_step:
  assumes "snd (findWithdrawInBlock fuel E tx) = Inr lg" "lg \<noteq> StillWaiting"
  shows "\<exists>rid bh rh oh a b j. lg = LogFindWithdraw bh rid oh ''receipt'' \<and> withdraw_receipt tx = Inr (rid, bh)
    \<and> fe_block E bh a = Inr rh \<and> fe_finalHeight E b j = Inr oh \<and> rh < oh"
  using assms
  by (auto simp: findWithdrawInBlock_def run_bind_Inr_iff msg_res_Inr split: option.splits prod.splits
      dest!: backoff_Inr final_after_Some) blast

lemma wait_step:
  assumes "snd (waitBlock fuel E oh idt rid) = Inr lg" "lg \<noteq> StillWaiting"
  shows "\<exists>ch hgt i st. lg = LogWaitBlock ch idt rid hgt \<and> oh < hgt \<and> fe_bridgeState E i = Inr st
    \<and> currentHeight st = hgt \<and> fe_blockHash E i hgt = Inr ch"
  using assms
  by (auto simp: waitBlock_def run_bind_Inr_iff split: option.splits prod.splits dest!: wait_client_Some) blast

lemma proof_step:
  assumes "snd (getProof E idt rid ch hgt) = Inr lg"
  shows "\<exists>pr. lg = LogGetProof pr hgt \<and> fe_proof E idt rid ch = Inr pr"
  using assms by (auto simp: getProof_def run_bind_Inr_iff split: if_splits)

lemma silent_steps:
  "fst (findWithdrawInBlock fuel E tx) = []" "fst (waitBlock fuel E oh idt rid) = []" "fst (getProof E idt rid ch hgt) = []"
  by (auto simp: findWithdrawInBlock_def waitBlock_def getProof_def run_bind_def run_ask_def run_ret_def
      split: sum.splits option.splits prod.splits)

lemma unlock_step:
  assumes "x \<in> set (fst (unlock L E pr hgt))"
  shows "\<exists>bs. x = UnlockTokens bs hgt \<and> borshifyOutcomeProof L pr = Inr bs \<and> fe_proveOutcome E bs hgt = Inr ()
    \<and> fst (unlock L E pr hgt) = [x]"
proof -
  obtain bs where bs: "borshifyOutcomeProof L pr = Inr bs"
    using assms by (cases "borshifyOutcomeProof L pr") (auto simp: unlock_def run_simps)
  obtain u where u: "fe_proveOutcome E bs hgt = Inr u"
    using assms bs by (cases "fe_proveOutcome E bs hgt") (auto simp: unlock_def run_simps)
  obtain v where v: "fe_erc20Balance E 0 = Inr v"
    using assms bs u by (cases "fe_erc20Balance E 0") (auto simp: unlock_def run_simps)
  obtain w where w: "fe_gasPrice E = Inr w"
    using assms bs u v by (cases "fe_gasPrice E") (auto simp: unlock_def run_simps)
  show ?thesis
    using assms bs u v w by (cases "fe_unlockToken E") (auto simp: unlock_def run_simps)
qed

text \<open>Wherever a transfer starts, it unlocks only with a proof of NEAR, or of its log, that the prover accepted.\<close>

lemma proof_only_from_getProof:
  "snd (withdraw E amount addr) \<noteq> Inr (LogGetProof pr k)" "snd (findWithdrawInBlock fuel E tx) \<noteq> Inr (LogGetProof pr k)"
  "snd (waitBlock fuel E oh idt rid) \<noteq> Inr (LogGetProof pr k)"
  using withdraw_step find_step wait_step by fastforce+

lemma unlock_proved:
  assumes "UnlockTokens bs hgt \<in> set (fst (from_execute fuel L E amount ethReceiverAddress log0))"
  shows "\<exists>pr. borshifyOutcomeProof L pr = Inr bs \<and> fe_proveOutcome E bs hgt = Inr ()
    \<and> (log0 = LogGetProof pr hgt \<or> (\<exists>idt rid ch. fe_proof E idt rid ch = Inr pr))"
proof -
  have "UnlockTokens bs hgt \<notin> set (fst (withdraw E amount addr))" for addr
    by (simp add: withdraw_def set_run_bind)
  then have "UnlockTokens bs hgt \<notin> set (fst (case lg of FromNone \<Rightarrow> withdraw E amount addr | _ \<Rightarrow> run_ret lg))"
    "UnlockTokens bs hgt \<notin> set (fst (case lg of LogWithdraw tx \<Rightarrow> findWithdrawInBlock fuel E tx | _ \<Rightarrow> run_ret lg))"
    "UnlockTokens bs hgt \<notin> set (fst (case lg of LogFindWithdraw bh rid h idt \<Rightarrow> waitBlock fuel E h idt rid | _ \<Rightarrow> run_ret lg))"
    "UnlockTokens bs hgt \<notin> set (fst (case lg of LogWaitBlock ch idt rid h \<Rightarrow> getProof E idt rid ch h | _ \<Rightarrow> run_ret lg))" for lg addr
    by (simp_all add: silent_steps split: from_log.split)
  with assms obtain log1 log2 log3 log4 where
      s1: "snd (case log0 of FromNone \<Rightarrow> withdraw E amount (remove0x ethReceiverAddress) | _ \<Rightarrow> run_ret log0) = Inr log1"
      and s2: "snd (case log1 of LogWithdraw tx \<Rightarrow> findWithdrawInBlock fuel E tx | _ \<Rightarrow> run_ret log1) = Inr log2"
      and s3: "snd (case log2 of LogFindWithdraw bh rid h idt \<Rightarrow> waitBlock fuel E h idt rid | _ \<Rightarrow> run_ret log2) = Inr log3"
      and s4: "snd (case log3 of LogWaitBlock ch idt rid h \<Rightarrow> getProof E idt rid ch h | _ \<Rightarrow> run_ret log3) = Inr log4"
      and u4: "UnlockTokens bs hgt \<in> set (fst (case log4 of LogGetProof pr k \<Rightarrow> run_bind (unlock L E pr k) (\<lambda>_. run_ret log4) | _ \<Rightarrow> run_ret log4))"
    unfolding from_execute_def set_run_bind by blast
  from u4 obtain pr k where u: "UnlockTokens bs hgt \<in> set (fst (unlock L E pr k))" and l4: "log4 = LogGetProof pr k"
    by (auto simp: set_run_bind split: from_log.splits)
  from unlock_step [OF u] have "borshifyOutcomeProof L pr = Inr bs" "fe_proveOutcome E bs hgt = Inr ()" "k = hgt" by auto
  moreover have "log3 = LogGetProof pr k \<or> (\<exists>idt rid ch. fe_proof E idt rid ch = Inr pr)"
    using s4 unfolding l4 by (auto dest!: proof_step split: from_log.splits)
  moreover have "log2 = LogGetProof pr k" if "log3 = LogGetProof pr k"
    using s3 that proof_only_from_getProof by (auto split: from_log.splits)
  moreover have "log1 = LogGetProof pr k" if "log2 = LogGetProof pr k"
    using s2 that proof_only_from_getProof by (auto split: from_log.splits)
  moreover have "log0 = LogGetProof pr k" if "log1 = LogGetProof pr k"
    using s1 that proof_only_from_getProof by (auto split: from_log.splits)
  ultimately show ?thesis by blast
qed

lemma not_unlock_withdraw: "UnlockTokens bs h \<notin> set (fst (withdraw E amount addr))"
  by (simp add: withdraw_def set_run_bind)

text \<open>
  C11. Tokens are unlocked on Ethereum only for a withdrawal on NEAR, with a proof the prover contract has
  accepted: if a transfer that starts without a log sends the unlocking transaction, then it withdrew
  the tokens first, for the given amount and receiver, and sends nothing else; the receipt is the one
  the withdrawal produced; a final block above the receipt's block was seen; the height in the
  unlocking call is one the light client had, above that final block; and the bytes are the encoding
  of the proof NEAR gave for that receipt and the light client's block hash at that height, which
  \<^verbatim>\<open>proveOutcome\<close> accepted at that height.
\<close>

theorem unlock_after_proof:
  assumes "UnlockTokens bs hgt \<in> set (fst (from_execute fuel L E amount ethReceiverAddress FromNone))"
  shows "\<exists>tx rid bh rh oh ch pr a b j i st.
    fst (from_execute fuel L E amount ethReceiverAddress FromNone)
      = [WithdrawTokens amount (remove0x ethReceiverAddress), UnlockTokens bs hgt]
    \<and> fe_withdraw E = Inr tx \<and> withdraw_receipt tx = Inr (rid, bh)
    \<and> fe_block E bh a = Inr rh \<and> fe_finalHeight E b j = Inr oh \<and> rh < oh \<and> oh < hgt
    \<and> fe_bridgeState E i = Inr st \<and> currentHeight st = hgt \<and> fe_blockHash E i hgt = Inr ch
    \<and> fe_proof E ''receipt'' rid ch = Inr pr \<and> borshifyOutcomeProof L pr = Inr bs
    \<and> fe_proveOutcome E bs hgt = Inr ()"
proof -
  let ?w = "withdraw E amount (remove0x ethReceiverAddress)"
  obtain log1 where "snd ?w = Inr log1"
    using assms not_unlock_withdraw by (auto simp: from_execute_def set_run_bind)
  with withdraw_step obtain tx where w: "fe_withdraw E = Inr tx"
    "?w = ([WithdrawTokens amount (remove0x ethReceiverAddress)], Inr (LogWithdraw tx))"
    by (metis prod.collapse)
  let ?f = "findWithdrawInBlock fuel E tx"
  obtain log2 where f1: "?f = ([], Inr log2)"
    using assms w silent_steps(1) [of fuel E tx]
    by (cases ?f; cases "snd ?f") (auto simp: from_execute_def run_simps)
  have "log2 \<noteq> StillWaiting" using assms w f1 by (auto simp: from_execute_def run_simps)
  with f1 have f: "?f = ([], Inr log2)" "log2 \<noteq> StillWaiting" by auto
  with find_step [of fuel E tx log2] obtain rid bh rh oh a b j where fl: "log2 = LogFindWithdraw bh rid oh ''receipt''"
    "withdraw_receipt tx = Inr (rid, bh)" "fe_block E bh a = Inr rh" "fe_finalHeight E b j = Inr oh" "rh < oh"
    by auto
  let ?b = "waitBlock fuel E oh ''receipt'' rid"
  obtain log3 where b1: "?b = ([], Inr log3)"
    using assms w f fl silent_steps(2) [of fuel E oh "''receipt''" rid]
    by (cases ?b; cases "snd ?b") (auto simp: from_execute_def run_simps)
  have "log3 \<noteq> StillWaiting" using assms w f fl b1 by (auto simp: from_execute_def run_simps)
  with b1 have b: "?b = ([], Inr log3)" "log3 \<noteq> StillWaiting" by auto
  with wait_step [of fuel E oh "''receipt''" rid log3] obtain ch k i st where bl: "log3 = LogWaitBlock ch ''receipt'' rid k" "oh < k"
    "fe_bridgeState E i = Inr st" "currentHeight st = k" "fe_blockHash E i k = Inr ch" by auto
  let ?p = "getProof E ''receipt'' rid ch k"
  obtain log4 where p: "?p = ([], Inr log4)"
    using assms w f fl b bl silent_steps(3) [of E "''receipt''" rid ch k]
    by (cases ?p; cases "snd ?p") (auto simp: from_execute_def run_simps)
  with proof_step [of E "''receipt''" rid ch k log4] obtain pr where pl: "log4 = LogGetProof pr k" "fe_proof E ''receipt'' rid ch = Inr pr"
    by auto
  have all: "from_execute fuel L E amount ethReceiverAddress FromNone =
      (WithdrawTokens amount (remove0x ethReceiverAddress) # fst (run_bind (unlock L E pr k) (\<lambda>_. run_ret log4)),
       snd (run_bind (unlock L E pr k) (\<lambda>_. run_ret log4)))"
    using w(2) f(1) fl(1) b(1) bl(1) p pl(1) by (simp add: from_execute_def run_simps)
  have fst_u: "fst (run_bind (unlock L E pr k) (\<lambda>_. run_ret log4)) = fst (unlock L E pr k)"
    by (auto simp: run_bind_def run_ret_def split: prod.splits sum.splits)
  have "UnlockTokens bs hgt \<in> set (fst (unlock L E pr k))" using assms by (simp add: all fst_u)
  from unlock_step [OF this] have u: "hgt = k" "borshifyOutcomeProof L pr = Inr bs" "fe_proveOutcome E bs hgt = Inr ()"
    "fst (unlock L E pr k) = [UnlockTokens bs hgt]" by auto
  show ?thesis
    using w(1) fl bl pl(2) u all fst_u by auto blast
qed

definition demo_from_env :: from_env where
  "demo_from_env = \<lparr>fe_balanceOf = (\<lambda>i. Inr ()),
     fe_withdraw = Inr \<lparr>wt_receipt_ids = [''r1''], wt_receipts_outcome =
       [\<lparr>ro_id = ''r1'', ro_SuccessReceiptId = Some ''r2'', ro_block_hash = ''b1''\<rparr>,
        \<lparr>ro_id = ''r2'', ro_SuccessReceiptId = None, ro_block_hash = ''b2''\<rparr>]\<rparr>,
     fe_block = (\<lambda>h i. Inr 10), fe_finalHeight = (\<lambda>a i. Inr 12),
     fe_bridgeState = (\<lambda>i. Inr \<lparr>currentHeight = 13, nextTimestamp = 0, nextValidAt = 0, numBlockProducers = 0\<rparr>),
     fe_blockHash = (\<lambda>i h. Inr ''head''), fe_lockDuration = (\<lambda>i. Inr 5), fe_latestTimestamp = (\<lambda>i. Inr 0),
     fe_proof = (\<lambda>idt rid head. Inr (demo_proof [])), fe_proveOutcome = (\<lambda>bs h. Inr ()), fe_erc20Balance = (\<lambda>i. Inr ()),
     fe_gasPrice = Inr 1, fe_unlockToken = Inr ()\<rparr>"

theorem unlock_after_proof_witness:
  "\<exists>bs. borshifyOutcomeProof demo_lib (demo_proof []) = Inr bs
    \<and> fst (from_execute (Suc 0) demo_lib demo_from_env ''100'' ''0xab'' FromNone)
      = [WithdrawTokens ''100'' ''ab'', UnlockTokens bs 13]"
proof -
  obtain bs where bs: "borshifyOutcomeProof demo_lib (demo_proof []) = Inr bs"
    using full_proof.whole_message [of demo_lib "demo_proof []" "\<lambda>x. x"] demo_lib_ok demo_proof_ok by blast
  have bk1: "fst (backoff 10 (\<lambda>i. Inr x :: string + unit) DELAY BACKOFF 0) = Inr x" for x
    by (simp add: backoff.simps)
  have bk2: "fst (backoff 10 (\<lambda>i. Inr x :: string + nat option) DELAY BACKOFF 0) = Inr x" for x
    by (simp add: backoff.simps)
  have bk3: "fst (backoff 10 (\<lambda>i. Inr x :: string + nat) DELAY BACKOFF 0) = Inr x" for x
    by (simp add: backoff.simps)
  have "UnlockTokens bs 13 \<in> set (fst (from_execute (Suc 0) demo_lib demo_from_env ''100'' ''0xab'' FromNone))"
    using bs
    by (simp add: from_execute_def demo_from_env_def withdraw_def findWithdrawInBlock_def waitBlock_def getProof_def unlock_def
        bk1 bk2 bk3 msg_res_def withdraw_receipt_def find_outcome_def run_simps)
  from unlock_after_proof [OF this] bs show ?thesis
    by (auto simp: demo_from_env_def remove0x_def)
qed

section \<open>Resuming\<close>

text \<open>
  A transfer that is resumed from its log does not withdraw again: whatever step the log says has
  finished, a run that starts from it never sends the withdrawal.
\<close>

lemma resumed_transfer_never_withdraws:
  assumes "log0 \<noteq> FromNone"
  shows "WithdrawTokens a r \<notin> set (fst (from_execute fuel L E amount ethReceiverAddress log0))"
proof -
  have un: "WithdrawTokens a r \<notin> set (fst (unlock L E pr k))" for pr k using unlock_step by blast
  show ?thesis
    using assms un silent_steps
    by (auto simp: from_execute_def set_run_bind split: from_log.splits)
qed

end
