(* ===== verification/Transfer_To_Near.thy ===== *)
theory Transfer_To_Near
  imports Proof_Extractor Transfer_From_Near
begin

text \<open>
  Moving tokens from Ethereum to NEAR, \<^verbatim>\<open>testing/transfer-eth-erc20/to-near.js\<close>: the transfer is approved, the
  tokens are locked on Ethereum, the proof of the event \<^verbatim>\<open>Locked\<close> is extracted, the light client on NEAR is
  awaited, and the proof is deposited on NEAR. Each step writes the transfer log, and the next one works on
  what it reads back from it (\<^verbatim>\<open>Json_Log\<close>).

  The objects of web3 are the values of \<^verbatim>\<open>Borsh_Schema\<close>; the answers of the two chains are \<open>eth_chain\<close> and
  \<open>to_env\<close>, where the argument of type \<^typ>\<open>nat\<close> counts the turns of the loop that waits. The loop is
  bounded by \<open>fuel\<close>; running out of it is the result \<open>None\<close> or \<open>False\<close>.
\<close>

datatype to_effect =
    ApproveTokens string string
  | LockTokens string string string
  | DepositProof js_value nat nat

record to_args =
  ta_amount :: string
  ta_ethLockerAddress :: string
  ta_ethErc20Address :: string
  ta_nearReceiverAccount :: string

record to_env =
  te_balance :: "unit res"
  te_approve :: "unit res"
  te_lockToken :: "js_value res"
  te_lastBlockNumber :: "nat \<Rightarrow> unit res"
  te_blockHashSafe :: "js_value \<Rightarrow> nat \<Rightarrow> js_value res"
  te_ftBalance :: "nat \<Rightarrow> unit res"
  te_deposit :: "unit res"

section \<open>The steps\<close>

definition approve :: "to_env \<Rightarrow> to_args \<Rightarrow> (to_effect, log_file) run" where
  "approve E a = or_exit
     (run_bind (run_do (ApproveTokens (ta_ethLockerAddress a) (ta_amount a)) (te_approve E)) (\<lambda>_.
      run_ret (recordTransferLog (JObj [(''finished'', JStr ''approve'')]))))"

definition lock :: "to_env \<Rightarrow> to_args \<Rightarrow> (to_effect, log_file) run" where
  "lock E a = or_exit
     (run_bind (run_do (LockTokens (ta_ethErc20Address a) (ta_amount a) (ta_nearReceiverAccount a)) (te_lockToken E)) (\<lambda>transaction.
      run_bind (run_ask (js_get transaction ''events'')) (\<lambda>events.
      run_bind (run_ask (js_get events ''Locked'')) (\<lambda>lockedEvent.
      run_ret (recordTransferLog (JObj [(''finished'', JStr ''lock''), (''lockedEvent'', lockedEvent)]))))))"

definition findProof :: "extract_lib \<Rightarrow> eth_chain \<Rightarrow> js_value \<Rightarrow> (to_effect, log_file) run" where
  "findProof L C lockedEvent =
     run_bind (run_ask (find_event L C lockedEvent)) (\<lambda>(receipt, block, extracted, found).
     case found of
       None \<Rightarrow> run_ask (Inl (ProcessExit 1))
     | Some (txLogIndex, lg) \<Rightarrow> run_ret (recordTransferLog (JObj [(''finished'', JStr ''find-proof''), (''proof'', extracted),
         (''log'', lg), (''txLogIndex'', JInt (int txLogIndex)), (''receipt'', receipt), (''lockedEvent'', lockedEvent),
         (''block'', block)])))"

fun wait_safe :: "nat \<Rightarrow> to_env \<Rightarrow> js_value \<Rightarrow> nat \<Rightarrow> bool res" where
  "wait_safe 0 E blockNumber i = Inr False"
| "wait_safe (Suc fuel) E blockNumber i =
     res_bind (te_lastBlockNumber E i) (\<lambda>_.
     res_bind (te_blockHashSafe E blockNumber i) (\<lambda>isSafe.
     if truthy isSafe then Inr True else wait_safe fuel E blockNumber (Suc i)))"

text \<open>The argument is the transfer log, whose properties are the parameters of the function.\<close>

definition waitBlockSafe :: "nat \<Rightarrow> extract_lib \<Rightarrow> to_env \<Rightarrow> js_value \<Rightarrow> (to_effect, log_file option) run" where
  "waitBlockSafe fuel L E tlog =
     run_bind (run_ask (proof_locker L (js_prop tlog ''txLogIndex'') (js_prop tlog ''log'') (js_prop tlog ''receipt'') (js_prop tlog ''proof''))) (\<lambda>proofLocker.
     run_bind (run_ask (js_get (js_prop tlog ''lockedEvent'') ''returnValues'')) (\<lambda>returnValues.
     run_bind (run_ask (js_get returnValues ''accountId'')) (\<lambda>newOwnerId.
     run_bind (run_ask (js_get (js_prop tlog ''block'') ''number'')) (\<lambda>blockNumber.
     run_bind (run_ask (wait_safe fuel E blockNumber 0)) (\<lambda>safe.
     run_ret (if safe then Some (recordTransferLog (JObj [(''finished'', JStr ''block-safe''), (''proofLocker'', proofLocker), (''newOwnerId'', newOwnerId)]))
       else None))))))"

definition deposit :: "to_env \<Rightarrow> js_value \<Rightarrow> (to_effect, unit) run" where
  "deposit E tlog =
     run_bind (run_ask (te_ftBalance E 0)) (\<lambda>_.
     run_bind (or_exit (run_do (DepositProof (js_prop tlog ''proofLocker'') 300000000000000 (100000000000000000000 * 600)) (te_deposit E))) (\<lambda>_.
     run_ask (te_ftBalance E 1)))"

section \<open>execute\<close>

definition finished :: "js_value \<Rightarrow> string \<Rightarrow> bool" where
  "finished tlog name \<longleftrightarrow> js_prop tlog ''finished'' = JStr name"

text \<open>The part of \<^verbatim>\<open>execute\<close> after the connections are set up; \<open>True\<close> is the end with \<^verbatim>\<open>process.exit(0)\<close>.\<close>

definition last_steps :: "nat \<Rightarrow> extract_lib \<Rightarrow> to_env \<Rightarrow> log_file \<Rightarrow> (to_effect, bool) run" where
  "last_steps fuel L E file3 =
     run_bind (if finished (loadTransferLog file3) ''find-proof'' then waitBlockSafe fuel L E (loadTransferLog file3)
       else run_ret (Some file3)) (\<lambda>waited.
     case waited of
       None \<Rightarrow> run_ret False
     | Some file4 \<Rightarrow>
         run_bind (if finished (loadTransferLog file4) ''block-safe'' then deposit E (loadTransferLog file4) else run_ret ()) (\<lambda>_.
         run_ret True))"

definition to_execute :: "nat \<Rightarrow> extract_lib \<Rightarrow> eth_chain \<Rightarrow> to_env \<Rightarrow> to_args \<Rightarrow> log_file \<Rightarrow> (to_effect, bool) run" where
  "to_execute fuel L C E a file0 =
     run_bind (if js_prop (loadTransferLog file0) ''finished'' = JUndefined
       then run_bind (run_ask (te_balance E)) (\<lambda>_. approve E a) else run_ret file0) (\<lambda>file1.
     run_bind (if finished (loadTransferLog file1) ''approve'' then lock E a else run_ret file1) (\<lambda>file2.
     run_bind (if finished (loadTransferLog file2) ''lock'' then findProof L C (js_prop (loadTransferLog file2) ''lockedEvent'')
       else run_ret file2) (last_steps fuel L E)))"

section \<open>Plain answers\<close>

text \<open>What web3 documents of its objects: they are plain data, as are the nodes of a Merkle proof.\<close>

definition plain_answers :: "extract_lib \<Rightarrow> eth_chain \<Rightarrow> to_env \<Rightarrow> bool" where
  "plain_answers L C E \<longleftrightarrow> (\<forall>h r. ec_receipt C h = Inr r \<longrightarrow> plain r) \<and> (\<forall>n b. ec_block C n = Inr b \<longrightarrow> plain b)
     \<and> (\<forall>st pr. proof_fromStack L st = Inr pr \<longrightarrow> plain pr) \<and> (\<forall>tx. te_lockToken E = Inr tx \<longrightarrow> plain tx)"

lemma plain_get: "plain v \<Longrightarrow> js_get v k = Inr w \<Longrightarrow> w \<noteq> JUndefined \<Longrightarrow> plain w"
proof (cases v)
  case (JObj kvs)
  assume "plain v" "js_get v k = Inr w" "w \<noteq> JUndefined"
  then show ?thesis using JObj map_of_SomeD [of kvs k w] by (auto simp: list_all_iff split: option.splits)
qed (auto simp: length_or_undefined_def split: if_splits)

lemma plain_iter: "plain v \<Longrightarrow> js_iter v = Inr xs \<Longrightarrow> x \<in> set xs \<Longrightarrow> plain x"
  by (cases v) (auto simp: list_all_iff byte_numbers_def)

lemma load_plain:
  "map_of kvs ''type'' = None \<Longrightarrow> \<forall>(k, v) \<in> set kvs. plain v \<Longrightarrow> loadTransferLog (recordTransferLog (JObj kvs)) = JObj kvs"
  by (subst load_record) (auto intro!: filter_True)

lemma find_event_plain:
  assumes "plain_answers L C E" "chain_numbers C" "find_event L C ev = Inr (receipt, block, extracted, Some (n, lg))"
  shows "plain receipt \<and> plain block \<and> plain lg \<and> plain extracted"
proof -
  from find_event_found [OF assms(3)] obtain lgs tree where fe: "ec_receipt C (js_prop ev ''transactionHash'') = Inr receipt"
    "ec_block C (js_prop receipt ''blockNumber'') = Inr block" "js_iter (js_prop receipt ''logs'') = Inr lgs" "log_of_event ev lgs n lg"
    "extractProof L C block tree (js_prop receipt ''transactionIndex'') = Inr extracted" by blast
  have pl: "plain receipt" "plain block" using assms(1) fe(1,2) by (auto simp: plain_answers_def)
  have lgs: "js_prop receipt ''logs'' \<noteq> JUndefined" using fe(3) by auto
  then have "plain (js_prop receipt ''logs'')" using plain_get [OF pl(1), of "''logs''"] by (auto simp: js_prop_def split: sum.splits)
  moreover have "lg \<in> set lgs" using fe(4) by (auto simp: log_of_event_def)
  ultimately have "plain lg" using plain_iter fe(3) by blast
  moreover obtain i where i: "js_prop receipt ''transactionIndex'' = JInt i" using assms(2) fe(1) unfolding chain_numbers_def by blast
  from extractProof_fields [OF fe(5)] i assms(1) have "plain extracted" by (auto simp: plain_answers_def)
  ultimately show ?thesis using pl by simp
qed

lemma find_event_fields:
  assumes "chain_numbers C" "find_event L C ev = Inr (receipt, block, extracted, Some (n, lg))"
  shows "\<exists>i hd. js_prop extracted ''txIndex'' = JInt i \<and> js_prop extracted ''header_rlp'' = JBytes hd"
proof -
  from find_event_found [OF assms(2)] obtain tree where fe: "ec_receipt C (js_prop ev ''transactionHash'') = Inr receipt"
    "extractProof L C block tree (js_prop receipt ''transactionIndex'') = Inr extracted" by blast
  then obtain i where "js_prop receipt ''transactionIndex'' = JInt i" using assms(1) unfolding chain_numbers_def by blast
  with extractProof_fields [OF fe(2)] show ?thesis by auto
qed

lemma wait_safe_True: "wait_safe fuel E num i = Inr True \<Longrightarrow> \<exists>k h. te_blockHashSafe E num k = Inr h \<and> truthy h"
  by (induction fuel arbitrary: i) (auto simp: res_bind_eq_Inr_iff split: if_splits)

section \<open>The order of the steps\<close>

lemma approve_step:
  assumes "snd (approve E a) = Inr f"
  shows "fst (approve E a) = [ApproveTokens (ta_ethLockerAddress a) (ta_amount a)] \<and> loadTransferLog f = JObj [(''finished'', JStr ''approve'')]"
proof -
  have "f = recordTransferLog (JObj [(''finished'', JStr ''approve'')])" using assms by (auto simp: approve_def run_bind_Inr_iff)
  moreover have "fst (approve E a) = [ApproveTokens (ta_ethLockerAddress a) (ta_amount a)]"
    by (auto simp: approve_def run_bind_def run_do_def run_ret_def split: sum.splits)
  ultimately show ?thesis by (simp add: load_plain)
qed

lemma lock_step:
  assumes "snd (lock E a) = Inr f" "plain_answers L C E"
  shows "\<exists>tx ev. te_lockToken E = Inr tx \<and> ev = js_prop (js_prop tx ''events'') ''Locked'' \<and> (ev = JUndefined \<or> plain ev)
    \<and> fst (lock E a) = [LockTokens (ta_ethErc20Address a) (ta_amount a) (ta_nearReceiverAccount a)]
    \<and> js_prop (loadTransferLog f) ''finished'' = JStr ''lock'' \<and> js_prop (loadTransferLog f) ''lockedEvent'' = ev"
proof -
  obtain tx events ev where tx: "te_lockToken E = Inr tx" "js_get tx ''events'' = Inr events" "js_get events ''Locked'' = Inr ev"
    "f = recordTransferLog (JObj [(''finished'', JStr ''lock''), (''lockedEvent'', ev)])"
    using assms(1) by (auto simp: lock_def run_bind_Inr_iff)
  have "events \<noteq> JUndefined" using tx(3) by auto
  then have pe: "plain events" using plain_get [of tx "''events''" events] tx assms(2) by (auto simp: plain_answers_def)
  have ev: "ev = JUndefined \<or> plain ev" using plain_get [OF pe tx(3)] by blast
  have "loadTransferLog f = JObj (filter (\<lambda>(k, v). v \<noteq> JUndefined) [(''finished'', JStr ''lock''), (''lockedEvent'', ev)])"
    unfolding tx(4) using ev by (intro load_record) auto
  moreover have "fst (lock E a) = [LockTokens (ta_ethErc20Address a) (ta_amount a) (ta_nearReceiverAccount a)]"
    using tx by (simp add: lock_def run_simps)
  ultimately show ?thesis using tx ev by (auto simp: js_get_prop)
qed

lemma findProof_step:
  assumes "snd (findProof L C ev) = Inr f" "plain_answers L C E" "chain_numbers C" "plain ev"
  shows "\<exists>receipt block extracted n lg. find_event L C ev = Inr (receipt, block, extracted, Some (n, lg))
    \<and> loadTransferLog f = JObj [(''finished'', JStr ''find-proof''), (''proof'', extracted),
         (''log'', lg), (''txLogIndex'', JInt (int n)), (''receipt'', receipt), (''lockedEvent'', ev), (''block'', block)]"
proof -
  obtain receipt block extracted n lg where fe: "find_event L C ev = Inr (receipt, block, extracted, Some (n, lg))"
    "f = recordTransferLog (JObj [(''finished'', JStr ''find-proof''), (''proof'', extracted),
         (''log'', lg), (''txLogIndex'', JInt (int n)), (''receipt'', receipt), (''lockedEvent'', ev), (''block'', block)])"
    using assms(1) by (auto simp: findProof_def run_bind_Inr_iff split: option.splits prod.splits)
  with find_event_plain [OF assms(2,3) fe(1)] assms(4) show ?thesis by (auto simp: load_plain)
qed

lemma waitBlockSafe_step:
  assumes "snd (waitBlockSafe fuel L E tlog) = Inr (Some f)"
  shows "\<exists>p owner k h. proof_locker L (js_prop tlog ''txLogIndex'') (js_prop tlog ''log'') (js_prop tlog ''receipt'') (js_prop tlog ''proof'') = Inr p
    \<and> te_blockHashSafe E (js_prop (js_prop tlog ''block'') ''number'') k = Inr h \<and> truthy h
    \<and> owner = js_prop (js_prop (js_prop tlog ''lockedEvent'') ''returnValues'') ''accountId''
    \<and> f = recordTransferLog (JObj [(''finished'', JStr ''block-safe''), (''proofLocker'', p), (''newOwnerId'', owner)])"
  using assms by (auto simp: waitBlockSafe_def run_bind_Inr_iff js_get_prop dest!: wait_safe_True split: if_splits)

lemma quiet_steps: "fst (findProof L C ev) = []" "fst (waitBlockSafe fuel L E tlog) = []"
  by (auto simp: findProof_def waitBlockSafe_def run_bind_def run_ask_def run_ret_def split: sum.splits option.splits prod.splits)

lemma deposit_step:
  assumes "x \<in> set (fst (deposit E tlog))"
  shows "x = DepositProof (js_prop tlog ''proofLocker'') 300000000000000 60000000000000000000000 \<and> fst (deposit E tlog) = [x]"
proof -
  obtain u where u: "te_ftBalance E 0 = Inr u" using assms by (cases "te_ftBalance E 0") (auto simp: deposit_def run_simps)
  have "fst (deposit E tlog) = [DepositProof (js_prop tlog ''proofLocker'') 300000000000000 60000000000000000000000]"
    unfolding deposit_def u by (auto simp: run_bind_def run_ask_def run_do_def or_exit_def run_catch_def split: sum.splits js_error.splits)
  with assms show ?thesis by auto
qed

lemma proof_locker_plain:
  assumes "plain extracted" "js_prop extracted ''txIndex'' \<noteq> JUndefined" "js_prop extracted ''header_rlp'' \<noteq> JUndefined"
    "proof_locker L (JInt i) lg receipt extracted = Inr p"
  shows "plain p"
proof -
  have pl: "js_prop extracted k \<noteq> JUndefined \<Longrightarrow> plain (js_prop extracted k)" for k
    using plain_get [OF assms(1), of k] by (auto simp: js_prop_def split: sum.splits)
  from proof_locker_fields [OF assms(4)] pl [OF assms(2)] pl [OF assms(3)] show ?thesis by (auto simp: list_all_iff)
qed

lemma last_steps_deposit:
  assumes x: "DepositProof p gas amt \<in> set (fst (last_steps fuel L E f3))" and ex: "plain extracted"
      "js_prop extracted ''txIndex'' \<noteq> JUndefined" "js_prop extracted ''header_rlp'' \<noteq> JUndefined" and ev: "plain ev"
    and f3: "loadTransferLog f3 = JObj [(''finished'', JStr ''find-proof''), (''proof'', extracted),
         (''log'', lg), (''txLogIndex'', JInt n), (''receipt'', receipt), (''lockedEvent'', ev), (''block'', block)]"
  shows "proof_locker L (JInt n) lg receipt extracted = Inr p \<and> (\<exists>k h. te_blockHashSafe E (js_prop block ''number'') k = Inr h \<and> truthy h)
    \<and> fst (last_steps fuel L E f3) = [DepositProof p gas amt]"
proof -
  let ?w = "waitBlockSafe fuel L E (loadTransferLog f3)"
  have fin: "finished (loadTransferLog f3) ''find-proof''" by (simp add: f3 finished_def)
  obtain f4 where f4: "snd ?w = Inr (Some f4)" "DepositProof p gas amt \<in> set (fst (deposit E (loadTransferLog f4)))"
    using x quiet_steps(2) fin by (auto simp: last_steps_def set_run_bind split: option.splits if_splits)
  from waitBlockSafe_step [OF f4(1)] obtain p' owner k h where w: "proof_locker L (JInt n) lg receipt extracted = Inr p'"
    "te_blockHashSafe E (js_prop block ''number'') k = Inr h" "truthy h" "owner = js_prop (js_prop ev ''returnValues'') ''accountId''"
    "f4 = recordTransferLog (JObj [(''finished'', JStr ''block-safe''), (''proofLocker'', p'), (''newOwnerId'', owner)])"
    by (auto simp: f3)
  have "owner = JUndefined \<or> plain owner"
  proof (cases "owner = JUndefined")
    case False
    then have "js_prop ev ''returnValues'' \<noteq> JUndefined" using w(4) by auto
    then have "plain (js_prop ev ''returnValues'')" using plain_get [OF ev] by (auto simp: js_prop_def split: sum.splits)
    from plain_get [OF this, of "''accountId''"] False w(4) show ?thesis by (auto simp: js_prop_def split: sum.splits)
  qed simp
  then have "loadTransferLog f4 = JObj (filter (\<lambda>(k, v). v \<noteq> JUndefined) [(''finished'', JStr ''block-safe''), (''proofLocker'', p'), (''newOwnerId'', owner)])"
    unfolding w(5) using proof_locker_plain [OF ex w(1)] by (intro load_record) auto
  moreover have "p' \<noteq> JUndefined" using proof_locker_plain [OF ex w(1)] by auto
  ultimately have pl: "js_prop (loadTransferLog f4) ''proofLocker'' = p'" "finished (loadTransferLog f4) ''block-safe''"
    by (auto simp: finished_def)
  have dep: "p = p'" "fst (deposit E (loadTransferLog f4)) = [DepositProof p gas amt]"
    using deposit_step [OF f4(2)] pl(1) by simp_all
  have "fst (run_bind (deposit E (loadTransferLog f4)) (\<lambda>_. run_ret True)) = fst (deposit E (loadTransferLog f4))"
    by (auto simp: run_bind_def run_ret_def split: prod.splits sum.splits)
  then have "fst (last_steps fuel L E f3) = [DepositProof p gas amt]"
    using fin pl(2) dep(2) by (simp add: last_steps_def fst_run_bind [OF f4(1)] quiet_steps)
  with w dep show ?thesis by auto
qed

text \<open>
  C9. Tokens are minted on NEAR only for tokens that were locked on Ethereum, with the proof of that event, in a
  block the light client on NEAR considers safe: if a transfer that starts without a log deposits a proof,
  then it approved and locked the tokens first, each once, and does nothing else; the proof is the one extracted
  for the event \<^verbatim>\<open>Locked\<close> of the locking transaction, for the first log of its receipt with the index of the event,
  unchanged by its two ways through the log file; and the client contract answered a hash for the number of
  the event's block.
\<close>

theorem deposit_after_lock:
  assumes "DepositProof p gas amt \<in> set (fst (to_execute fuel L C E a None))" "plain_answers L C E" "chain_numbers C"
  shows "\<exists>tx ev receipt block extracted n lg k h. te_lockToken E = Inr tx \<and> ev = js_prop (js_prop tx ''events'') ''Locked''
    \<and> find_event L C ev = Inr (receipt, block, extracted, Some (n, lg))
    \<and> proof_locker L (JInt (int n)) lg receipt extracted = Inr p
    \<and> te_blockHashSafe E (js_prop block ''number'') k = Inr h \<and> truthy h
    \<and> fst (to_execute fuel L C E a None) = [ApproveTokens (ta_ethLockerAddress a) (ta_amount a),
        LockTokens (ta_ethErc20Address a) (ta_amount a) (ta_nearReceiverAccount a), DepositProof p gas amt]"
proof -
  let ?x = "DepositProof p gas amt"
  obtain u where u: "te_balance E = Inr u"
    using assms(1) by (cases "te_balance E") (auto simp: to_execute_def loadTransferLog_def run_simps)
  have no: "?x \<notin> set (fst (approve E a))" "?x \<notin> set (fst (lock E a))"
    by (auto simp: approve_def lock_def set_run_bind)
  obtain f1 where f1: "snd (approve E a) = Inr f1"
    using assms(1) no(1) by (auto simp: to_execute_def loadTransferLog_def u run_simps dest!: run_bind_after)
  note a1 = approve_step [OF f1]
  obtain f2 where f2: "snd (lock E a) = Inr f2"
    using assms(1) no a1 f1 by (auto simp: to_execute_def loadTransferLog_def [of None] u run_simps fst_run_bind [OF f1] finished_def dest!: run_bind_after)
  from lock_step [OF f2 assms(2)] obtain tx ev where l: "te_lockToken E = Inr tx" "ev = js_prop (js_prop tx ''events'') ''Locked''"
    "ev = JUndefined \<or> plain ev" "fst (lock E a) = [LockTokens (ta_ethErc20Address a) (ta_amount a) (ta_nearReceiverAccount a)]"
    "js_prop (loadTransferLog f2) ''finished'' = JStr ''lock''" "js_prop (loadTransferLog f2) ''lockedEvent'' = ev" by blast
  have all: "fst (to_execute fuel L C E a None) = [ApproveTokens (ta_ethLockerAddress a) (ta_amount a),
      LockTokens (ta_ethErc20Address a) (ta_amount a) (ta_nearReceiverAccount a)] @ fst (run_bind (findProof L C ev) (last_steps fuel L E))"
    using a1 l f1 f2
    by (simp add: to_execute_def loadTransferLog_def [of None] u run_simps fst_run_bind [OF f1] fst_run_bind [OF f2] finished_def)
  have "?x \<in> set (fst (run_bind (findProof L C ev) (last_steps fuel L E)))" using assms(1) by (auto simp: all)
  then obtain f3 where f3: "snd (findProof L C ev) = Inr f3" "?x \<in> set (fst (last_steps fuel L E f3))"
    using quiet_steps(1) by (auto dest!: run_bind_after)
  have "ev \<noteq> JUndefined" using f3(1) by (auto simp: findProof_def find_event_def run_bind_Inr_iff)
  then have ev: "plain ev" using l(3) by blast
  from findProof_step [OF f3(1) assms(2,3) ev] obtain receipt block extracted n lg where
    fe: "find_event L C ev = Inr (receipt, block, extracted, Some (n, lg))"
    "loadTransferLog f3 = JObj [(''finished'', JStr ''find-proof''), (''proof'', extracted),
         (''log'', lg), (''txLogIndex'', JInt (int n)), (''receipt'', receipt), (''lockedEvent'', ev), (''block'', block)]" by blast
  have ex: "plain extracted" "js_prop extracted ''txIndex'' \<noteq> JUndefined" "js_prop extracted ''header_rlp'' \<noteq> JUndefined"
    using find_event_plain [OF assms(2,3) fe(1)] find_event_fields [OF assms(3) fe(1)] by auto
  have "fst (run_bind (findProof L C ev) (last_steps fuel L E)) = fst (last_steps fuel L E f3)"
    by (simp add: fst_run_bind [OF f3(1)] quiet_steps)
  with last_steps_deposit [OF f3(2) ex ev fe(2)] l(1,2) fe(1) all show ?thesis by auto
qed

definition demo_to_env :: to_env where
  "demo_to_env = \<lparr>te_balance = Inr (), te_approve = Inr (),
     te_lockToken = Inr (JObj [(''events'', JObj [(''Locked'', JObj [(''transactionHash'', JStr ''0x11''), (''logIndex'', JInt 4),
       (''returnValues'', JObj [(''accountId'', JStr ''alice'')])])])]),
     te_lastBlockNumber = (\<lambda>i. Inr ()), te_blockHashSafe = (\<lambda>n i. if i = 0 then Inr JNull else Inr (JStr ''0xab'')),
     te_ftBalance = (\<lambda>i. Inr ()), te_deposit = Inr ()\<rparr>"

definition demo_to_args :: to_args where
  "demo_to_args = \<lparr>ta_amount = ''100'', ta_ethLockerAddress = ''0x1'', ta_ethErc20Address = ''0x2'', ta_nearReceiverAccount = ''alice''\<rparr>"

lemma demo_plain_answers: "plain_answers (demo_extract_lib\<lparr>proof_fromStack := \<lambda>st. Inr (JArr [JArr [JBytes [1]]]), rlp_encode := \<lambda>v. Inr [193]\<rparr>) demo_chain demo_to_env"
  by (auto simp: plain_answers_def demo_extract_defs demo_to_env_def)

theorem deposit_after_lock_witness:
  "\<exists>p. fst (to_execute (Suc (Suc 0)) (demo_extract_lib\<lparr>proof_fromStack := \<lambda>st. Inr (JArr [JArr [JBytes [1]]]), rlp_encode := \<lambda>v. Inr [193]\<rparr>)
      demo_chain demo_to_env demo_to_args None)
    = [ApproveTokens ''0x1'' ''100'', LockTokens ''0x2'' ''100'' ''alice'', DepositProof p 300000000000000 60000000000000000000000]"
proof -
  let ?L = "demo_extract_lib\<lparr>proof_fromStack := \<lambda>st. Inr (JArr [JArr [JBytes [1]]]), rlp_encode := \<lambda>v. Inr [193]\<rparr>"
  obtain p where "DepositProof p 300000000000000 60000000000000000000000 \<in> set (fst (to_execute (Suc (Suc 0)) ?L demo_chain demo_to_env demo_to_args None))"
    by (simp add: to_execute_def last_steps_def approve_def lock_def findProof_def waitBlockSafe_def deposit_def finished_def find_event_def buildTrie_def
        trie_put_def extractProof_def proof_locker_def demo_extract_defs demo_to_env_def demo_to_args_def run_simps
        loadTransferLog_def recordTransferLog_def parse_item_def byte_numbers_def undefined_null_def length_or_undefined_def js_array_def Let_def)
  from deposit_after_lock [OF this demo_plain_answers demo_chain_numbers] show ?thesis by (auto simp: demo_to_args_def)
qed

end
