(* ===== verification/Eth_Contracts.thy ===== *)
theory Eth_Contracts
  imports Near_Bridge Robust
begin

text \<open>
  The deployment of the Ethereum contracts, \<^verbatim>\<open>cli/init/eth-contracts.js\<close>: the retry loop all deployments
  share, and the five commands that deploy the Ed25519 contract, the test token, the locker, the light
  client and the prover.

  What web3 and the file system answer is the record \<open>deploy_env\<close>; the argument of type \<^typ>\<open>nat\<close> is the
  number of the attempt. A parameter of a command that is \<^verbatim>\<open>undefined\<close> or the empty string is falsy. The
  result of \<^verbatim>\<open>Number(x)\<close> is \<open>None\<close> for \<^verbatim>\<open>NaN\<close>; the durations are otherwise integers below \<open>2 ^ 52\<close>, on which
  the sums and products of the code are exact.
\<close>

section \<open>The environment\<close>

datatype sol_arg =
    ArgAddress string
  | ArgUint int
  | ArgBytes bytes

record contract_paths =
  cp_abiPath :: string
  cp_binPath :: string
  cp_artifactPath :: string

record deploy_tx =
  dtx_from :: string
  dtx_data :: string
  dtx_args :: "sol_arg list"
  dtx_gas :: nat
  dtx_gasPrice :: nat

text \<open>
  \<open>de_artifact\<close> and \<open>de_abi\<close> are \<^verbatim>\<open>JSON.parse(fs.readFileSync(path))\<close>, \<open>de_contract\<close> is \<^verbatim>\<open>new web3.eth.Contract(abi)\<close>
  with its call of \<^verbatim>\<open>deploy\<close>, which encodes the arguments, \<open>de_send\<close> the address of the deployed contract.
\<close>

record deploy_env =
  de_connect :: "nat \<Rightarrow> unit res"
  de_account :: "string \<Rightarrow> string res"
  de_artifact :: "string \<Rightarrow> (string \<times> string) res"
  de_abi :: "string \<Rightarrow> string res"
  de_bin :: "string \<Rightarrow> string res"
  de_contract :: "string \<Rightarrow> string \<Rightarrow> sol_arg list \<Rightarrow> unit res"
  de_getGasPrice :: "nat \<Rightarrow> nat res"
  de_send :: "nat \<Rightarrow> deploy_tx \<Rightarrow> string res"
  de_toBN :: "int option \<Rightarrow> int res"

record deploy_keys =
  dk_ethMasterSk :: string
  dk_ethGasMultiplier :: nat

datatype deploy_effect = DeployTx deploy_tx | DeploySleep nat

section \<open>The retry loop\<close>

definition DEPLOY_RETRY_SEND_TX :: nat where "DEPLOY_RETRY_SEND_TX = 15"

definition deploy_code :: "deploy_env \<Rightarrow> contract_paths \<Rightarrow> (string \<times> string) res" where
  "deploy_code E p =
     (if cp_artifactPath p \<noteq> '''' then de_artifact E (cp_artifactPath p)
      else res_bind (de_abi E (cp_abiPath p)) (\<lambda>abi.
        res_bind (de_bin E (cp_binPath p)) (\<lambda>b. Inr (abi, ''0x'' @ b))))"

text \<open>The body of the \<^verbatim>\<open>try\<close> block.\<close>

definition deploy_attempt :: "deploy_env \<Rightarrow> deploy_keys \<Rightarrow> contract_paths \<Rightarrow> sol_arg list \<Rightarrow> nat \<Rightarrow> nat \<Rightarrow> (deploy_effect, string) run" where
  "deploy_attempt E k p args gas i =
     run_bind (run_ask (de_connect E i)) (\<lambda>_.
     run_bind (run_ask (de_account E (normalizeEthKey (dk_ethMasterSk k)))) (\<lambda>ethMasterAccount.
     run_bind (run_ask (deploy_code E p)) (\<lambda>(abi, bytecode).
     run_bind (run_ask (de_contract E abi bytecode args)) (\<lambda>_.
     run_bind (run_ask (de_getGasPrice E i)) (\<lambda>price.
     let tx = \<lparr>dtx_from = ethMasterAccount, dtx_data = bytecode, dtx_args = args, dtx_gas = gas,
       dtx_gasPrice = price * dk_ethGasMultiplier k\<rparr> in
     run_bind (run_do (DeployTx tx) (de_send E i tx)) (\<lambda>address.
     run_ret (normalizeEthKey address)))))))"

text \<open>\<open>None\<close> is \<^verbatim>\<open>null\<close>, or the \<^verbatim>\<open>undefined\<close> of a function whose loop ends; both are falsy.\<close>

fun deploy_retry :: "deploy_env \<Rightarrow> deploy_keys \<Rightarrow> contract_paths \<Rightarrow> sol_arg list \<Rightarrow> nat \<Rightarrow> nat \<Rightarrow> nat \<Rightarrow> (deploy_effect, string option) run" where
  "deploy_retry E k p args gas i 0 = run_ret None"
| "deploy_retry E k p args gas i (Suc left) = (case deploy_attempt E k p args gas i of
     (ts, Inr address) \<Rightarrow> (ts, Inr (Some address))
   | (ts, Inl e) \<Rightarrow>
       if nonce_error (error_message e)
       then (case deploy_retry E k p args gas (Suc i) left of (us, r) \<Rightarrow> (ts @ DeploySleep 5000 # us, r))
       else (ts, Inr None))"

definition initializer_execute :: "deploy_env \<Rightarrow> deploy_keys \<Rightarrow> contract_paths \<Rightarrow> sol_arg list \<Rightarrow> nat \<Rightarrow> (deploy_effect, string option) run" where
  "initializer_execute E k p args gas =
     (if (cp_abiPath p = '''' \<or> cp_binPath p = '''') \<and> cp_artifactPath p = '''' then run_ret None
      else deploy_retry E k p args gas 0 DEPLOY_RETRY_SEND_TX)"

text \<open>The commands end the process when the deployment failed.\<close>

definition or_cannot_deploy :: "(deploy_effect, string option) run \<Rightarrow> (deploy_effect, string) run" where
  "or_cannot_deploy r = run_bind r (\<lambda>success. case success of
     None \<Rightarrow> run_ask (Inl (ProcessExit 1)) | Some ethContractAddress \<Rightarrow> run_ret ethContractAddress)"

definition artifact_paths :: "string \<Rightarrow> contract_paths" where
  "artifact_paths path = \<lparr>cp_abiPath = '''', cp_binPath = '''', cp_artifactPath = path\<rparr>"

definition abi_bin_paths :: "string \<Rightarrow> string \<Rightarrow> contract_paths" where
  "abi_bin_paths abi bin = \<lparr>cp_abiPath = abi, cp_binPath = bin, cp_artifactPath = ''''\<rparr>"

text \<open>An empty administrator is the address of the master key, which is not normalized here.\<close>

definition admin_address :: "deploy_env \<Rightarrow> deploy_keys \<Rightarrow> string \<Rightarrow> string res" where
  "admin_address E k ethAdminAddress =
     (if ethAdminAddress = '''' then de_account E (dk_ethMasterSk k) else Inr ethAdminAddress)"

section \<open>The commands\<close>

text \<open>The results are the values the command stores in the configuration.\<close>

definition InitEthEd25519 :: "deploy_env \<Rightarrow> deploy_keys \<Rightarrow> string \<Rightarrow> (deploy_effect, (string \<times> string) list) run" where
  "InitEthEd25519 E k ethEd25519ArtifactPath =
     run_bind (or_cannot_deploy (initializer_execute E k (artifact_paths ethEd25519ArtifactPath) [] 5000000)) (\<lambda>address.
     run_ret [(''ethEd25519Address'', address)])"

definition InitEthErc20 :: "deploy_env \<Rightarrow> deploy_keys \<Rightarrow> string \<Rightarrow> string \<Rightarrow> (deploy_effect, (string \<times> string) list) run" where
  "InitEthErc20 E k ethErc20AbiPath ethErc20BinPath =
     run_bind (or_cannot_deploy (initializer_execute E k (abi_bin_paths ethErc20AbiPath ethErc20BinPath) [] 3000000)) (\<lambda>address.
     run_ret [(''ethErc20Address'', address)])"

definition InitEthLocker :: "deploy_env \<Rightarrow> deploy_keys \<Rightarrow> string \<Rightarrow> string \<Rightarrow> string \<Rightarrow> string \<Rightarrow> string
    \<Rightarrow> (deploy_effect, (string \<times> string) list) run" where
  "InitEthLocker E k nearTokenFactoryAccount ethProverAddress ethLockerAbiPath ethLockerBinPath ethAdminAddress =
     run_bind (run_ask (admin_address E k ethAdminAddress)) (\<lambda>admin.
     run_bind (or_cannot_deploy (initializer_execute E k (abi_bin_paths ethLockerAbiPath ethLockerBinPath)
       [ArgBytes (utf8_bytes nearTokenFactoryAccount), ArgAddress ethProverAddress, ArgUint 0, ArgAddress admin, ArgUint 0] 5000000)) (\<lambda>address.
     run_ret [(''ethLockerAddress'', address), (''ethAdminAddress'', admin)]))"

text \<open>Numbers of JavaScript: a comparison with \<^verbatim>\<open>NaN\<close> is false, \<^verbatim>\<open>Math.min\<close> with it is \<^verbatim>\<open>NaN\<close>.\<close>

fun js_less :: "int option \<Rightarrow> int option \<Rightarrow> bool" where
  "js_less (Some a) (Some b) \<longleftrightarrow> a < b"
| "js_less _ _ \<longleftrightarrow> False"

definition minAllowedReplaceDuration :: "int option \<Rightarrow> int option" where
  "minAllowedReplaceDuration ethClientLockDuration = (case ethClientLockDuration of
     None \<Rightarrow> None | Some d \<Rightarrow> Some (min (d + 20 * 60) (2 * d)))"

record client_params =
  cl_lockEthAmount :: int
  cl_lockDuration :: "int option"
  cl_replaceDuration :: "int option"
  cl_ethEd25519Address :: string
  cl_ethClientArtifactPath :: string
  cl_ethAdminAddress :: string

definition InitEthClient :: "deploy_env \<Rightarrow> deploy_keys \<Rightarrow> client_params \<Rightarrow> (deploy_effect, (string \<times> string) list) run" where
  "InitEthClient E k p =
     run_bind (run_ask (admin_address E k (cl_ethAdminAddress p))) (\<lambda>admin.
     if js_less (cl_replaceDuration p) (minAllowedReplaceDuration (cl_lockDuration p))
     then run_ask (Inl (JsError ''Invalid parameters''))
     else
     run_bind (run_ask (de_toBN E (Some (cl_lockEthAmount p)))) (\<lambda>lockEthAmount.
     run_bind (run_ask (de_toBN E (cl_lockDuration p))) (\<lambda>lockDuration.
     run_bind (run_ask (de_toBN E (cl_replaceDuration p))) (\<lambda>replaceDuration.
     run_bind (or_cannot_deploy (initializer_execute E k (artifact_paths (cl_ethClientArtifactPath p))
       [ArgAddress (cl_ethEd25519Address p), ArgUint lockEthAmount, ArgUint lockDuration, ArgUint (replaceDuration * 1000000000),
        ArgAddress admin, ArgUint 0] 5000000)) (\<lambda>address.
     run_ret [(''ethClientAddress'', address)])))))"

definition InitEthProver :: "deploy_env \<Rightarrow> deploy_keys \<Rightarrow> string \<Rightarrow> string \<Rightarrow> string \<Rightarrow> (deploy_effect, (string \<times> string) list) run" where
  "InitEthProver E k ethClientAddress ethProverArtifactPath ethAdminAddress =
     run_bind (run_ask (admin_address E k ethAdminAddress)) (\<lambda>admin.
     run_bind (or_cannot_deploy (initializer_execute E k (artifact_paths ethProverArtifactPath)
       [ArgAddress ethClientAddress, ArgAddress admin, ArgUint 0] 3000000)) (\<lambda>address.
     run_ret [(''ethProverAddress'', address)]))"

section \<open>What is sent\<close>

lemma deploy_retry_unfold:
  "0 < left \<Longrightarrow> deploy_retry E k p args gas i left = (case deploy_attempt E k p args gas i of
     (ts, Inr address) \<Rightarrow> (ts, Inr (Some address))
   | (ts, Inl e) \<Rightarrow>
       if nonce_error (error_message e)
       then (case deploy_retry E k p args gas (Suc i) (left - 1) of (us, r) \<Rightarrow> (ts @ DeploySleep 5000 # us, r))
       else (ts, Inr None))"
  by (cases left) (simp_all split: prod.splits sum.splits)

lemma deploy_attempt_tx:
  assumes "DeployTx tx \<in> set (fst (deploy_attempt E k p args gas i))"
  shows "dtx_args tx = args \<and> dtx_gas tx = gas"
  using assms by (auto simp: deploy_attempt_def set_run_bind Let_def split: prod.splits)

lemma deploy_attempt_Inr:
  assumes "deploy_attempt E k p args gas i = (ts, Inr a)"
  shows "\<exists>tx addr. ts = [DeployTx tx] \<and> de_send E i tx = Inr addr \<and> a = normalizeEthKey addr"
  using assms
  by (auto simp: deploy_attempt_def run_bind_def run_ask_def run_do_def run_ret_def Let_def split: prod.splits sum.splits)

lemma deploy_retry_tx:
  assumes "DeployTx tx \<in> set (fst (deploy_retry E k p args gas i left))"
  shows "dtx_args tx = args \<and> dtx_gas tx = gas"
  using assms
proof (induction left arbitrary: i)
  case (Suc left)
  show ?case
    using Suc.prems deploy_attempt_tx [of tx E k p args gas i] Suc.IH [of "Suc i"]
    by (auto split: prod.splits sum.splits if_splits)
qed simp

text \<open>
  A deployment is retried only after a refused nonce or gas price: the address returned is that of the last
  transaction sent, and no earlier attempt has deployed a contract.
\<close>

lemma deploy_retry_once:
  assumes "deploy_retry E k p args gas i left = (ts, Inr (Some a))"
  shows "\<exists>j tx addr. i \<le> j \<and> j < i + left \<and> ts \<noteq> [] \<and> last ts = DeployTx tx \<and> de_send E j tx = Inr addr \<and> a = normalizeEthKey addr
    \<and> (\<forall>j'. i \<le> j' \<and> j' < j \<longrightarrow> (\<exists>e. snd (deploy_attempt E k p args gas j') = Inl e \<and> nonce_error (error_message e)))"
  using assms
proof (induction left arbitrary: i ts)
  case (Suc left)
  obtain us r where att: "deploy_attempt E k p args gas i = (us, r)" by (cases "deploy_attempt E k p args gas i")
  show ?case
  proof (cases r)
    case (Inr b)
    then obtain tx addr where "us = [DeployTx tx]" "de_send E i tx = Inr addr" "b = normalizeEthKey addr"
      using att deploy_attempt_Inr by blast
    then show ?thesis using Suc.prems att Inr by (intro exI [of _ i]) auto
  next
    case (Inl e)
    obtain vs q where rest: "deploy_retry E k p args gas (Suc i) left = (vs, q)" by (cases "deploy_retry E k p args gas (Suc i) left")
    with Suc.prems att Inl have ne: "nonce_error (error_message e)" and ts: "ts = us @ DeploySleep 5000 # vs" and q: "q = Inr (Some a)"
      by (auto split: if_splits)
    from Suc.IH [of "Suc i" vs] rest q obtain j tx addr where j: "Suc i \<le> j" "j < Suc i + left" "vs \<noteq> []" "last vs = DeployTx tx"
      "de_send E j tx = Inr addr" "a = normalizeEthKey addr"
      "\<forall>j'. Suc i \<le> j' \<and> j' < j \<longrightarrow> (\<exists>e. snd (deploy_attempt E k p args gas j') = Inl e \<and> nonce_error (error_message e))" by auto
    have "\<exists>e. snd (deploy_attempt E k p args gas j') = Inl e \<and> nonce_error (error_message e)" if "i \<le> j'" "j' < j" for j'
      using that j(7) att Inl ne by (cases "j' = i") auto
    then show ?thesis using j ts by (intro exI [of _ j]) auto
  qed
qed (simp add: run_ret_def)

section \<open>The durations of the light client\<close>

text \<open>What \<^verbatim>\<open>web3.utils.toBN\<close> is documented to do: it keeps an integer and refuses what is not a number.\<close>

definition toBN_law :: "deploy_env \<Rightarrow> bool" where
  "toBN_law E \<longleftrightarrow> (\<forall>n. de_toBN E (Some n) = Inr n) \<and> isl (de_toBN E None)"

lemma initializer_execute_tx:
  assumes "DeployTx tx \<in> set (fst (initializer_execute E k p args gas))"
  shows "dtx_args tx = args"
  using assms deploy_retry_tx by (fastforce simp: initializer_execute_def split: if_splits)

lemma InitEthClient_tx:
  assumes "DeployTx tx \<in> set (fst (InitEthClient E k p))" "toBN_law E"
  shows "\<exists>lock rep admin. cl_lockDuration p = Some lock \<and> cl_replaceDuration p = Some rep \<and> min (lock + 1200) (2 * lock) \<le> rep
    \<and> dtx_args tx = [ArgAddress (cl_ethEd25519Address p), ArgUint (cl_lockEthAmount p), ArgUint lock, ArgUint (rep * 1000000000),
        ArgAddress admin, ArgUint 0]"
proof -
  have ok: "\<not> js_less (cl_replaceDuration p) (minAllowedReplaceDuration (cl_lockDuration p))"
    using assms(1) by (auto simp: InitEthClient_def set_run_bind split: if_splits)
  have *: "\<exists>admin lockDuration replaceDuration. de_toBN E (cl_lockDuration p) = Inr lockDuration
     \<and> de_toBN E (cl_replaceDuration p) = Inr replaceDuration
     \<and> dtx_args tx = [ArgAddress (cl_ethEd25519Address p), ArgUint (cl_lockEthAmount p), ArgUint lockDuration,
         ArgUint (replaceDuration * 1000000000), ArgAddress admin, ArgUint 0]"
    using assms ok
    by (auto simp: InitEthClient_def or_cannot_deploy_def set_run_bind toBN_law_def dest!: initializer_execute_tx split: option.splits)
  have "cl_lockDuration p \<noteq> None" "cl_replaceDuration p \<noteq> None"
    using * assms(2) by (metis toBN_law_def sum.disc(2))+
  then show ?thesis
    using * ok assms(2) by (auto simp: toBN_law_def minAllowedReplaceDuration_def)
qed

lemma unat_word_of_int: "0 \<le> n \<Longrightarrow> n < 2 ^ 256 \<Longrightarrow> unat (word_of_int n :: uint256) = nat n"
  by (simp add: unat_eq_nat_uint uint_word_of_int take_bit_int_eq_self)

text \<open>
  A light client that \<^verbatim>\<open>init-eth-client\<close> deploys with a positive lock duration is not refused by its own
  constructor: every deployment transaction carries the configured stake, the lock duration in seconds and
  the replace duration in nanoseconds, durations that the command has checked (the replace duration at least 20 minutes
  longer than the lock duration, or twice as long); with these arguments the constructor of \<^verbatim>\<open>NearBridge\<close> succeeds, and the
  storage it leaves keeps that distance.
\<close>

lemma deployed_client_accepted:
  assumes "DeployTx tx \<in> set (fst (InitEthClient E k p))" "toBN_law E"
    and "cl_lockDuration p = Some lck" "0 < lck" "cl_replaceDuration p = Some rep" "rep * 1000000000 < 2 ^ 256"
    and "lck * 1000000000 < 2 ^ 256" "0 \<le> cl_lockEthAmount p" "cl_lockEthAmount p < 2 ^ 256"
  shows "\<exists>admin s. dtx_args tx = [ArgAddress (cl_ethEd25519Address p), ArgUint (cl_lockEthAmount p), ArgUint lck,
        ArgUint (rep * 1000000000), ArgAddress admin, ArgUint 0]
    \<and> bridge_constructor (word_of_int (cl_lockEthAmount p)) (word_of_int lck) (word_of_int (rep * 1000000000)) adm 0 = Inr s
    \<and> int (unat (nb_lockEthAmount s)) = cl_lockEthAmount p \<and> int (unat (nb_lockDuration s)) = lck
    \<and> min (int (unat (nb_lockDuration s)) + 1200) (2 * int (unat (nb_lockDuration s))) * 1000000000 \<le> int (unat (nb_replaceDuration s))"
proof -
  from InitEthClient_tx [OF assms(1,2)] assms(3,5) obtain admin where
    a: "min (lck + 1200) (2 * lck) \<le> rep" "dtx_args tx = [ArgAddress (cl_ethEd25519Address p), ArgUint (cl_lockEthAmount p), ArgUint lck,
        ArgUint (rep * 1000000000), ArgAddress admin, ArgUint 0]" by auto
  have "lck < min (lck + 1200) (2 * lck)" using assms(4) by simp
  then have rep: "lck < rep" using a(1) by linarith
  have u: "unat (word_of_int lck :: uint256) = nat lck" "unat (word_of_int (rep * 1000000000) :: uint256) = nat (rep * 1000000000)"
    "unat (word_of_int (cl_lockEthAmount p) :: uint256) = nat (cl_lockEthAmount p)"
    using assms(4,6-9) rep by (simp_all add: unat_word_of_int del: of_int_mult)
  have "nat lck * 1000000000 < nat (rep * 1000000000)" using rep assms(4) by linarith
  moreover have "int (nat lck * 1000000000) < int (2 ^ 256)" using assms(4,7) by simp
  then have "nat lck * 1000000000 < 2 ^ 256" by (simp only: of_nat_less_iff)
  ultimately have "\<exists>s :: nearbridge. bridge_constructor (word_of_int (cl_lockEthAmount p)) (word_of_int lck) (word_of_int (rep * 1000000000)) adm 0 = Inr s
    \<and> nb_lockEthAmount s = word_of_int (cl_lockEthAmount p) \<and> nb_lockDuration s = word_of_int lck
    \<and> nb_replaceDuration s = word_of_int (rep * 1000000000)"
    by (simp add: bridge_constructor_def u require_def del: of_int_mult)
  then obtain s where "bridge_constructor (word_of_int (cl_lockEthAmount p)) (word_of_int lck) (word_of_int (rep * 1000000000)) adm 0 = Inr s"
    "nb_lockEthAmount s = word_of_int (cl_lockEthAmount p)" "nb_lockDuration s = word_of_int lck"
    "nb_replaceDuration s = word_of_int (rep * 1000000000)" by blast
  then show ?thesis using a assms(4,8) rep u by (intro exI [of _ admin] exI [of _ s]) auto
qed

definition demo_deploy_env :: deploy_env where
  "demo_deploy_env = \<lparr>de_connect = (\<lambda>_. Inr ()), de_account = (\<lambda>_. Inr ''0xa''), de_artifact = (\<lambda>_. Inr (''[]'', ''0x60'')),
     de_abi = (\<lambda>_. Inr ''[]''), de_bin = (\<lambda>_. Inr ''60''), de_contract = (\<lambda>_ _ _. Inr ()), de_getGasPrice = (\<lambda>_. Inr 20),
     de_send = (\<lambda>i tx. if i = 0 then Inl (LibraryError ''replacement transaction underpriced'') else Inr ''0xc1''),
     de_toBN = (\<lambda>n. case n of None \<Rightarrow> Inl (LibraryError ''toBN'') | Some m \<Rightarrow> Inr m)\<rparr>"

definition demo_client_params :: client_params where
  "demo_client_params = \<lparr>cl_lockEthAmount = 100, cl_lockDuration = Some 14400, cl_replaceDuration = Some 18000,
     cl_ethEd25519Address = ''0xed'', cl_ethClientArtifactPath = ''a.json'', cl_ethAdminAddress = ''''\<rparr>"

text \<open>The default durations of the command, with a first attempt that is refused as underpriced.\<close>

text \<open>
  The check does not cover a lock duration of zero: zero durations pass it, and the constructor reverts.
\<close>

lemma zero_durations_rejected:
  "\<not> js_less (Some 0) (minAllowedReplaceDuration (Some 0)) \<and> bridge_constructor amount 0 0 adm flags = Inl (Revert '''')"
  by (simp add: minAllowedReplaceDuration_def bridge_constructor_def require_def)

end
