(* ===== verification/Near_Contracts.thy ===== *)
theory Near_Contracts
  imports Accounts Eth_On_Near
begin

text \<open>
  The deployment of the NEAR contracts: \<^verbatim>\<open>cli/init/near-contracts.js\<close> (light client and prover),
  \<^verbatim>\<open>cli/init/near-token-factory.js\<close> (the token factory) and \<^verbatim>\<open>testing/transfer-eth-erc20/deploy-token.js\<close> (a token
  of the factory), on top of the account helpers of \<open>Accounts\<close> and the contract classes of \<open>Eth_On_Near\<close>; and the
  contract class of \<^verbatim>\<open>testing/transfer-eth-erc20/near-mintable-token.js\<close>.

  The answers of the NEAR node are the record \<open>near_world\<close>; its first argument of type \<^typ>\<open>nat\<close> is the number of the
  step at which an account is looked at, since accounts come into being between the steps.
\<close>

section \<open>The environment\<close>

record near_world =
  nw_publicKey :: "string \<Rightarrow> string res"
  nw_connect :: "unit res"
  nw_fetchState :: "nat \<Rightarrow> string \<Rightarrow> string + string"
  nw_accessKeys :: "nat \<Rightarrow> string \<Rightarrow> string list res"
  nw_createAccount :: "string \<Rightarrow> string \<Rightarrow> string \<Rightarrow> nat \<Rightarrow> near_exception + unit"
  nw_deployContract :: "string \<Rightarrow> string \<Rightarrow> nat \<Rightarrow> near_exception + unit"

datatype near_effect =
    OnAccount string string string account_effect
  | ClientInit js_value
  | ProverInit js_value
  | FactoryNew js_value
  | DeployBridgeToken string

text \<open>The in-memory key store: public keys by account, of one network.\<close>

type_synonym key_store = "string \<Rightarrow> string option"

definition setKey :: "near_world \<Rightarrow> string \<Rightarrow> string \<Rightarrow> key_store \<Rightarrow> key_store res" where
  "setKey W account sk ks = res_bind (nw_publicKey W sk) (\<lambda>pk. Inr (ks(account \<mapsto> pk)))"

definition verify_at :: "near_world \<Rightarrow> key_store \<Rightarrow> nat \<Rightarrow> string \<Rightarrow> bool res" where
  "verify_at W ks step account = verifyAccount (nw_fetchState W step account) (ks account) (nw_accessKeys W step account)"

definition account_env_at :: "near_world \<Rightarrow> nat \<Rightarrow> string \<Rightarrow> string \<Rightarrow> string \<Rightarrow> string \<Rightarrow> account_env" where
  "account_env_at W step account pk balance path =
     \<lparr>ae_fetchState = nw_fetchState W step account, ae_createAccount = nw_createAccount W account pk balance,
      ae_deployContract = nw_deployContract W account path\<rparr>"

definition create_at :: "near_world \<Rightarrow> nat \<Rightarrow> string \<Rightarrow> string \<Rightarrow> string \<Rightarrow> string \<Rightarrow> (near_effect, unit) run" where
  "create_at W step account pk balance path = (case maybeCreateAccount (account_env_at W step account pk balance path) of
     (ts, r) \<Rightarrow> (map (OnAccount account pk path) ts, r))"

definition or_master :: "string \<Rightarrow> string \<Rightarrow> string" where
  "or_master sk nearMasterSk = (if sk = '''' then nearMasterSk else sk)"

section \<open>InitNearContracts\<close>

record near_params =
  np_nearMasterAccount :: string
  np_nearMasterSk :: string
  np_nearClientAccount :: string
  np_nearClientSk :: string
  np_nearClientContractPath :: string
  np_nearClientInitBalance :: string
  np_hashesGcThreshold :: nat
  np_finalizedGcThreshold :: nat
  np_numConfirmations :: nat
  np_nearProverAccount :: string
  np_nearProverSk :: string
  np_nearProverContractPath :: string
  np_nearProverInitBalance :: string
  np_nearNetworkId :: string
  np_nearClientValidateEthash :: string
  np_nearClientTrustedSigner :: string

text \<open>
  \<open>clientEnv\<close> is what the client contract and the Ethereum node answer to \<^verbatim>\<open>maybeInitialize\<close>, \<open>proverKey\<close> and \<open>proverInit\<close> the
  access key of the prover account and the answer to the \<^verbatim>\<open>init\<close> of the prover contract.
\<close>

definition init_client :: "(string \<Rightarrow> bool \<Rightarrow> eth_block \<Rightarrow> bytes option) \<Rightarrow> client_env \<Rightarrow> near_params \<Rightarrow> (near_effect, unit) run" where
  "init_client rlp clientEnv p =
     (case client_maybeInitialize rlp (clientEnv\<lparr>ce_accountId := np_nearClientAccount p\<rparr>) (np_hashesGcThreshold p) (np_finalizedGcThreshold p)
         (np_numConfirmations p) (JBool (np_nearClientValidateEthash p = ''true''))
         (if np_nearClientTrustedSigner p = '''' then JNull else JStr (np_nearClientTrustedSigner p)) (Some (np_nearNetworkId p)) of
        Inl e \<Rightarrow> ([], Inl e)
      | Inr None \<Rightarrow> ([], Inr ())
      | Inr (Some args) \<Rightarrow> ([ClientInit args], Inr ()))"

definition init_prover :: "nat option \<Rightarrow> (js_value \<Rightarrow> unit res) \<Rightarrow> near_params \<Rightarrow> (near_effect, unit) run" where
  "init_prover proverKey proverInit p =
     (if proverKey = None then run_ask (prover_maybeInitialize (np_nearProverAccount p) proverKey proverInit (np_nearClientAccount p))
      else run_do (ProverInit (JObj [(''bridge_smart_contract'', JStr (np_nearClientAccount p))]))
        (prover_maybeInitialize (np_nearProverAccount p) proverKey proverInit (np_nearClientAccount p)))"

definition InitNearContracts :: "(string \<Rightarrow> bool \<Rightarrow> eth_block \<Rightarrow> bytes option) \<Rightarrow> near_world \<Rightarrow> client_env \<Rightarrow> nat option \<Rightarrow> (js_value \<Rightarrow> unit res)
    \<Rightarrow> near_params \<Rightarrow> (near_effect, (string \<times> string) list) run" where
  "InitNearContracts rlp W clientEnv proverKey proverInit p =
     (let nearClientSk = or_master (np_nearClientSk p) (np_nearMasterSk p);
          nearProverSk = or_master (np_nearProverSk p) (np_nearMasterSk p) in
     run_bind (run_ask (nw_publicKey W nearClientSk)) (\<lambda>nearClientPk.
     run_bind (run_ask (nw_publicKey W nearProverSk)) (\<lambda>nearProverPk.
     run_bind (run_ask (setKey W (np_nearMasterAccount p) (np_nearMasterSk p) Map.empty)) (\<lambda>ks1.
     run_bind (run_ask (setKey W (np_nearClientAccount p) nearClientSk ks1)) (\<lambda>ks2.
     run_bind (run_ask (setKey W (np_nearProverAccount p) nearProverSk ks2)) (\<lambda>ks.
     run_bind (run_ask (nw_connect W)) (\<lambda>_.
     run_bind (run_ask (verify_at W ks 0 (np_nearMasterAccount p))) (\<lambda>_.
     run_bind (create_at W 1 (np_nearClientAccount p) nearClientPk (np_nearClientInitBalance p) (np_nearClientContractPath p)) (\<lambda>_.
     run_bind (run_ask (verify_at W ks 2 (np_nearClientAccount p))) (\<lambda>_.
     run_bind (create_at W 3 (np_nearProverAccount p) nearProverPk (np_nearProverInitBalance p) (np_nearProverContractPath p)) (\<lambda>_.
     run_bind (run_ask (verify_at W ks 4 (np_nearProverAccount p))) (\<lambda>_.
     run_bind (init_client rlp clientEnv p) (\<lambda>_.
     run_bind (init_prover proverKey proverInit p) (\<lambda>_.
     run_ret [(''nearClientSk'', nearClientSk), (''nearProverSk'', nearProverSk)]))))))))))))))"

section \<open>The token factory\<close>

record token_params =
  tp_nearMasterAccount :: string
  tp_nearMasterSk :: string
  tp_nearTokenFactoryAccount :: string
  tp_nearTokenFactorySk :: string

text \<open>\<open>deploy\<close> is the answer of the factory to \<^verbatim>\<open>deploy_bridge_token\<close>; \<open>step\<close> is the number of the first look at an account.\<close>

definition DeployToken :: "near_world \<Rightarrow> nat \<Rightarrow> (string \<Rightarrow> unit res) \<Rightarrow> token_params \<Rightarrow> string \<Rightarrow> (near_effect, (string \<times> string) list) run" where
  "DeployToken W step deploy p ethTokenAddress =
     (let nearTokenFactorySk = or_master (tp_nearTokenFactorySk p) (tp_nearMasterSk p) in
     run_bind (run_ask (setKey W (tp_nearMasterAccount p) (tp_nearMasterSk p) Map.empty)) (\<lambda>ks1.
     run_bind (run_ask (setKey W (tp_nearTokenFactoryAccount p) nearTokenFactorySk ks1)) (\<lambda>ks.
     run_bind (run_ask (nw_connect W)) (\<lambda>_.
     run_bind (run_ask (verify_at W ks step (tp_nearMasterAccount p))) (\<lambda>_.
     run_bind (run_ask (verify_at W ks (Suc step) (tp_nearTokenFactoryAccount p))) (\<lambda>_.
     run_bind (run_catch (run_do (DeployBridgeToken (remove0x ethTokenAddress)) (deploy (remove0x ethTokenAddress)))
       (\<lambda>_. run_ask (Inl (ProcessExit 1)))) (\<lambda>_.
     run_ret [(''nearTokenFactorySk'', nearTokenFactorySk),
       (''nearTokenAccount'', remove0x ethTokenAddress @ ''.'' @ tp_nearTokenFactoryAccount p),
       (''ethTokenAddress'', ethTokenAddress)])))))))"

text \<open>\<^verbatim>\<open>{ nearErc20Account: nearTokenAccount, ethErc20Address: ethTokenAddress, ...otherDeployedTokenInfo }\<close>\<close>

definition rename_token_info :: "string \<Rightarrow> string \<Rightarrow> (string \<times> string) list \<Rightarrow> (string \<times> string) list" where
  "rename_token_info accountName addressName info =
     map (\<lambda>(k, v). (if k = ''nearTokenAccount'' then accountName else addressName, v))
       (filter (\<lambda>(k, v). k = ''nearTokenAccount'') info @ filter (\<lambda>(k, v). k = ''ethTokenAddress'') info)
     @ filter (\<lambda>(k, v). k \<noteq> ''nearTokenAccount'' \<and> k \<noteq> ''ethTokenAddress'') info"

definition factory_args :: "string \<Rightarrow> string \<Rightarrow> js_value" where
  "factory_args nearProverAccount ethLockerAddress = JObj [(''prover_account'', JStr nearProverAccount),
     (''locker_address'', JStr (if startsWith ethLockerAddress ''0x'' then drop 2 ethLockerAddress else ethLockerAddress))]"

definition InitNearTokenFactory :: "near_world \<Rightarrow> (js_value \<Rightarrow> unit res) \<Rightarrow> (string \<Rightarrow> unit res) \<Rightarrow> token_params \<Rightarrow> string \<Rightarrow> string
    \<Rightarrow> string \<Rightarrow> string \<Rightarrow> string \<Rightarrow> (near_effect, (string \<times> string) list) run" where
  "InitNearTokenFactory W factoryNew deploy p contractPath initBalance nearProverAccount ethLockerAddress ethErc20Address =
     (let nearTokenFactorySk = or_master (tp_nearTokenFactorySk p) (tp_nearMasterSk p) in
     run_bind (run_ask (nw_publicKey W nearTokenFactorySk)) (\<lambda>nearTokenFactoryPk.
     run_bind (run_ask (setKey W (tp_nearMasterAccount p) (tp_nearMasterSk p) Map.empty)) (\<lambda>ks1.
     run_bind (run_ask (setKey W (tp_nearTokenFactoryAccount p) nearTokenFactorySk ks1)) (\<lambda>ks.
     run_bind (run_ask (nw_connect W)) (\<lambda>_.
     run_bind (run_ask (verify_at W ks 0 (tp_nearMasterAccount p))) (\<lambda>_.
     run_bind (create_at W 1 (tp_nearTokenFactoryAccount p) nearTokenFactoryPk initBalance contractPath) (\<lambda>_.
     run_bind (run_catch (run_do (FactoryNew (factory_args nearProverAccount ethLockerAddress)) (factoryNew (factory_args nearProverAccount ethLockerAddress)))
       (\<lambda>_. run_ask (Inl (ProcessExit 1)))) (\<lambda>_.
     run_bind (DeployToken W 2 deploy (p\<lparr>tp_nearTokenFactorySk := nearTokenFactorySk\<rparr>) ethErc20Address) (\<lambda>deployedTokenInfo.
     run_ret (rename_token_info ''nearErc20Account'' ''ethErc20Address'' deployedTokenInfo))))))))))"

section \<open>NearMintableToken\<close>

definition mintable_borshSchema :: "hexlib \<Rightarrow> borsh_schema" where
  "mintable_borshSchema H = map_of [
     (''bool'', SFunction (\<lambda>b. of_lib ''web3'' (hexToBytes H (JStr (if truthy b then ''0x01'' else ''0x00''))))
        (\<lambda>c. res_bind (readerToHex H 1 c) (\<lambda>(v, c1). Inr (JBool (v = JStr ''0x01''), c1)))),
     (''Proof'', SStruct [
        (''log_index'', FName ''u64''),
        (''log_entry_data'', FArray (FName ''u8'')),
        (''receipt_index'', FName ''u64''),
        (''receipt_data'', FArray (FName ''u8'')),
        (''header_data'', FArray (FName ''u8'')),
        (''proof'', FArray (FArray (FName ''u8'')))])]"

definition mintable_changeMethods :: "method_descr list" where
  "mintable_changeMethods = [\<lparr>methodName = ''deposit'', inputFieldType = Some (FName ''Proof''), outputFieldType = None\<rparr>]"

interpretation mintable_schema: schema_codecs "mintable_borshSchema H" "\<lambda>_ _. False" for H
  by (rule schema_codecs.intro) (rule never_codec)

text \<open>The proof of an event is deposited in a wire format that gives it back.\<close>

lemma mintable_schema_roundtrip:
  assumes "writer_ok W" "typed d (mintable_borshSchema H) (\<lambda>_ _. False) ty v" "d \<le> e"
  shows "\<exists>bs. serialize e W (mintable_borshSchema H) (Some ty) v = Inr bs
    \<and> deserialize e (mintable_borshSchema H) (Some ty) bs = Inr v"
  using mintable_schema.serialize_roundtrip assms .

section \<open>What a completed deployment guarantees\<close>

text \<open>The account held a contract before, and nothing was done, or a deployment succeeded as the last thing done.\<close>

definition has_contract :: "account_env \<Rightarrow> account_effect list \<Rightarrow> bool" where
  "has_contract E ts \<longleftrightarrow> (\<exists>h. ae_fetchState E = Inr h \<and> h \<noteq> EMPTY_HASH \<and> ts = [])
     \<or> (\<exists>d<10. ae_deployContract E d = Inr () \<and> ts \<noteq> [] \<and> last ts = DeployContract)"

lemma maybeCreateAccount_has_contract:
  assumes "snd (maybeCreateAccount E) = Inr ()"
  shows "has_contract E (fst (maybeCreateAccount E))"
proof (cases "ae_fetchState E")
  case (Inl e)
  then obtain c d where "d < 10" "ae_deployContract E d = Inr ()"
    "fst (maybeCreateAccount E) = replicate (Suc c) CreateAccount @ replicate (Suc d) DeployContract"
    using maybeCreateAccount_deploys [OF assms] by auto
  then show ?thesis by (auto simp: has_contract_def simp del: replicate_Suc)
next
  case (Inr h)
  then show ?thesis
    using maybeCreateAccount_deploys [OF assms] by (auto simp: has_contract_def simp del: replicate_Suc split: if_splits)
qed

lemma create_at_Inr:
  assumes "snd (create_at W step account pk balance path) = Inr u"
  shows "\<exists>ts. fst (create_at W step account pk balance path) = map (OnAccount account pk path) ts
    \<and> has_contract (account_env_at W step account pk balance path) ts"
  using assms maybeCreateAccount_has_contract [of "account_env_at W step account pk balance path"]
  by (auto simp: create_at_def split: prod.splits)

lemma verify_at_Inr:
  assumes "verify_at W ks step account = Inr b"
  shows "\<exists>pk keys. ks account = Some pk \<and> nw_accessKeys W step account = Inr keys \<and> pk \<in> set keys"
proof (cases "nw_accessKeys W step account")
  case (Inr keys)
  then show ?thesis
    using assms by (cases keys; cases "ks account") (auto simp: verify_at_def verifyAccount_def accountHasTheKey_def split: if_splits)
qed (use assms in \<open>simp add: verify_at_def verifyAccount_def accountHasTheKey_def split: if_splits\<close>)

lemma client_maybeInitialize_Inr:
  assumes "client_maybeInitialize rlp E hashesGc finalizedGc numConf validateEthash trustedSigner bridgeId = Inr called"
  shows "ce_dag_merkle_root E (JObj [(''epoch'', JInt 0)]) = Inr (JStr ''0x55b891e842e58f58956a847cbbf67821'')
    \<and> ce_dag_merkle_root E (JObj [(''epoch'', JInt 511)]) = Inr (JStr ''0x7a9010568819de327a24fa495029adcb'')
    \<and> (case called of None \<Rightarrow> \<exists>v. ce_initialized E = Inr v \<and> truthy v | Some args \<Rightarrow> ce_init E args 300000000000000 = Inr ())"
  using assms
  by (auto simp: client_maybeInitialize_def client_init_def Let_def res_bind_eq_Inr_iff split: if_splits sum.splits)

lemma init_client_Inr:
  assumes "snd (init_client rlp clientEnv p) = Inr u"
  shows "ce_dag_merkle_root clientEnv (JObj [(''epoch'', JInt 0)]) = Inr (JStr ''0x55b891e842e58f58956a847cbbf67821'')
    \<and> ce_dag_merkle_root clientEnv (JObj [(''epoch'', JInt 511)]) = Inr (JStr ''0x7a9010568819de327a24fa495029adcb'')
    \<and> (if fst (init_client rlp clientEnv p) = [] then \<exists>v. ce_initialized clientEnv = Inr v \<and> truthy v
       else \<exists>args. fst (init_client rlp clientEnv p) = [ClientInit args] \<and> ce_init clientEnv args 300000000000000 = Inr ())"
proof -
  define signer where "signer = (if np_nearClientTrustedSigner p = '''' then JNull else JStr (np_nearClientTrustedSigner p))"
  define r where "r = client_maybeInitialize rlp (clientEnv\<lparr>ce_accountId := np_nearClientAccount p\<rparr>) (np_hashesGcThreshold p)
    (np_finalizedGcThreshold p) (np_numConfirmations p) (JBool (np_nearClientValidateEthash p = ''true'')) signer (Some (np_nearNetworkId p))"
  have run: "init_client rlp clientEnv p = (case r of Inl e \<Rightarrow> ([], Inl e) | Inr None \<Rightarrow> ([], Inr ()) | Inr (Some args) \<Rightarrow> ([ClientInit args], Inr ()))"
    by (simp add: init_client_def r_def signer_def)
  then obtain called where called: "r = Inr called" using assms by (cases r) auto
  then show ?thesis
    using run client_maybeInitialize_Inr [OF called [unfolded r_def]] by (cases called) auto
qed

lemma init_prover_Inr:
  assumes "snd (init_prover proverKey proverInit p) = Inr u"
  shows "fst (init_prover proverKey proverInit p) = [ProverInit (JObj [(''bridge_smart_contract'', JStr (np_nearClientAccount p))])]"
  using assms by (cases proverKey) (auto simp: init_prover_def prover_maybeInitialize_def accessKeyInit_def)


definition demo_world :: near_world where
  "demo_world = \<lparr>nw_publicKey = (\<lambda>sk. Inr (''pk-'' @ sk)), nw_connect = Inr (),
     nw_fetchState = (\<lambda>step account. if account = ''client'' \<and> step < 2 then Inl ''does not exist'' else Inr ''9abc''),
     nw_accessKeys = (\<lambda>step account. Inr [if account = ''prover'' then ''pk-p'' else ''pk-m'']),
     nw_createAccount = (\<lambda>_ _ _ _. Inr ()), nw_deployContract = (\<lambda>_ _ _. Inr ())\<rparr>"

definition demo_near_params :: near_params where
  "demo_near_params = \<lparr>np_nearMasterAccount = ''master'', np_nearMasterSk = ''m'', np_nearClientAccount = ''client'', np_nearClientSk = '''',
     np_nearClientContractPath = ''client.wasm'', np_nearClientInitBalance = ''1'', np_hashesGcThreshold = 40000, np_finalizedGcThreshold = 500,
     np_numConfirmations = 30, np_nearProverAccount = ''prover'', np_nearProverSk = ''p'', np_nearProverContractPath = ''prover.wasm'',
     np_nearProverInitBalance = ''1'', np_nearNetworkId = ''testnet'', np_nearClientValidateEthash = ''true'', np_nearClientTrustedSigner = ''''\<rparr>"


end
