(* ===== verification/Rainbow_Config.thy ===== *)
theory Rainbow_Config
  imports Borsh_Schema
begin

text \<open>
  The options of the command line tool, class \<^verbatim>\<open>RainbowConfig\<close> of \<^verbatim>\<open>utils/config/index.js\<close>: their
  declarations, where a value comes from, and the configuration file that keeps the values for the
  next command. The state is the record \<open>config\<close>; the conversions between the spellings of a name are
  those of the package change-case and the parameter \<open>case_lib\<close>, and the environment of the process is
  the argument \<open>env\<close>.
\<close>

section \<open>The state\<close>

record case_lib =
  paramCase :: "string \<Rightarrow> string"
  snakeCase :: "string \<Rightarrow> string"
  camelCase :: "string \<Rightarrow> string"
  constantCase :: "string \<Rightarrow> string"

datatype param_type = FromEnv | FromArg | FromConfig | FromDefault

record option_decl =
  dcl_description :: string
  dcl_defaultValue :: js_value
  dcl_noConfig :: bool

record config =
  paramValues :: "(string \<times> js_value \<times> param_type) list"
  paramDeclarations :: "(string \<times> option_decl) list"
  configFile :: "string \<Rightarrow> js_value option"

section \<open>Operations\<close>

text \<open>An omitted default value (\<open>JUndefined\<close>) becomes the empty string.\<close>

definition declareOption :: "string \<Rightarrow> string \<Rightarrow> js_value \<Rightarrow> bool \<Rightarrow> config \<Rightarrow> config" where
  "declareOption name description defaultValue noConfig s =
     s\<lparr>paramDeclarations := assoc_set (paramDeclarations s) name
        \<lparr>dcl_description = description,
         dcl_defaultValue = (if defaultValue = JUndefined then JStr '''' else defaultValue),
         dcl_noConfig = noConfig\<rparr>\<rparr>"

definition maybeGetParam :: "case_lib \<Rightarrow> config \<Rightarrow> string \<Rightarrow> js_value" where
  "maybeGetParam C s name = (case map_of (paramValues s) name of
     Some (v, ty) \<Rightarrow> v
   | None \<Rightarrow> (case configFile s (camelCase C name) of
       Some v \<Rightarrow> v
     | None \<Rightarrow> (case map_of (paramDeclarations s) name of
         Some d \<Rightarrow> if dcl_defaultValue d \<noteq> JUndefined then dcl_defaultValue d else JNull
       | None \<Rightarrow> JNull)))"

definition getParam :: "case_lib \<Rightarrow> config \<Rightarrow> string \<Rightarrow> js_value res" where
  "getParam C s name = (let res = maybeGetParam C s name in
     if res = JNull then Inl (JsError (''Parameter '' @ name @ '' must be specified.'')) else Inr res)"

definition setParam :: "string \<Rightarrow> js_value \<Rightarrow> config \<Rightarrow> config" where
  "setParam name value s = s\<lparr>paramValues := assoc_set (paramValues s) name (value, FromConfig)\<rparr>"

text \<open>\<open>env\<close> is \<^verbatim>\<open>process.env\<close>; an empty variable is falsy.\<close>

definition processArg :: "case_lib \<Rightarrow> (string \<Rightarrow> string option) \<Rightarrow> string \<Rightarrow> js_value \<Rightarrow> js_value \<Rightarrow> config
    \<Rightarrow> (js_value \<times> config) res" where
  "processArg C env name val previous s =
     (if map_of (paramValues s) name \<noteq> None then Inl (ProcessExit 1)
      else (let stored = (\<lambda>v ty. Inr (v, s\<lparr>paramValues := assoc_set (paramValues s) name (v, ty)\<rparr>)) in
        case env (constantCase C name) of
          Some e \<Rightarrow> if e \<noteq> '''' then stored (JStr e) FromEnv
            else if truthy val then stored val FromArg
            else (case configFile s (camelCase C name) of
                Some v \<Rightarrow> stored v FromConfig
              | None \<Rightarrow> if truthy previous then stored previous FromDefault else Inl (ProcessExit 1))
        | None \<Rightarrow> if truthy val then stored val FromArg
            else (case configFile s (camelCase C name) of
                Some v \<Rightarrow> stored v FromConfig
              | None \<Rightarrow> if truthy previous then stored previous FromDefault else Inl (ProcessExit 1))))"

text \<open>What \<^verbatim>\<open>addOptions\<close> registers with the command, option by option: flags, description, default.\<close>

definition option_default :: "case_lib \<Rightarrow> config \<Rightarrow> string \<Rightarrow> option_decl \<Rightarrow> js_value" where
  "option_default C s name d = (let v = maybeGetParam C s (paramCase C name) in
     if v = JNull then (if dcl_defaultValue d = JNull then JUndefined else dcl_defaultValue d) else v)"

fun addOptions :: "case_lib \<Rightarrow> config \<Rightarrow> string list \<Rightarrow> (string \<times> string \<times> js_value) list res" where
  "addOptions C s [] = Inr []"
| "addOptions C s (option # rest) = (case map_of (paramDeclarations s) option of
     None \<Rightarrow> Inl JsTypeError
   | Some d \<Rightarrow> res_bind (addOptions C s rest) (\<lambda>more.
       Inr ((''--'' @ paramCase C option @ '' <'' @ snakeCase C option @ ''>'', dcl_description d,
         option_default C s option d) # more)))"

text \<open>Every value is written, whatever it comes from.\<close>

definition saveConfig :: "case_lib \<Rightarrow> config \<Rightarrow> config" where
  "saveConfig C s = s\<lparr>configFile :=
     foldl (\<lambda>f (name, v, ty). f(camelCase C name \<mapsto> v)) (configFile s) (paramValues s)\<rparr>"

text \<open>The action of a command: the values its handler returns are stored and saved.\<close>

definition store_values :: "case_lib \<Rightarrow> (string \<times> js_value) list \<Rightarrow> config \<Rightarrow> config" where
  "store_values C nvs s = foldl (\<lambda>t (name, v). setParam (paramCase C name) v t) s nvs"

definition command_action :: "case_lib \<Rightarrow> (string \<times> js_value) list option \<Rightarrow> config \<Rightarrow> config" where
  "command_action C newConfigValues s = (case newConfigValues of
     None \<Rightarrow> s
   | Some nvs \<Rightarrow> (let s1 = store_values C nvs s in if nvs \<noteq> [] then saveConfig C s1 else s1))"

text \<open>The next command: a new process with the same declarations and the file on disk.\<close>

definition next_process :: "config \<Rightarrow> config" where
  "next_process s = s\<lparr>paramValues := []\<rparr>"

section \<open>Invariant\<close>

text \<open>A parameter has one value.\<close>

definition config_ok :: "config \<Rightarrow> bool" where
  "config_ok s \<longleftrightarrow> distinct (map fst (paramValues s)) \<and> distinct (map fst (paramDeclarations s))"

lemma declareOption_ok: "config_ok s \<Longrightarrow> config_ok (declareOption n d v c s)"
  by (simp add: config_ok_def declareOption_def)

lemma setParam_ok: "config_ok s \<Longrightarrow> config_ok (setParam n v s)"
  by (simp add: config_ok_def setParam_def)

lemma processArg_ok: "config_ok s \<Longrightarrow> processArg C env n v p s = Inr (r, s') \<Longrightarrow> config_ok s'"
  by (auto simp: config_ok_def processArg_def Let_def split: if_splits option.splits)

lemma saveConfig_ok: "config_ok s \<Longrightarrow> config_ok (saveConfig C s)"
  by (simp add: config_ok_def saveConfig_def)

lemma store_values_ok: "config_ok s \<Longrightarrow> config_ok (store_values C nvs s)"
  by (induction nvs arbitrary: s) (auto simp: store_values_def setParam_ok split_beta)

lemmas config_ops_ok = declareOption_ok setParam_ok processArg_ok saveConfig_ok store_values_ok

section \<open>The file keeps the values\<close>

lemma saved_file:
  assumes "distinct (map fst pvs)" "inj_on (camelCase C) (fst ` set pvs)" "(name, v, ty) \<in> set pvs"
  shows "foldl (\<lambda>f (name, v, ty). f(camelCase C name \<mapsto> v)) f0 pvs (camelCase C name) = Some v"
  using assms
proof (induction pvs arbitrary: f0 rule: rev_induct)
  case (snoc pv pvs)
  obtain n w t where pv: "pv = (n, w, t)" by (cases pv)
  show ?case
  proof (cases "(name, v, ty) = pv")
    case False
    then have mem: "(name, v, ty) \<in> set pvs" using snoc.prems(3) by simp
    then have "name \<noteq> n" using snoc.prems(1) pv by force
    then have "camelCase C name \<noteq> camelCase C n"
      using snoc.prems(2) mem pv by (force simp: inj_on_def)
    moreover have "inj_on (camelCase C) (fst ` set pvs)"
      using snoc.prems(2) by (auto intro: inj_on_subset)
    ultimately show ?thesis
      using snoc.IH [of f0] snoc.prems(1) mem pv by simp
  qed (simp add: pv)
qed simp

text \<open>
  Values survive the process: after \<^verbatim>\<open>saveConfig\<close>, the next command sees for every parameter that had a
  value the same value, as long as no two of these parameters are written the same in camel case.
\<close>

lemma saveConfig_roundtrip:
  assumes "config_ok s" "inj_on (camelCase C) (fst ` set (paramValues s))"
    and "map_of (paramValues s) name = Some (v, ty)"
  shows "maybeGetParam C (next_process (saveConfig C s)) name = maybeGetParam C s name"
proof -
  have "(name, v, ty) \<in> set (paramValues s)" using assms(3) by (rule map_of_SomeD)
  then have "configFile (saveConfig C s) (camelCase C name) = Some v"
    using saved_file [of "paramValues s" C name v ty "configFile s"] assms(1,2)
    by (simp add: saveConfig_def config_ok_def)
  then show ?thesis
    using assms(3) by (simp add: maybeGetParam_def next_process_def)
qed

text \<open>A spelling library for concrete runs: the names of the example are the same in every case.\<close>

definition demo_case :: case_lib where
  "demo_case = \<lparr>paramCase = (\<lambda>s. s), snakeCase = (\<lambda>s. s), camelCase = (\<lambda>s. s), 
     constantCase = (\<lambda>s. if s = ''key'' then ''KEY'' else s)\<rparr>"

definition demo_config :: config where
  "demo_config = \<lparr>paramValues = [(''port'', JStr ''80'', FromArg)], paramDeclarations = [], configFile = (\<lambda>_. None)\<rparr>"

text \<open>
  An argument of the command line is overridden by the environment, and the environment's value reaches
  the configuration file: when the variable of a parameter is set, a command that is given the
  parameter as an argument and then saves its configuration leaves the variable's value in the file,
  and later commands use it without the variable.
\<close>

lemma environment_saved:
  assumes "config_ok s" "map_of (paramValues s) name = None" "env (constantCase C name) = Some e" "e \<noteq> ''''"
    and "inj_on (camelCase C) (insert name (fst ` set (paramValues s)))"
  shows "\<exists>s1. processArg C env name arg previous s = Inr (JStr e, s1)
    \<and> configFile (saveConfig C s1) (camelCase C name) = Some (JStr e)
    \<and> getParam C (next_process (saveConfig C s1)) name = Inr (JStr e)"
proof -
  define s1 where "s1 = s\<lparr>paramValues := assoc_set (paramValues s) name (JStr e, FromEnv)\<rparr>"
  have arg: "processArg C env name arg previous s = Inr (JStr e, s1)"
    using assms(2-4) by (simp add: processArg_def s1_def)
  have "(name, JStr e, FromEnv) \<in> set (paramValues s1)"
    by (rule map_of_SomeD) (simp add: s1_def)
  then have "configFile (saveConfig C s1) (camelCase C name) = Some (JStr e)"
    using saved_file [of "paramValues s1" C name "JStr e" FromEnv "configFile s1"] assms(1,5)
    by (simp add: saveConfig_def s1_def config_ok_def)
  then show ?thesis
    using arg by (simp add: getParam_def maybeGetParam_def next_process_def)
qed

end
