(* ===== verification/Cli_Options.thy ===== *)
theory Cli_Options
  imports Rainbow_Config
begin

text \<open>
  The command line tool, \<^verbatim>\<open>cli/index.js\<close>: the options it declares, with their defaults, and its commands, each with
  the declared options it adds (\<^verbatim>\<open>RainbowConfig.addOptions\<close>), the options of its own, and the parameters its handler takes from
  the parsed command. A command is the record \<open>cli_command\<close>; \<open>cmd_given\<close> are the names under which the positional
  arguments are passed on, and \<open>cmd_reads\<close> the properties the handler destructures, in the file of the handler.

  The package commander, which makes the value of an option \<^verbatim>\<open>--near-node-url\<close> the property \<^verbatim>\<open>nearNodeUrl\<close>, is the
  parameter \<open>attr\<close>; \<^verbatim>\<open>__dirname\<close> is the argument \<open>dirname\<close>.
\<close>

section \<open>Paths and names\<close>

fun split_char :: "char \<Rightarrow> string \<Rightarrow> string list" where
  "split_char c [] = [[]]"
| "split_char c (x # xs) = (if x = c then [] # split_char c xs
     else (case split_char c xs of [] \<Rightarrow> [[x]] | w # ws \<Rightarrow> (x # w) # ws))"

fun join_char :: "char \<Rightarrow> string list \<Rightarrow> string" where
  "join_char c [] = []"
| "join_char c [w] = w"
| "join_char c (w # v # ws) = w @ c # join_char c (v # ws)"

text \<open>\<^verbatim>\<open>path.join\<close> of Node on POSIX: the parts are joined, then the segments \<^verbatim>\<open>.\<close> and \<^verbatim>\<open>..\<close> are resolved.\<close>

fun norm_segments :: "bool \<Rightarrow> string list \<Rightarrow> string list \<Rightarrow> string list" where
  "norm_segments absolute stack [] = rev stack"
| "norm_segments absolute stack (s # ss) =
     (if s = '''' \<or> s = ''.'' then norm_segments absolute stack ss
      else if s = ''..'' then (case stack of
          [] \<Rightarrow> norm_segments absolute (if absolute then [] else [s]) ss
        | prev # rest \<Rightarrow> norm_segments absolute (if prev = ''..'' then s # stack else rest) ss)
      else norm_segments absolute (s # stack) ss)"

definition path_normalize :: "string \<Rightarrow> string" where
  "path_normalize p = (if p = '''' then ''.'' else
     let absolute = (hd p = CHR ''/''); trailing = (last p = CHR ''/'');
         body = join_char (CHR ''/'') (norm_segments absolute [] (split_char (CHR ''/'') p));
         body1 = (if body = '''' \<and> \<not> absolute then ''.'' else body);
         body2 = (if trailing \<and> (body \<noteq> '''' \<or> \<not> absolute) then body1 @ ''/'' else body1)
     in (if absolute then ''/'' @ body2 else body2))"

definition path_join :: "string list \<Rightarrow> string" where
  "path_join parts = path_normalize (join_char (CHR ''/'') (filter (\<lambda>p. p \<noteq> '''') parts))"

definition LIBS_SOL_SRC_DIR :: "string \<Rightarrow> string" where
  "LIBS_SOL_SRC_DIR dirname = path_join [dirname, ''..'', ''contracts'', ''eth'']"
definition LIBS_RS_SRC_DIR :: "string \<Rightarrow> string" where
  "LIBS_RS_SRC_DIR dirname = path_join [dirname, ''..'', ''contracts'', ''near'']"
definition LIBS_TC_SRC_DIR :: "string \<Rightarrow> string" where
  "LIBS_TC_SRC_DIR dirname = path_join [dirname, ''..'', ''node_modules'', ''rainbow-token-connector'']"

section \<open>Declared options\<close>

text \<open>Name, description, default value (\<open>JUndefined\<close> when it is omitted) and whether the option is kept out of the configuration.\<close>

definition general_options :: "string \<Rightarrow> (string \<times> string \<times> js_value \<times> bool) list" where
  "general_options dirname = [
     (''near-network-id'',
      ''The identifier of the NEAR network that the given NEAR node is expected to represent.'', JUndefined, False),
     (''near-node-url'',
      ''The URL of the NEAR node.'', JUndefined, False),
     (''eth-node-url'',
      ''The URL of the Ethereum node.'', JUndefined, False),
     (''near-master-account'',
      ''The account of the master account on NEAR blockchain that can be used to deploy and initialize the test contracts. This account will also own the initial supply of the fungible tokens.'',
      JUndefined, False),
     (''near-master-sk'',
      ''The secret key of the master account on NEAR blockchain.'', JUndefined, False),
     (''eth-master-sk'',
      ''The secret key of the master account on Ethereum blockchain.'', JUndefined, False),
     (''near-client-account'',
      ''The account of the Near Client contract that can be used to accept ETH headers.'',
      JStr ''rainbow_bridge_eth_on_near_client'', False),
     (''near-client-sk'',
      ''The secret key of the Near Client account. If not specified will use master SK.'', JUndefined, False),
     (''near-client-contract-path'',
      ''The path to the Wasm file containing the Near Client contract.'',
      JStr (path_join [LIBS_RS_SRC_DIR dirname, ''res/eth_client.wasm'']), False),
     (''near-client-init-balance'',
      ''The initial balance of Near Client contract in yoctoNEAR.'', JStr ''100000000000000000000000000'', False),
     (''near-client-validate-ethash'',
      ''Whether validate ethash of submitted eth block, should set to true on mainnet and false on PoA testnets'',
      JStr ''true'', False),
     (''hashes-gc-threshold'',
      ''Events that happen past this threshold cannot be verified by the client.'', JInt 40000, False),
     (''finalized-gc-threshold'',
      ''We store full information about the headers for the past `finalized_gc_threshold` blocks.'', JInt 500, False),
     (''num-confirmations'',
      ''Number of confirmations blocks on Ethereum that applications can use to consider the transaction safe.'', JInt 30, False),
     (''near-client-trusted-signer'',
      ''When non empty, deploy as trusted-signer mode where only trusted signer can submit blocks to client'', JStr '''', False),
     (''near-prover-account'',
      ''The account of the Near Prover contract that can be used to accept ETH headers.'',
      JStr ''rainbow_bridge_eth_on_near_prover'', False),
     (''near-prover-sk'',
      ''The secret key of the Near Prover account. If not specified will use master SK.'', JUndefined, False),
     (''near-prover-contract-path'',
      ''The path to the Wasm file containing the Near Prover contract.'',
      JStr (path_join [LIBS_RS_SRC_DIR dirname, ''res/eth_prover.wasm'']), False),
     (''near-prover-init-balance'',
      ''The initial balance of Near Prover contract in yoctoNEAR.'', JStr ''100000000000000000000000000'', False),
     (''daemon'',
      ''Whether the process should be launched as a daemon.'', JStr ''true'', True),
     (''core-src'',
      ''Path to the nearcore source. It will be downloaded if not provided.'', JStr '''', False),
     (''eth-gas-multiplier'',
      ''How many times more in Ethereum gas are we willing to overpay.'', JStr ''1'', False),
     (''metrics-port'',
      ''On which port to expose metrics for corresponding relayer, if not provided no metrics exposed'', JNull, False)]"

definition user_options :: "string \<Rightarrow> (string \<times> string \<times> js_value \<times> bool) list" where
  "user_options dirname = [
     (''near-token-factory-account'',
      ''The account of the token factory contract that will be used to mint tokens locked on Ethereum.'',
      JStr ''neartokenfactory.node0'', False),
     (''near-token-factory-sk'',
      ''The secret key of the token factory account. If not specified will use master SK.'', JUndefined, False),
     (''near-token-factory-contract-path'',
      ''The path to the Wasm file containing the token factory contract.'',
      JStr (path_join [LIBS_TC_SRC_DIR dirname, ''res/bridge_token_factory.wasm'']), False),
     (''near-token-factory-init-balance'',
      ''The initial balance of token factory contract in yoctoNEAR.'', JStr ''1000000000000000000000000000'', False),
     (''eth-locker-address'',
      ''ETH address of the locker contract.'', JUndefined, False),
     (''eth-locker-abi-path'',
      ''Path to the .abi file defining Ethereum locker contract.'',
      JStr (path_join [LIBS_TC_SRC_DIR dirname, ''res/ERC20Locker.full.abi'']), False),
     (''eth-locker-bin-path'',
      ''Path to the .bin file defining Ethereum locker contract.'',
      JStr (path_join [LIBS_TC_SRC_DIR dirname, ''res/ERC20Locker.full.bin'']), False),
     (''eth-erc20-address'',
      ''ETH address of the ERC20 contract.'', JUndefined, False),
     (''eth-erc20-abi-path'',
      ''Path to the .abi file defining Ethereum ERC20 contract.'',
      JStr (path_join [LIBS_TC_SRC_DIR dirname, ''res/TToken.full.abi'']), False),
     (''eth-erc20-bin-path'',
      ''Path to the .bin file defining Ethereum ERC20 contract.'',
      JStr (path_join [LIBS_TC_SRC_DIR dirname, ''res/TToken.full.bin'']), False),
     (''eth-ed25519-address'',
      ''ETH address of the ED25519 contract.'', JUndefined, False),
     (''eth-ed25519-artifact-path'',
      ''Path to the artifact file defining Ethereum ED25519 contract.'',
      JStr (path_join [LIBS_SOL_SRC_DIR dirname, ''nearbridge/artifacts/contracts/Ed25519.sol/Ed25519.json'']), False),
     (''eth-client-lock-eth-amount'',
      ''Amount of Ether that should be temporarily locked when submitting a new header to EthClient, in wei.'',
      JStr ''100000000000000000000'', False),
     (''eth-client-lock-duration'',
      ''The challenge window during which anyone can challenge an incorrect ED25519 signature of the Near block, in EthClient, in seconds.'',
      JInt 14400, False),
     (''eth-client-replace-duration'',
      ''Minimum time difference required to replace a block during challenge period, in EthClient, in seconds.'', JInt 18000, False),
     (''eth-client-address'',
      ''ETH address of the EthClient contract.'', JUndefined, False),
     (''eth-client-artifact-path'',
      ''Path to the artifact file defining Ethereum Client contract.'',
      JStr (path_join [LIBS_SOL_SRC_DIR dirname, ''nearbridge/artifacts/contracts/NearBridge.sol/NearBridge.json'']), False),
     (''eth-admin-address'',
      ''ETH address of the administrator for locker contract. It is used for upgradeability purposes. If empty, used address of eth-master-sk.'',
      JUndefined, False),
     (''monitor-accounts-path'',
      ''Path to all accounts on NEAR and Ethereum side to monitor. Ignored if not specified.'', JStr '''', False),
     (''eth-prover-address'',
      ''ETH address of the EthProver contract.'', JUndefined, False),
     (''eth-prover-artifact-path'',
      ''Path to the artifact file defining Ethereum Prover contract.'',
      JStr (path_join [LIBS_SOL_SRC_DIR dirname, ''nearprover/artifacts/contracts/NearProver.sol/NearProver.json'']), False),
     (''near2eth-relay-min-delay'',
      ''Minimum number of seconds to wait if the relay can't submit a block right away.'', JStr ''1'', False),
     (''near2eth-relay-max-delay'',
      ''Maximum number of seconds to wait if the relay can't submit a block right away.'', JStr ''600'', False),
     (''near2eth-relay-error-delay'',
      ''Number of seconds to wait before retrying if there is an error.'', JStr ''1'', False),
     (''watchdog-delay'',
      ''Number of seconds to wait after validating all signatures.'', JStr ''300'', False),
     (''watchdog-error-delay'',
      ''Number of seconds to wait before retrying if there is an error.'', JStr ''1'', False),
     (''near-erc20-account'',
      ''Must be declared before set'', JUndefined, False),
     (''total-submit-block'',
      ''Number of blocks to submit on each batch update from Ethereum to NEAR'', JInt 4, False),
     (''gas-per-transaction'',
      ''Maximum gas per transaction add_block_header'', JStr ''72000000000000'', False),
     (''archival'',
      ''Start Near node in archival mode (no garbage collection)'', JStr ''false'', False)]"

section \<open>Commands\<close>

record cli_command =
  cmd_path :: "string list"
  cmd_given :: "string list"
  cmd_own :: "string list"
  cmd_options :: "string list"
  cmd_reads :: "string list"

definition service_commands :: "cli_command list" where
  "service_commands = [
     \<lparr>cmd_path = [''prepare''], cmd_given = [], cmd_own = [],
      cmd_options = [''core-src''],
      cmd_reads = [''coreSrc'']\<rparr>,
     \<lparr>cmd_path = [''status''], cmd_given = [], cmd_own = [],
      cmd_options = [''near-network-id'', ''near-node-url'', ''near-master-account'', ''near-master-sk'', ''near-client-account'',
        ''near-client-sk'', ''near-prover-account'', ''near-prover-sk'', ''eth-node-url'', ''eth-master-sk''],
      cmd_reads = [''nearNetworkId'', ''nearNodeUrl'', ''nearMasterAccount'', ''nearMasterSk'', ''nearClientAccount'',
        ''nearClientSk'', ''nearProverAccount'', ''nearProverSk'', ''ethNodeUrl'', ''ethMasterSk'']\<rparr>,
     \<lparr>cmd_path = [''start'', ''near-node''], cmd_given = [], cmd_own = [],
      cmd_options = [''archival''],
      cmd_reads = [''archival'']\<rparr>,
     \<lparr>cmd_path = [''start'', ''ganache''], cmd_given = [], cmd_own = [],
      cmd_options = [],
      cmd_reads = []\<rparr>,
     \<lparr>cmd_path = [''start'', ''eth2near-relay''], cmd_given = [], cmd_own = [],
      cmd_options = [''near-master-account'', ''near-master-sk'', ''near-client-account'', ''near-network-id'', ''near-node-url'',
        ''eth-node-url'', ''total-submit-block'', ''gas-per-transaction'', ''daemon'', ''metrics-port''],
      cmd_reads = [''daemon'', ''nearNetworkId'', ''nearNodeUrl'', ''nearMasterAccount'', ''nearMasterSk'',
        ''nearClientAccount'', ''totalSubmitBlock'', ''gasPerTransaction'', ''ethNodeUrl'', ''metricsPort'']\<rparr>,
     \<lparr>cmd_path = [''start'', ''near2eth-relay''], cmd_given = [], cmd_own = [],
      cmd_options = [''eth-node-url'', ''eth-master-sk'', ''near-node-url'', ''near-network-id'', ''eth-client-artifact-path'',
        ''eth-client-address'', ''near2eth-relay-min-delay'', ''near2eth-relay-max-delay'',
        ''near2eth-relay-error-delay'', ''eth-gas-multiplier'', ''daemon'', ''metrics-port''],
      cmd_reads = [''daemon'', ''nearNodeUrl'', ''nearNetworkId'', ''ethNodeUrl'', ''ethMasterSk'', ''ethClientArtifactPath'',
        ''ethClientAddress'', ''ethGasMultiplier'', ''near2ethRelayMinDelay'', ''near2ethRelayMaxDelay'',
        ''near2ethRelayErrorDelay'', ''metricsPort'']\<rparr>,
     \<lparr>cmd_path = [''start'', ''bridge-watchdog''], cmd_given = [], cmd_own = [],
      cmd_options = [''eth-node-url'', ''eth-master-sk'', ''eth-client-artifact-path'', ''eth-client-address'',
        ''watchdog-delay'', ''watchdog-error-delay'', ''daemon'', ''metrics-port''],
      cmd_reads = [''daemon'', ''ethNodeUrl'', ''ethMasterSk'', ''ethClientArtifactPath'', ''ethClientAddress'',
        ''watchdogDelay'', ''watchdogErrorDelay'', ''metricsPort'']\<rparr>,
     \<lparr>cmd_path = [''start'', ''address-watcher''], cmd_given = [], cmd_own = [],
      cmd_options = [''eth-node-url'', ''near-node-url'', ''near-network-id'', ''eth-master-sk'', ''near-client-account'',
        ''near-master-account'', ''monitor-accounts-path'', ''daemon'', ''metrics-port''],
      cmd_reads = [''ethNodeUrl'', ''nearNodeUrl'', ''nearNetworkId'', ''ethMasterSk'', ''nearClientAccount'',
        ''nearMasterAccount'', ''monitorAccountsPath'', ''daemon'', ''metricsPort'']\<rparr>,
     \<lparr>cmd_path = [''stop'', ''all''], cmd_given = [], cmd_own = [],
      cmd_options = [],
      cmd_reads = []\<rparr>,
     \<lparr>cmd_path = [''stop'', ''near-node''], cmd_given = [], cmd_own = [],
      cmd_options = [],
      cmd_reads = []\<rparr>,
     \<lparr>cmd_path = [''stop'', ''ganache''], cmd_given = [], cmd_own = [],
      cmd_options = [],
      cmd_reads = []\<rparr>,
     \<lparr>cmd_path = [''stop'', ''eth2near-relay''], cmd_given = [], cmd_own = [],
      cmd_options = [],
      cmd_reads = []\<rparr>,
     \<lparr>cmd_path = [''stop'', ''near2eth-relay''], cmd_given = [], cmd_own = [],
      cmd_options = [],
      cmd_reads = []\<rparr>,
     \<lparr>cmd_path = [''stop'', ''bridge-watchdog''], cmd_given = [], cmd_own = [],
      cmd_options = [],
      cmd_reads = []\<rparr>]"

definition setup_commands :: "cli_command list" where
  "setup_commands = [
     \<lparr>cmd_path = [''init-near-contracts''], cmd_given = [], cmd_own = [],
      cmd_options = [''near-network-id'', ''near-node-url'', ''eth-node-url'', ''near-master-account'', ''near-master-sk'',
        ''near-client-account'', ''near-client-sk'', ''near-client-contract-path'', ''near-client-init-balance'',
        ''near-client-validate-ethash'', ''near-client-trusted-signer'', ''hashes-gc-threshold'',
        ''finalized-gc-threshold'', ''num-confirmations'', ''near-prover-account'', ''near-prover-sk'',
        ''near-prover-contract-path'', ''near-prover-init-balance''],
      cmd_reads = [''nearMasterAccount'', ''nearMasterSk'', ''nearClientAccount'', ''nearClientSk'', ''nearClientContractPath'',
        ''nearClientInitBalance'', ''hashesGcThreshold'', ''finalizedGcThreshold'', ''numConfirmations'',
        ''nearProverAccount'', ''nearProverSk'', ''nearProverContractPath'', ''nearProverInitBalance'',
        ''nearNodeUrl'', ''nearNetworkId'', ''nearClientValidateEthash'', ''nearClientTrustedSigner'', ''ethNodeUrl'']\<rparr>,
     \<lparr>cmd_path = [''init-eth-ed25519''], cmd_given = [], cmd_own = [],
      cmd_options = [''eth-node-url'', ''eth-master-sk'', ''eth-ed25519-artifact-path'', ''eth-gas-multiplier''],
      cmd_reads = [''ethNodeUrl'', ''ethMasterSk'', ''ethEd25519ArtifactPath'', ''ethGasMultiplier'']\<rparr>,
     \<lparr>cmd_path = [''init-eth-client''], cmd_given = [], cmd_own = [],
      cmd_options = [''eth-node-url'', ''eth-master-sk'', ''eth-client-artifact-path'', ''eth-admin-address'',
        ''eth-ed25519-address'', ''eth-client-lock-eth-amount'', ''eth-client-lock-duration'',
        ''eth-client-replace-duration'', ''eth-gas-multiplier''],
      cmd_reads = [''ethNodeUrl'', ''ethMasterSk'', ''ethClientLockEthAmount'', ''ethClientLockDuration'',
        ''ethClientReplaceDuration'', ''ethEd25519Address'', ''ethClientArtifactPath'', ''ethAdminAddress'',
        ''ethGasMultiplier'']\<rparr>,
     \<lparr>cmd_path = [''init-eth-prover''], cmd_given = [], cmd_own = [],
      cmd_options = [''eth-node-url'', ''eth-master-sk'', ''eth-prover-artifact-path'', ''eth-admin-address'',
        ''eth-client-address'', ''eth-gas-multiplier''],
      cmd_reads = [''ethNodeUrl'', ''ethMasterSk'', ''ethClientAddress'', ''ethProverArtifactPath'', ''ethAdminAddress'',
        ''ethGasMultiplier'']\<rparr>]"

definition token_commands :: "cli_command list" where
  "token_commands = [
     \<lparr>cmd_path = [''init-near-token-factory''], cmd_given = [], cmd_own = [],
      cmd_options = [''near-node-url'', ''near-network-id'', ''near-master-account'', ''near-master-sk'', ''near-prover-account'',
        ''near-token-factory-account'', ''near-token-factory-sk'', ''near-token-factory-contract-path'',
        ''near-token-factory-init-balance'', ''eth-locker-address'', ''eth-erc20-address''],
      cmd_reads = [''nearMasterAccount'', ''nearMasterSk'', ''nearTokenFactoryAccount'', ''nearTokenFactorySk'',
        ''nearTokenFactoryContractPath'', ''nearTokenFactoryInitBalance'', ''nearProverAccount'', ''nearNodeUrl'',
        ''nearNetworkId'', ''ethLockerAddress'', ''ethErc20Address'']\<rparr>,
     \<lparr>cmd_path = [''deploy-token''], cmd_given = [''tokenName'', ''ethTokenAddress''], cmd_own = [],
      cmd_options = [''near-node-url'', ''near-network-id'', ''near-master-account'', ''near-master-sk'',
        ''near-token-factory-account'', ''near-token-factory-sk''],
      cmd_reads = [''tokenName'', ''ethTokenAddress'', ''nearNodeUrl'', ''nearNetworkId'', ''nearMasterAccount'',
        ''nearMasterSk'', ''nearTokenFactoryAccount'', ''nearTokenFactorySk'']\<rparr>,
     \<lparr>cmd_path = [''init-eth-locker''], cmd_given = [], cmd_own = [],
      cmd_options = [''near-token-factory-account'', ''eth-node-url'', ''eth-master-sk'', ''eth-locker-abi-path'',
        ''eth-locker-bin-path'', ''eth-admin-address'', ''eth-prover-address'', ''eth-gas-multiplier''],
      cmd_reads = [''ethNodeUrl'', ''ethMasterSk'', ''nearTokenFactoryAccount'', ''ethProverAddress'', ''ethLockerAbiPath'',
        ''ethLockerBinPath'', ''ethAdminAddress'', ''ethGasMultiplier'']\<rparr>,
     \<lparr>cmd_path = [''init-eth-erc20''], cmd_given = [], cmd_own = [],
      cmd_options = [''eth-node-url'', ''eth-master-sk'', ''eth-erc20-abi-path'', ''eth-erc20-bin-path'', ''eth-gas-multiplier''],
      cmd_reads = [''ethNodeUrl'', ''ethMasterSk'', ''ethErc20AbiPath'', ''ethErc20BinPath'', ''ethGasMultiplier'']\<rparr>,
     \<lparr>cmd_path = [''eth-to-near-find-proof''], cmd_given = [''lockedEventRaw''], cmd_own = [],
      cmd_options = [''eth-node-url''],
      cmd_reads = [''lockedEventRaw'', ''ethNodeUrl'']\<rparr>]"

definition transfer_commands :: "cli_command list" where
  "transfer_commands = [
     \<lparr>cmd_path = [''TESTING'', ''transfer-eth-erc20-to-near''], cmd_given = [],
      cmd_own = [''amount'', ''eth-sender-sk'', ''near-receiver-account'', ''token-name''],
      cmd_options = [''eth-erc20-address'', ''near-erc20-account'', ''eth-node-url'', ''eth-erc20-abi-path'',
        ''eth-locker-address'', ''eth-locker-abi-path'', ''near-node-url'', ''near-network-id'',
        ''near-token-factory-account'', ''near-client-account'', ''near-master-account'', ''near-master-sk''],
      cmd_reads = [''amount'', ''ethSenderSk'', ''nearReceiverAccount'', ''nearMasterAccount'', ''nearNetworkId'',
        ''nearNodeUrl'', ''nearMasterSk'', ''nearTokenFactoryAccount'', ''nearClientAccount'', ''nearErc20Account'',
        ''ethNodeUrl'', ''ethErc20AbiPath'', ''ethErc20Address'', ''ethLockerAbiPath'', ''ethLockerAddress'']\<rparr>,
     \<lparr>cmd_path = [''TESTING'', ''transfer-eth-erc20-from-near''], cmd_given = [],
      cmd_own = [''amount'', ''near-sender-account'', ''near-sender-sk'', ''eth-receiver-address'', ''token-name''],
      cmd_options = [''eth-erc20-address'', ''near-erc20-account'', ''near-node-url'', ''near-network-id'',
        ''near-token-factory-account'', ''eth-node-url'', ''eth-master-sk'', ''eth-erc20-abi-path'',
        ''eth-locker-address'', ''eth-locker-abi-path'', ''eth-client-artifact-path'', ''eth-client-address'',
        ''eth-prover-artifact-path'', ''eth-prover-address'', ''eth-gas-multiplier''],
      cmd_reads = [''amount'', ''nearSenderAccount'', ''ethReceiverAddress'', ''nearNetworkId'', ''nearNodeUrl'',
        ''nearSenderSk'', ''nearErc20Account'', ''ethNodeUrl'', ''ethMasterSk'', ''ethClientArtifactPath'',
        ''ethClientAddress'', ''ethProverArtifactPath'', ''ethProverAddress'', ''ethLockerAbiPath'',
        ''ethLockerAddress'', ''ethErc20AbiPath'', ''ethErc20Address'', ''ethGasMultiplier'']\<rparr>]"

definition adapter_commands :: "cli_command list" where
  "adapter_commands = [
     \<lparr>cmd_path = [''TESTING'', ''mint-erc20-tokens''], cmd_given = [''ethAccountAddress'', ''amount''], cmd_own = [],
      cmd_options = [''eth-node-url'', ''eth-erc20-address'', ''eth-erc20-abi-path''],
      cmd_reads = [''ethAccountAddress'', ''amount'', ''ethNodeUrl'', ''ethErc20Address'', ''ethErc20AbiPath'']\<rparr>,
     \<lparr>cmd_path = [''TESTING'', ''get-account-address''], cmd_given = [''ethSecretKey''], cmd_own = [],
      cmd_options = [''eth-node-url''],
      cmd_reads = [''ethSecretKey'', ''ethNodeUrl'']\<rparr>,
     \<lparr>cmd_path = [''TESTING'', ''get-erc20-balance''], cmd_given = [''ethAccountAddress''], cmd_own = [],
      cmd_options = [''eth-node-url'', ''eth-erc20-address'', ''eth-erc20-abi-path''],
      cmd_reads = [''ethAccountAddress'', ''ethNodeUrl'', ''ethErc20Address'', ''ethErc20AbiPath'']\<rparr>,
     \<lparr>cmd_path = [''TESTING'', ''get-bridge-on-near-balance''], cmd_given = [], cmd_own = [''near-receiver-account''],
      cmd_options = [''near-erc20-account'', ''near-network-id'', ''near-node-url''],
      cmd_reads = [''nearReceiverAccount'', ''nearErc20Account'', ''nearNetworkId'', ''nearNodeUrl'']\<rparr>,
     \<lparr>cmd_path = [''TESTING'', ''get-client-block-height-hash''], cmd_given = [], cmd_own = [],
      cmd_options = [''eth-node-url'', ''eth-master-sk'', ''eth-client-artifact-path'', ''eth-client-address''],
      cmd_reads = [''ethNodeUrl'', ''ethClientAddress'', ''ethClientArtifactPath'', ''ethMasterAccount'']\<rparr>,
     \<lparr>cmd_path = [''TESTING'', ''eth-to-near-approve''], cmd_given = [''ethAccountAddress'', ''amount''], cmd_own = [],
      cmd_options = [''eth-node-url'', ''eth-erc20-address'', ''eth-erc20-abi-path'', ''eth-locker-address''],
      cmd_reads = [''ethAccountAddress'', ''amount'', ''ethNodeUrl'', ''ethErc20Address'', ''ethErc20AbiPath'',
        ''ethLockerAddress'']\<rparr>,
     \<lparr>cmd_path = [''TESTING'', ''eth-to-near-lock''], cmd_given = [''ethAccountAddress'', ''nearAccountName'', ''amount''],
      cmd_own = [],
      cmd_options = [''eth-node-url'', ''eth-erc20-address'', ''eth-locker-abi-path'', ''eth-locker-address''],
      cmd_reads = [''ethAccountAddress'', ''amount'', ''nearAccountName'', ''ethNodeUrl'', ''ethErc20Address'',
        ''ethLockerAbiPath'', ''ethLockerAddress'']\<rparr>,
     \<lparr>cmd_path = [''TESTING'', ''near-to-eth-unlock''], cmd_given = [''blockHeight'', ''proof''], cmd_own = [],
      cmd_options = [''eth-node-url'', ''eth-master-sk'', ''eth-locker-abi-path'', ''eth-locker-address'', ''eth-gas-multiplier''],
      cmd_reads = [''blockHeight'', ''proof'', ''ethNodeUrl'', ''ethMasterSk'', ''ethLockerAddress'', ''ethLockerAbiPath'',
        ''ethGasMultiplier'']\<rparr>]"

definition other_commands :: "cli_command list" where
  "other_commands = [
     \<lparr>cmd_path = [''DANGER'', ''submit_invalid_near_block''], cmd_given = [], cmd_own = [],
      cmd_options = [''eth-node-url'', ''eth-master-sk'', ''near-node-url'', ''near-network-id'', ''eth-client-artifact-path'',
        ''eth-client-address'', ''near2eth-relay-min-delay'', ''near2eth-relay-max-delay'',
        ''near2eth-relay-error-delay'', ''eth-gas-multiplier''],
      cmd_reads = [''nearNodeUrl'', ''nearNetworkId'', ''ethNodeUrl'', ''ethMasterSk'', ''ethClientArtifactPath'',
        ''ethClientAddress'', ''ethGasMultiplier'', ''near2ethRelayMinDelay'', ''near2ethRelayMaxDelay'',
        ''near2ethRelayErrorDelay'']\<rparr>,
     \<lparr>cmd_path = [''DANGER'', ''deploy_test_erc20''], cmd_given = [], cmd_own = [],
      cmd_options = [''eth-node-url'', ''eth-master-sk'', ''eth-erc20-abi-path'', ''eth-gas-multiplier''],
      cmd_reads = [''ethNodeUrl'', ''ethMasterSk'', ''ethErc20AbiPath'', ''ethGasMultiplier'']\<rparr>,
     \<lparr>cmd_path = [''eth-dump''], cmd_given = [''kindOfData''], cmd_own = [''path'', ''start-block'', ''end-block''],
      cmd_options = [''eth-node-url''],
      cmd_reads = [''kindOfData'', ''path'', ''startBlock'', ''endBlock'', ''ethNodeUrl'']\<rparr>,
     \<lparr>cmd_path = [''near-dump''], cmd_given = [''kindOfData''], cmd_own = [''path'', ''num-blocks''],
      cmd_options = [''near-node-url''],
      cmd_reads = [''kindOfData'', ''path'', ''numBlocks'', ''nearNodeUrl'']\<rparr>]"

definition cli_commands :: "cli_command list" where
  "cli_commands = service_commands @ setup_commands @ token_commands @ transfer_commands @ adapter_commands @ other_commands"

section \<open>Start of the program\<close>

definition declare_all :: "(string \<times> string \<times> js_value \<times> bool) list \<Rightarrow> config \<Rightarrow> config" where
  "declare_all ds s = foldl (\<lambda>t (name, description, defaultValue, noConfig). declareOption name description defaultValue noConfig t) s ds"

definition cli_config :: "string \<Rightarrow> (string \<Rightarrow> js_value option) \<Rightarrow> config" where
  "cli_config dirname file = declare_all (general_options dirname @ user_options dirname)
     \<lparr>paramValues = [], paramDeclarations = [], configFile = file\<rparr>"

text \<open>The options each command registers, in order; an undeclared option would end the program with a TypeError.\<close>

definition cli_setup :: "case_lib \<Rightarrow> string \<Rightarrow> (string \<Rightarrow> js_value option) \<Rightarrow> (string list \<times> (string \<times> string \<times> js_value) list) list res" where
  "cli_setup C dirname file = res_list (map (\<lambda>c.
     res_bind (addOptions C (cli_config dirname file) (cmd_options c)) (\<lambda>options. Inr (cmd_path c, options))) cli_commands)"

section \<open>Declarations\<close>

definition decl_of :: "string \<times> string \<times> js_value \<times> bool \<Rightarrow> string \<times> option_decl" where
  "decl_of d = (case d of (name, description, defaultValue, noConfig) \<Rightarrow> (name, \<lparr>dcl_description = description,
     dcl_defaultValue = (if defaultValue = JUndefined then JStr '''' else defaultValue), dcl_noConfig = noConfig\<rparr>))"

lemma declare_all_declarations:
  "map_of (paramDeclarations (declare_all ds s)) = map_of (paramDeclarations s) ++ map_of (rev (map decl_of ds))"
  by (induction ds arbitrary: s rule: rev_induct) (auto simp: declare_all_def declareOption_def decl_of_def fun_eq_iff map_add_def split: option.splits)

lemma declare_all_rest [simp]:
  "paramValues (declare_all ds s) = paramValues s" "configFile (declare_all ds s) = configFile s"
  by (induction ds arbitrary: s rule: rev_induct) (auto simp: declare_all_def declareOption_def)

lemma declare_all_ok: "config_ok s \<Longrightarrow> config_ok (declare_all ds s)"
  by (induction ds arbitrary: s rule: rev_induct) (auto simp: declare_all_def declareOption_ok)

lemma cli_config_ok: "config_ok (cli_config dirname file)"
  unfolding cli_config_def by (rule declare_all_ok) (simp add: config_ok_def)

lemma map_of_rev_distinct: "distinct (map fst xs) \<Longrightarrow> map_of (rev xs) = map_of xs"
  by (rule map_of_eqI) (auto simp: rev_map [symmetric] map_of_eq_Some_iff)

definition option_names :: "string list" where
  "option_names = [''near-network-id'', ''near-node-url'', ''eth-node-url'', ''near-master-account'', ''near-master-sk'',
     ''eth-master-sk'', ''near-client-account'', ''near-client-sk'', ''near-client-contract-path'',
     ''near-client-init-balance'', ''near-client-validate-ethash'', ''hashes-gc-threshold'', ''finalized-gc-threshold'',
     ''num-confirmations'', ''near-client-trusted-signer'', ''near-prover-account'', ''near-prover-sk'',
     ''near-prover-contract-path'', ''near-prover-init-balance'', ''daemon'', ''core-src'', ''eth-gas-multiplier'',
     ''metrics-port'', ''near-token-factory-account'', ''near-token-factory-sk'', ''near-token-factory-contract-path'',
     ''near-token-factory-init-balance'', ''eth-locker-address'', ''eth-locker-abi-path'', ''eth-locker-bin-path'',
     ''eth-erc20-address'', ''eth-erc20-abi-path'', ''eth-erc20-bin-path'', ''eth-ed25519-address'',
     ''eth-ed25519-artifact-path'', ''eth-client-lock-eth-amount'', ''eth-client-lock-duration'',
     ''eth-client-replace-duration'', ''eth-client-address'', ''eth-client-artifact-path'', ''eth-admin-address'',
     ''monitor-accounts-path'', ''eth-prover-address'', ''eth-prover-artifact-path'', ''near2eth-relay-min-delay'',
     ''near2eth-relay-max-delay'', ''near2eth-relay-error-delay'', ''watchdog-delay'', ''watchdog-error-delay'',
     ''near-erc20-account'', ''total-submit-block'', ''gas-per-transaction'', ''archival'']"

lemma declared_names: "map fst (general_options dirname @ user_options dirname) = option_names"
  by (simp add: general_options_def user_options_def option_names_def)

lemma option_names_distinct: "distinct option_names"
  by code_simp

lemma command_options_known: "list_all (\<lambda>c. list_all (\<lambda>name. List.member option_names name) (cmd_options c)) cli_commands"
  by code_simp

section \<open>Every command is wired to its handler\<close>

text \<open>The names of options: lower-case words with digits, joined by dashes, and their spelling in camel case.\<close>

definition word_char :: "char \<Rightarrow> bool" where
  "word_char c = List.member ''abcdefghijklmnopqrstuvwxyz0123456789'' c"

definition dashed :: "string \<Rightarrow> bool" where
  "dashed name = list_all (\<lambda>w. w \<noteq> '''' \<and> list_all word_char w) (split_char (CHR ''-'') name)"

fun capitalize :: "string \<Rightarrow> string" where
  "capitalize [] = []"
| "capitalize (c # cs) = (case map_of (zip ''abcdefghijklmnopqrstuvwxyz'' ''ABCDEFGHIJKLMNOPQRSTUVWXYZ'') c of None \<Rightarrow> c | Some d \<Rightarrow> d) # cs"

definition camel :: "string \<Rightarrow> string" where
  "camel name = (case split_char (CHR ''-'') name of [] \<Rightarrow> [] | w # ws \<Rightarrow> w @ concat (map capitalize ws))"

definition supplied :: "cli_command \<Rightarrow> string list" where
  "supplied c = cmd_given c @ map camel (cmd_own c @ cmd_options c)"

definition wired :: "cli_command \<Rightarrow> bool" where
  "wired c = (let attrs = supplied c in list_all (\<lambda>p. List.member attrs p) (cmd_reads c))"

lemma names_dashed: "list_all (\<lambda>c. list_all dashed (cmd_own c)) cli_commands" "list_all dashed option_names"
  by code_simp+

lemma most_commands_wired: "list_all wired service_commands" "list_all wired setup_commands" "list_all wired token_commands"
    "list_all wired transfer_commands" "list_all wired other_commands"
  by code_simp+

lemma adapter_commands_wired:
  "list_all (\<lambda>c. wired (c\<lparr>cmd_reads := removeAll ''ethMasterAccount'' (cmd_reads c)\<rparr>)) adapter_commands"
  by code_simp

lemma ethMasterAccount_reader:
  "list_all (\<lambda>c. \<not> List.member (cmd_reads c) ''ethMasterAccount'' \<or> cmd_path c = [''TESTING'', ''get-client-block-height-hash'']) cli_commands"
  by code_simp

lemma command_wired:
  assumes "c \<in> set cli_commands" "p \<in> set (cmd_reads c)"
  shows "p \<in> set (supplied c) \<or> cmd_path c = [''TESTING'', ''get-client-block-height-hash''] \<and> p = ''ethMasterAccount''"
proof (cases "p = ''ethMasterAccount''")
  case True
  then show ?thesis
    using ethMasterAccount_reader assms by (fastforce simp: list_all_iff)
next
  case False
  have "wired c \<or> wired (c\<lparr>cmd_reads := removeAll ''ethMasterAccount'' (cmd_reads c)\<rparr>)"
    using assms(1) most_commands_wired adapter_commands_wired
    by (auto simp: cli_commands_def list_all_iff)
  then show ?thesis
    using assms(2) False by (auto simp: wired_def supplied_def Let_def list_all_iff)
qed

lemma addOptions_declared:
  assumes "\<forall>name\<in>set names. map_of (paramDeclarations s) name = Some (d name)"
  shows "addOptions C s names = Inr (map (\<lambda>name. (''--'' @ paramCase C name @ '' <'' @ snakeCase C name @ ''>'',
    dcl_description (d name), option_default C s name (d name))) names)"
  using assms by (induction names) auto

text \<open>
  What an option is registered with: the value in the configuration file is its default, and the declared default where the file has
  none; an omitted default is the empty string and \<^verbatim>\<open>null\<close> is no default.
\<close>

definition registered :: "case_lib \<Rightarrow> (string \<times> string \<times> js_value \<times> bool) list \<Rightarrow> (string \<Rightarrow> js_value option) \<Rightarrow> string
    \<Rightarrow> string \<times> string \<times> js_value" where
  "registered C ds file name = (case map_of ds name of
     None \<Rightarrow> (name, '''', JUndefined)
   | Some (description, v, noConfig) \<Rightarrow> (''--'' @ name @ '' <'' @ snakeCase C name @ ''>'', description,
       case file (camelCase C name) of
         Some w \<Rightarrow> if w = JNull then (if v = JNull then JUndefined else if v = JUndefined then JStr '''' else v) else w
       | None \<Rightarrow> if v = JNull then JUndefined else if v = JUndefined then JStr '''' else v))"

lemma map_of_decl_of: "map_of (map decl_of ds) name = map_option (\<lambda>(description, v, noConfig). \<lparr>dcl_description = description,
     dcl_defaultValue = (if v = JUndefined then JStr '''' else v), dcl_noConfig = noConfig\<rparr>) (map_of ds name)"
  by (induction ds) (auto simp: decl_of_def)

lemma cli_declarations:
  "map_of (paramDeclarations (cli_config dirname file)) = map_of (map decl_of (general_options dirname @ user_options dirname))"
proof -
  have "map fst (map decl_of ds) = map fst ds" for ds
    by (auto simp: decl_of_def)
  then have "distinct (map fst (map decl_of (general_options dirname @ user_options dirname)))"
    using option_names_distinct declared_names [of dirname] by metis
  from map_of_rev_distinct [OF this] show ?thesis
    by (simp add: cli_config_def declare_all_declarations del: map_append)
qed

lemma addOptions_registered:
  assumes "set names \<subseteq> set option_names" "\<forall>name. dashed name \<longrightarrow> paramCase C name = name"
  shows "addOptions C (cli_config dirname file) names
    = Inr (map (registered C (general_options dirname @ user_options dirname) file) names)"
proof -
  define ds where "ds = general_options dirname @ user_options dirname"
  define d where "d = (\<lambda>name. the (map_of (map decl_of ds) name))"
  have decls: "map_of (paramDeclarations (cli_config dirname file)) = map_of (map decl_of ds)"
    unfolding ds_def by (rule cli_declarations)
  have "set (map fst ds) = set option_names" using declared_names [of dirname] by (simp only: ds_def)
  then have known: "\<exists>x. map_of ds name = Some x" if "name \<in> set names" for name
    using that assms(1) by (metis map_of_eq_None_iff option.exhaust set_map subsetD)
  then have d: "map_of (paramDeclarations (cli_config dirname file)) name = Some (d name)" if "name \<in> set names" for name
    using that by (fastforce simp: decls d_def map_of_decl_of)
  then have "\<forall>name\<in>set names. map_of (paramDeclarations (cli_config dirname file)) name = Some (d name)" by blast
  note addOptions_declared [OF this, of C]
  moreover have "(''--'' @ paramCase C name @ '' <'' @ snakeCase C name @ ''>'', dcl_description (d name),
      option_default C (cli_config dirname file) name (d name)) = registered C ds file name" if mem: "name \<in> set names" for name
  proof -
    from known [OF mem] obtain description v noConfig where x: "map_of ds name = Some (description, v, noConfig)" by (metis prod_cases3)
    have "dashed name" using mem assms(1) names_dashed(2) by (auto simp: list_all_iff)
    then have pc: "paramCase C name = name" using assms(2) by blast
    have conf: "paramValues (cli_config dirname file) = []" "configFile (cli_config dirname file) = file"
      by (simp_all add: cli_config_def)
    have "d name = \<lparr>dcl_description = description, dcl_defaultValue = (if v = JUndefined then JStr '''' else v), dcl_noConfig = noConfig\<rparr>"
      using x by (simp add: d_def map_of_decl_of)
    then show ?thesis
      using x d [OF mem] by (simp add: registered_def option_default_def maybeGetParam_def pc conf Let_def split: option.splits)
  qed
  ultimately show ?thesis by (simp add: ds_def [symmetric])
qed



end
