(* ===== verification/Cli_Services.thy ===== *)
theory Cli_Services
  imports Cli_Options
begin

text \<open>
  The services that the command line tool starts and stops: \<^verbatim>\<open>cli/commands/start/*.js\<close> and \<^verbatim>\<open>cli/commands/stop/process.js\<close>. A service is
  started as a daemon of the process manager pm2, which runs the same command again with \<^verbatim>\<open>--daemon false\<close> and the
  options of the first run, or it runs in the process itself.

  The parameter \<open>a\<close> is the parsed command, whose properties are the options. pm2 and commander are packages: what pm2 answers to
  \<^verbatim>\<open>connect\<close> and \<^verbatim>\<open>describe\<close> is given by arguments, and commander is the parameter \<open>parse\<close>, which takes the words of a command
  line apart into options and values.
\<close>

section \<open>Starting\<close>

text \<open>
  An argument of the child is a fixed word or the value of a property of the command; \<open>sv_uses\<close> are the properties that are handed to the
  objects of the service when it runs in the process.
\<close>

datatype arg_word = Lit string | PropOf string

record service =
  sv_name :: string
  sv_path :: "string list"
  sv_logs :: string
  sv_args :: "(string \<times> arg_word) list"
  sv_wait_ready :: bool
  sv_uses :: "string list"

definition eth2near_relay_service :: service where
  "eth2near_relay_service = \<lparr>sv_name = ''eth2near-relay'', sv_path = [''start'', ''eth2near-relay''], sv_logs = ''eth2near-relay'',
     sv_args = [(''near-network-id'', PropOf ''nearNetworkId''), (''near-node-url'', PropOf ''nearNodeUrl''),
       (''near-master-account'', PropOf ''nearMasterAccount''), (''near-master-sk'', PropOf ''nearMasterSk''),
       (''near-client-account'', PropOf ''nearClientAccount''), (''eth-node-url'', PropOf ''ethNodeUrl''),
       (''total-submit-block'', PropOf ''totalSubmitBlock''), (''gas-per-transaction'', PropOf ''gasPerTransaction''),
       (''daemon'', Lit ''false''), (''metrics-port'', PropOf ''metricsPort'')],
     sv_wait_ready = True,
     sv_uses = [''nearNetworkId'', ''nearMasterAccount'', ''nearMasterSk'', ''nearNodeUrl'', ''nearClientAccount'',
       ''ethNodeUrl'', ''totalSubmitBlock'', ''gasPerTransaction'', ''metricsPort'']\<rparr>"

definition near2eth_relay_service :: service where
  "near2eth_relay_service = \<lparr>sv_name = ''near2eth-relay'', sv_path = [''start'', ''near2eth-relay''], sv_logs = ''near2eth-relay'',
     sv_args = [(''near-node-url'', PropOf ''nearNodeUrl''), (''near-network-id'', PropOf ''nearNetworkId''),
       (''eth-node-url'', PropOf ''ethNodeUrl''), (''eth-master-sk'', PropOf ''ethMasterSk''),
       (''eth-client-artifact-path'', PropOf ''ethClientArtifactPath''), (''eth-client-address'', PropOf ''ethClientAddress''),
       (''eth-gas-multiplier'', PropOf ''ethGasMultiplier''), (''near2eth-relay-min-delay'', PropOf ''near2ethRelayMinDelay''),
       (''near2eth-relay-max-delay'', PropOf ''near2ethRelayMaxDelay''), (''near2eth-relay-error-delay'', PropOf ''near2ethRelayErrorDelay''),
       (''daemon'', Lit ''false''), (''metrics-port'', PropOf ''metricsPort'')],
     sv_wait_ready = True,
     sv_uses = [''nearNodeUrl'', ''nearNetworkId'', ''ethNodeUrl'', ''ethMasterSk'', ''ethClientArtifactPath'',
       ''ethClientAddress'', ''ethGasMultiplier'', ''metricsPort'', ''near2ethRelayMinDelay'', ''near2ethRelayMaxDelay'', ''near2ethRelayErrorDelay'']\<rparr>"

definition watchdog_service :: service where
  "watchdog_service = \<lparr>sv_name = ''bridge-watchdog'', sv_path = [''start'', ''bridge-watchdog''], sv_logs = ''watchdog'',
     sv_args = [(''eth-node-url'', PropOf ''ethNodeUrl''), (''eth-master-sk'', PropOf ''ethMasterSk''),
       (''eth-client-artifact-path'', PropOf ''ethClientArtifactPath''), (''eth-client-address'', PropOf ''ethClientAddress''),
       (''watchdog-delay'', PropOf ''watchdogDelay''), (''watchdog-error-delay'', PropOf ''watchdogErrorDelay''),
       (''daemon'', Lit ''false''), (''metrics-port'', PropOf ''metricsPort'')],
     sv_wait_ready = False,
     sv_uses = [''ethNodeUrl'', ''ethMasterSk'', ''ethClientArtifactPath'', ''ethClientAddress'', ''metricsPort'',
       ''watchdogDelay'', ''watchdogErrorDelay'']\<rparr>"

definition address_watcher_service :: service where
  "address_watcher_service = \<lparr>sv_name = ''address-watcher'', sv_path = [''start'', ''address-watcher''], sv_logs = ''address-watcher'',
     sv_args = [(''eth-node-url'', PropOf ''ethNodeUrl''), (''near-node-url'', PropOf ''nearNodeUrl''),
       (''near-network-id'', PropOf ''nearNetworkId''), (''eth-master-sk'', PropOf ''ethMasterSk''),
       (''near-client-account'', PropOf ''nearClientAccount''), (''near-master-account'', PropOf ''nearMasterAccount''),
       (''monitor-accounts-path'', PropOf ''monitorAccountsPath''), (''daemon'', Lit ''false''),
       (''metrics-port'', PropOf ''metricsPort'')],
     sv_wait_ready = False,
     sv_uses = [''ethNodeUrl'', ''nearClientAccount'', ''nearMasterAccount'', ''ethMasterSk'', ''monitorAccountsPath'',
       ''nearNodeUrl'', ''nearNetworkId'', ''metricsPort'']\<rparr>"

definition services :: "service list" where
  "services = [eth2near_relay_service, near2eth_relay_service, watchdog_service, address_watcher_service]"

record pm2_config =
  pm_name :: string
  pm_script :: string
  pm_interpreter :: string
  pm_error_file :: string
  pm_out_file :: string
  pm_args :: "js_value list"
  pm_wait_ready :: bool

datatype service_effect =
    PmStart pm2_config
  | PmDisconnect
  | RunHere string "(string \<times> js_value) list"
  | PmDelete string
  | NearupStop

fun word_value :: "(string \<Rightarrow> js_value) \<Rightarrow> arg_word \<Rightarrow> js_value" where
  "word_value a (Lit s) = JStr s"
| "word_value a (PropOf p) = a p"

definition daemon_config :: "string \<Rightarrow> service \<Rightarrow> (string \<Rightarrow> js_value) \<Rightarrow> pm2_config" where
  "daemon_config dirname sv a = \<lparr>pm_name = sv_name sv, pm_script = path_join [dirname, ''../../index.js''], pm_interpreter = ''node'',
     pm_error_file = ''~/.rainbow/logs/'' @ sv_logs sv @ ''/err.log'', pm_out_file = ''~/.rainbow/logs/'' @ sv_logs sv @ ''/out.log'',
     pm_args = map JStr (sv_path sv) @ concat (map (\<lambda>(name, w). [JStr (''--'' @ name), word_value a w]) (sv_args sv)),
     pm_wait_ready = sv_wait_ready sv\<rparr>"

text \<open>
  \<^verbatim>\<open>spawnProcess\<close>: \<open>described\<close> is the list of processes that pm2 reports, \<open>None\<close> if its callback gets an error and no list; the
  error is only logged and reading \<^verbatim>\<open>process.length\<close> is then a TypeError.
\<close>

definition spawnProcess :: "string list option \<Rightarrow> pm2_config \<Rightarrow> (service_effect, unit) run" where
  "spawnProcess described cfg = (case described of
     None \<Rightarrow> run_ask (Inl JsTypeError)
   | Some [] \<Rightarrow> ([PmStart cfg, PmDisconnect], Inr ())
   | Some _ \<Rightarrow> ([PmDisconnect], Inr ()))"

definition start_service :: "string \<Rightarrow> service \<Rightarrow> bool \<Rightarrow> string list option \<Rightarrow> (string \<Rightarrow> js_value) \<Rightarrow> (service_effect, unit) run" where
  "start_service dirname sv connected described a =
     (if a ''daemon'' = JStr ''true'' then (if \<not> connected then run_ret () else spawnProcess described (daemon_config dirname sv a))
      else run_do (RunHere (sv_name sv) (map (\<lambda>p. (p, a p)) (sv_uses sv))) (Inr ()))"

definition StartEth2NearRelayCommand :: "string \<Rightarrow> bool \<Rightarrow> string list option \<Rightarrow> (string \<Rightarrow> js_value) \<Rightarrow> (service_effect, unit) run" where
  "StartEth2NearRelayCommand dirname = start_service dirname eth2near_relay_service"

definition StartNear2EthRelayCommand :: "string \<Rightarrow> bool \<Rightarrow> string list option \<Rightarrow> (string \<Rightarrow> js_value) \<Rightarrow> (service_effect, unit) run" where
  "StartNear2EthRelayCommand dirname = start_service dirname near2eth_relay_service"

definition StartWatchdogCommand :: "string \<Rightarrow> bool \<Rightarrow> string list option \<Rightarrow> (string \<Rightarrow> js_value) \<Rightarrow> (service_effect, unit) run" where
  "StartWatchdogCommand dirname = start_service dirname watchdog_service"

definition AddressWatcherCommand :: "string \<Rightarrow> bool \<Rightarrow> string list option \<Rightarrow> (string \<Rightarrow> js_value) \<Rightarrow> (service_effect, unit) run" where
  "AddressWatcherCommand dirname = start_service dirname address_watcher_service"

section \<open>Stopping\<close>

text \<open>Errors of pm2 and nearup are logged and swallowed.\<close>

definition stop_near_node :: "(service_effect, unit) run" where
  "stop_near_node = ([NearupStop], Inr ())"

definition stop_one :: "string \<Rightarrow> (service_effect, unit) run" where
  "stop_one serviceName = ([PmDelete serviceName, PmDisconnect], Inr ())"

definition stopped_services :: "string list" where
  "stopped_services = [''ganache'', ''eth2near-relay'', ''near2eth-relay'', ''bridge-watchdog'']"

definition StopManagedProcessCommand :: "string \<Rightarrow> (service_effect, unit) run" where
  "StopManagedProcessCommand serviceName =
     (if serviceName = ''near-node'' then stop_near_node
      else if serviceName = ''all'' then run_bind stop_near_node (\<lambda>_. foldl (\<lambda>r name. run_bind r (\<lambda>_. stop_one name)) (run_ret ()) stopped_services)
      else stop_one serviceName)"

section \<open>The local nodes\<close>

text \<open>The values that the commands for local nodes store in the configuration.\<close>

definition ganache_values :: "(string \<times> js_value) list" where
  "ganache_values = [(''ethNodeUrl'', JStr ''http://localhost:9545''),
     (''ethMasterSk'', JStr ''0x2bdd21761a483f71054e14f5b827213567971c676928d9a1808cbfa4b7501200''),
     (''nearClientValidateEthash'', JStr ''false'')]"

definition near_node_values :: "(string \<times> js_value) list" where
  "near_node_values = [(''nearNodeUrl'', JStr ''http://localhost:3030''), (''nearNetworkId'', JStr ''local''),
     (''nearMasterAccount'', JStr ''node0''),
     (''nearMasterSk'', JStr ''ed25519:3D4YudUQRE39Lc4JHghuB5WM8kbgDDa34mnrEP5DdTApVH81af7e2dWgNPEaiQfdJnZq1CNPp5im4Rg5b733oiMP'')]"

section \<open>The child process\<close>

text \<open>
  The child runs the command of its arguments. What commander is documented to do with them: the words after the name of
  a command are taken apart into its options and their values, in order.
\<close>

type_synonym commander = "cli_command \<Rightarrow> js_value list \<Rightarrow> (string \<times> js_value) list res"

definition parse_law :: "commander \<Rightarrow> bool" where
  "parse_law parse \<longleftrightarrow> (\<forall>c pairs. (\<forall>(name, v)\<in>set pairs. name \<in> set (cmd_options c)) \<longrightarrow>
     parse c (map JStr (cmd_path c) @ concat (map (\<lambda>(name, v). [JStr (''--'' @ name), JStr v]) pairs))
       = Inr (map (\<lambda>(name, v). (name, JStr v)) pairs))"

text \<open>Each option that is given is processed by \<^verbatim>\<open>_processArg\<close>, whose result is its value; an option that is not given has its default.\<close>

fun process_args :: "case_lib \<Rightarrow> (string \<Rightarrow> string option) \<Rightarrow> (string \<Rightarrow> js_value) \<Rightarrow> (string \<times> js_value) list \<Rightarrow> config
    \<Rightarrow> ((string \<times> js_value) list \<times> config) res" where
  "process_args C env dflt [] s = Inr ([], s)"
| "process_args C env dflt ((name, v) # rest) s = res_bind (processArg C env name v (dflt name) s) (\<lambda>(w, s1).
     res_bind (process_args C env dflt rest s1) (\<lambda>(ws, s2). Inr ((name, w) # ws, s2)))"

definition child_command :: "commander \<Rightarrow> (string \<Rightarrow> string) \<Rightarrow> case_lib \<Rightarrow> (string \<Rightarrow> string option) \<Rightarrow> (string \<Rightarrow> js_value) \<Rightarrow> config
    \<Rightarrow> cli_command \<Rightarrow> js_value list \<Rightarrow> (string \<Rightarrow> js_value) res" where
  "child_command parse attr C env dflt s c argv = res_bind (parse c argv) (\<lambda>pairs.
     res_bind (process_args C env dflt pairs s) (\<lambda>(vals, s').
     Inr (\<lambda>p. case map_of (map (\<lambda>(name, v). (attr name, v)) vals) p of
       Some v \<Rightarrow> v
     | None \<Rightarrow> (case find (\<lambda>name. attr name = p) (cmd_options c) of Some name \<Rightarrow> dflt name | None \<Rightarrow> JUndefined))))"

section \<open>A daemon does the work of its command\<close>

lemma processArg_given:
  assumes "env (constantCase C name) = None" "map_of (paramValues s) name = None" "v \<noteq> ''''"
  shows "processArg C env name (JStr v) dv s = Inr (JStr v, s\<lparr>paramValues := assoc_set (paramValues s) name (JStr v, FromArg)\<rparr>)"
  using assms by (simp add: processArg_def)

lemma process_args_given:
  assumes "\<forall>n. env n = None" "distinct (map fst pairs)" "\<forall>(name, v)\<in>set pairs. map_of (paramValues s) name = None \<and> v \<noteq> ''''"
  shows "\<exists>s'. process_args C env dflt (map (\<lambda>(name, v). (name, JStr v)) pairs) s = Inr (map (\<lambda>(name, v). (name, JStr v)) pairs, s')"
  using assms
proof (induction pairs arbitrary: s)
  case (Cons pair pairs)
  obtain name v where pair: "pair = (name, v)" by (cases pair)
  define s1 where "s1 = s\<lparr>paramValues := assoc_set (paramValues s) name (JStr v, FromArg)\<rparr>"
  have "processArg C env name (JStr v) (dflt name) s = Inr (JStr v, s1)"
    using Cons.prems pair by (simp add: processArg_given s1_def)
  moreover have "\<forall>(n, w)\<in>set pairs. map_of (paramValues s1) n = None \<and> w \<noteq> ''''"
    using Cons.prems(2,3) pair by (force simp: s1_def)
  moreover have "distinct (map fst pairs)" using Cons.prems(2) by simp
  ultimately obtain s' where "processArg C env name (JStr v) (dflt name) s = Inr (JStr v, s1)"
    "process_args C env dflt (map (\<lambda>(name, v). (name, JStr v)) pairs) s1 = Inr (map (\<lambda>(name, v). (name, JStr v)) pairs, s')"
    using Cons.IH [OF Cons.prems(1)] by blast
  then show ?case by (simp add: pair)
qed simp

text \<open>The arguments of a service are the options of its command, each with the property of that name, except for \<^verbatim>\<open>daemon\<close>.\<close>

definition same_options :: "service \<Rightarrow> cli_command \<Rightarrow> bool" where
  "same_options sv c \<longleftrightarrow> cmd_path c = sv_path sv \<and> distinct (map fst (sv_args sv)) \<and> distinct (map (camel \<circ> fst) (sv_args sv))
     \<and> list_all (\<lambda>(name, w). List.member (cmd_options c) name \<and> (camel name = ''daemon'' \<longleftrightarrow> name = ''daemon'')
         \<and> w = (if name = ''daemon'' then Lit ''false'' else PropOf (camel name))) (sv_args sv)
     \<and> list_all (\<lambda>p. List.member (map (camel \<circ> fst) (sv_args sv)) p) (cmd_reads c) \<and> List.member (cmd_reads c) ''daemon''
     \<and> list_all (\<lambda>p. List.member (cmd_reads c) p \<and> p \<noteq> ''daemon'') (sv_uses sv)"

lemma services_same_options: "list_all (\<lambda>sv. list_ex (same_options sv) cli_commands) services"
  by code_simp

lemma command_names:
  assumes "c \<in> set cli_commands" "name \<in> set (cmd_options c)"
  shows "dashed name"
  using assms command_options_known names_dashed(2) by (auto simp: list_all_iff)

lemma map_of_camel:
  assumes "distinct (map (camel \<circ> fst) args)" "(name, w) \<in> set args"
  shows "map_of (map (\<lambda>(name, w). (camel name, f w)) args) (camel name) = Some (f w)"
proof (rule map_of_is_SomeI)
  have "map fst (map (\<lambda>(name, w). (camel name, f w)) args) = map (camel \<circ> fst) args" by auto
  then show "distinct (map fst (map (\<lambda>(name, w). (camel name, f w)) args))" using assms(1) by (simp only:)
qed (use assms(2) in force)

text \<open>The child of a daemon reads the values of its parent.\<close>

lemma child_reads:
  assumes "parse_law parse" "\<forall>name. dashed name \<longrightarrow> attr name = camel name" "\<forall>n. env n = None"
    and "\<forall>(name, w)\<in>set (sv_args sv). \<exists>v. word_value a w = JStr v \<and> v \<noteq> ''''" "c \<in> set cli_commands" "same_options sv c" "paramValues s = []"
  shows "\<exists>a'. child_command parse attr C env dflt s c (pm_args (daemon_config dirname sv a)) = Inr a'
    \<and> (\<forall>p\<in>set (cmd_reads c). a' p = (if p = ''daemon'' then JStr ''false'' else a p))"
proof -
  note same = assms(6) [unfolded same_options_def list_all_iff, simplified]
  define str where "str = (\<lambda>w. case word_value a w of JStr v \<Rightarrow> v | _ \<Rightarrow> '''')"
  define pairs where "pairs = map (\<lambda>(name, w). (name, str w)) (sv_args sv)"
  have str: "word_value a w = JStr (str w)" "str w \<noteq> ''''" if "(name, w) \<in> set (sv_args sv)" for name w
    using assms(4) that by (auto simp: str_def)
  have argv: "pm_args (daemon_config dirname sv a) = map JStr (cmd_path c) @ concat (map (\<lambda>(name, v). [JStr (''--'' @ name), JStr v]) pairs)"
    using same str by (auto simp: daemon_config_def pairs_def intro!: arg_cong [where f = concat])
  have "\<forall>(name, v)\<in>set pairs. name \<in> set (cmd_options c)" using same by (auto simp: pairs_def)
  then have parsed: "parse c (pm_args (daemon_config dirname sv a)) = Inr (map (\<lambda>(name, v). (name, JStr v)) pairs)"
    using assms(1) argv by (simp add: parse_law_def)
  have dist: "distinct (map fst pairs)" using same by (simp add: pairs_def comp_def split_beta)
  have "\<forall>(name, v)\<in>set pairs. map_of (paramValues s) name = None \<and> v \<noteq> ''''"
    using assms(7) str by (auto simp: pairs_def)
  from process_args_given [OF assms(3) dist this, of C dflt] obtain s' where
    processed: "process_args C env dflt (map (\<lambda>(name, v). (name, JStr v)) pairs) s = Inr (map (\<lambda>(name, v). (name, JStr v)) pairs, s')" by blast
  define a' where "a' = (\<lambda>p. case map_of (map (\<lambda>(name, v). (attr name, v)) (map (\<lambda>(name, v). (name, JStr v)) pairs)) p of
       Some v \<Rightarrow> v
     | None \<Rightarrow> (case find (\<lambda>name. attr name = p) (cmd_options c) of Some name \<Rightarrow> dflt name | None \<Rightarrow> JUndefined))"
  have child: "child_command parse attr C env dflt s c (pm_args (daemon_config dirname sv a)) = Inr a'"
    by (simp add: child_command_def parsed processed a'_def)
  have attr: "attr name = camel name" if "(name, w) \<in> set (sv_args sv)" for name w
    using that same assms(2) command_names [OF assms(5)] by fastforce
  have vals: "map (\<lambda>(name, v). (attr name, v)) (map (\<lambda>(name, v). (name, JStr v)) pairs) = map (\<lambda>(name, w). (camel name, word_value a w)) (sv_args sv)"
    using attr str by (auto simp: pairs_def)
  have reads: "a' p = (if p = ''daemon'' then JStr ''false'' else a p)" if "p \<in> set (cmd_reads c)" for p
  proof -
    from that same obtain name w where nw: "(name, w) \<in> set (sv_args sv)" "p = camel name" by fastforce
    have "a' p = word_value a w"
      unfolding a'_def vals using map_of_camel [of "sv_args sv" name w "word_value a"] nw same by (simp add: comp_def)
    moreover have "w = (if name = ''daemon'' then Lit ''false'' else PropOf (camel name))" "camel name = ''daemon'' \<longleftrightarrow> name = ''daemon''"
      using nw(1) same by fastforce+
    ultimately show ?thesis using nw(2) by auto
  qed
  from child reads show ?thesis by blast
qed


text \<open>A parser of command lines that keeps the documented behaviour, for concrete runs.\<close>

fun take_pairs :: "js_value list \<Rightarrow> (string \<times> js_value) list" where
  "take_pairs (JStr name # v # rest) = (drop 2 name, v) # take_pairs rest"
| "take_pairs _ = []"

definition demo_parse :: commander where
  "demo_parse c argv = Inr (take_pairs (drop (length (cmd_path c)) argv))"

lemma demo_parse_law: "parse_law demo_parse"
proof -
  have "take_pairs (concat (map (\<lambda>(name, v). [JStr (''--'' @ name), JStr v]) pairs)) = map (\<lambda>(name, v). (name, JStr v)) pairs" for pairs
    by (induction pairs) auto
  then show ?thesis by (simp add: parse_law_def demo_parse_def)
qed


text \<open>
  An option whose value is the empty string cannot be handed to the child: \<^verbatim>\<open>_processArg\<close> ends the process when the
  value is empty, the configuration file has none and the default is empty. So the address watcher, whose
  option \<^verbatim>\<open>monitor-accounts-path\<close> is empty by default, ends at once when it is started as a daemon without it.
\<close>

lemma process_args_exit:
  assumes "\<forall>n. env n = None" "distinct (map fst pairs @ [name])" "\<forall>(n, v)\<in>set pairs. map_of (paramValues s) n = None \<and> v \<noteq> ''''"
    and "map_of (paramValues s) name = None" "configFile s (camelCase C name) = None" "\<not> truthy (dflt name)"
  shows "process_args C env dflt (map (\<lambda>(n, v). (n, JStr v)) pairs @ (name, JStr '''') # rest) s = Inl (ProcessExit 1)"
  using assms(2-)
proof (induction pairs arbitrary: s)
  case Nil
  then show ?case using assms(1) by (simp add: processArg_def)
next
  case (Cons pair pairs)
  obtain n v where pair: "pair = (n, v)" by (cases pair)
  define s1 where "s1 = s\<lparr>paramValues := assoc_set (paramValues s) n (JStr v, FromArg)\<rparr>"
  have "processArg C env n (JStr v) (dflt n) s = Inr (JStr v, s1)"
    using Cons.prems assms(1) pair by (simp add: processArg_given s1_def)
  moreover have "\<forall>(m, w)\<in>set pairs. map_of (paramValues s1) m = None \<and> w \<noteq> ''''"
  proof (intro ballI, clarify)
    fix m w assume mw: "(m, w) \<in> set pairs"
    then have "m \<noteq> n" using Cons.prems(1) pair by force
    moreover have "map_of (paramValues s) m = None \<and> w \<noteq> ''''" using Cons.prems(2) mw by fastforce
    ultimately show "map_of (paramValues s1) m = None \<and> w \<noteq> ''''" by (simp add: s1_def)
  qed
  moreover have "distinct (map fst pairs @ [name])" "map_of (paramValues s1) name = None" "configFile s1 (camelCase C name) = None"
    using Cons.prems pair by (auto simp: s1_def)
  ultimately show ?case using Cons.IH [of s1] Cons.prems(5) pair by simp
qed

lemma address_watcher_daemon_exits:
  assumes "parse_law parse" "\<forall>n. env n = None" "paramValues s = []" "configFile s (camelCase C ''monitor-accounts-path'') = None"
    and "\<not> truthy (dflt ''monitor-accounts-path'')" "a ''monitorAccountsPath'' = JStr ''''"
    and "\<forall>(name, w)\<in>set (sv_args address_watcher_service). name \<noteq> ''monitor-accounts-path'' \<longrightarrow> (\<exists>v. word_value a w = JStr v \<and> v \<noteq> '''')"
    and "c \<in> set cli_commands" "same_options address_watcher_service c"
  shows "child_command parse attr C env dflt s c (pm_args (daemon_config dirname address_watcher_service a)) = Inl (ProcessExit 1)"
proof -
  define str where "str = (\<lambda>w. case word_value a w of JStr v \<Rightarrow> v | _ \<Rightarrow> '''')"
  define pairs where "pairs = map (\<lambda>(name, w). (name, str w)) (sv_args address_watcher_service)"
  have monitor: "w = PropOf ''monitorAccountsPath''" if "(''monitor-accounts-path'', w) \<in> set (sv_args address_watcher_service)" for w
    using that by (simp add: address_watcher_service_def)
  have str2: "word_value a w = JStr (str w) \<and> str w \<noteq> ''''"
    if "(name, w) \<in> set (sv_args address_watcher_service)" "name \<noteq> ''monitor-accounts-path''" for name w
    using assms(7) that by (fastforce simp: str_def)
  have str: "word_value a w = JStr (str w)" if "(name, w) \<in> set (sv_args address_watcher_service)" for name w
  proof (cases "name = ''monitor-accounts-path''")
    case True
    then show ?thesis using monitor [of w] that assms(6) by (simp add: str_def)
  qed (use str2 [OF that] in simp)
  have argv: "pm_args (daemon_config dirname address_watcher_service a)
      = map JStr (cmd_path c) @ concat (map (\<lambda>(name, v). [JStr (''--'' @ name), JStr v]) pairs)"
    using assms(9) str by (auto simp: same_options_def daemon_config_def pairs_def intro!: arg_cong [where f = concat])
  have "\<forall>(name, v)\<in>set pairs. name \<in> set (cmd_options c)"
    using assms(9) by (auto simp: pairs_def same_options_def list_all_iff)
  then have parsed: "parse c (pm_args (daemon_config dirname address_watcher_service a)) = Inr (map (\<lambda>(name, v). (name, JStr v)) pairs)"
    using assms(1) argv by (simp add: parse_law_def)
  have split: "map (\<lambda>(name, v). (name, JStr v)) pairs = map (\<lambda>(name, v). (name, JStr v)) (take 6 pairs)
      @ (''monitor-accounts-path'', JStr '''') # map (\<lambda>(name, v). (name, JStr v)) (drop 7 pairs)"
    by (simp add: pairs_def address_watcher_service_def str_def assms(6))
  have "process_args C env dflt (map (\<lambda>(name, v). (name, JStr v)) pairs) s = Inl (ProcessExit 1)"
    unfolding split
  proof (rule process_args_exit [OF assms(2)])
    have "set (take 6 (sv_args address_watcher_service)) \<subseteq> {(n, w) \<in> set (sv_args address_watcher_service). n \<noteq> ''monitor-accounts-path''}"
      by (simp add: address_watcher_service_def)
    then show "\<forall>(n, v)\<in>set (take 6 pairs). map_of (paramValues s) n = None \<and> v \<noteq> ''''"
      using str2 assms(3) by (fastforce simp: pairs_def take_map)
    show "distinct (map fst (take 6 pairs) @ [''monitor-accounts-path''])"
      by (simp add: pairs_def address_watcher_service_def)
  qed (simp_all add: assms(3-5))
  then show ?thesis by (simp add: child_command_def parsed)
qed

end
