(* ===== verification/Cli_Status.thy ===== *)
theory Cli_Status
  imports Cli_Services Watchdog Accounts
begin

text \<open>
  The command \<^verbatim>\<open>status\<close>, \<^verbatim>\<open>cli/commands/status.js\<close>: it looks at the NEAR node, the Ethereum node, the contracts and the services of
  the process manager, and prints a line for each. A line shows a \<open>status\<close>; the parameters of the command are strings, of which
  the empty one is falsy; the answers of the nodes, of pm2 and of the packages are the record \<open>status_env\<close>.
\<close>

section \<open>Status values\<close>

datatype verdict = VOk | VInfo | VWarn | VError

record status =
  st_value :: string
  st_verdict :: verdict
  st_explanation :: "string option"

definition Unknown :: string where "Unknown = ''unknown''"
definition Unreachable :: string where "Unreachable = ''unreachable''"
definition NotVerified :: string where "NotVerified = ''not verified''"
definition UsingMaster :: string where "UsingMaster = ''using data from master account''"
definition RecordNotFound :: string where "RecordNotFound = ''record not found''"

definition Status :: "string \<Rightarrow> verdict \<Rightarrow> string option \<Rightarrow> status" where
  "Status v verdict explanation = \<lparr>st_value = v, st_verdict = verdict, st_explanation = explanation\<rparr>"

definition unknown_status :: status where
  "unknown_status = Status Unknown VError None"

definition or_status :: "string \<Rightarrow> status \<Rightarrow> status \<Rightarrow> status" where
  "or_status s present absent = (if s \<noteq> '''' then present else absent)"

section \<open>The environment\<close>

record status_params =
  sp_nearNetworkId :: string
  sp_nearNodeUrl :: string
  sp_nearMasterAccount :: string
  sp_nearMasterSk :: string
  sp_nearClientAccount :: string
  sp_nearClientSk :: string
  sp_nearProverAccount :: string
  sp_nearProverSk :: string
  sp_ethNodeUrl :: string
  sp_ethMasterSk :: string

text \<open>
  \<open>se_request\<close> is the answer of the NEAR node, as the printed version and height; \<open>se_setKey\<close> is \<^verbatim>\<open>keyStore.setKey\<close> of
  \<^verbatim>\<open>KeyPair.fromString\<close>; \<open>se_boo\<close> is the call of a method that no contract has, \<open>se_accounts\<close> the accounts of the Ethereum node.
\<close>

record status_env =
  se_request :: "(string \<times> string) option"
  se_setKey :: "string \<Rightarrow> unit res"
  se_connect :: "unit res"
  se_verify :: "string \<Rightarrow> bool res"
  se_contract :: "string \<Rightarrow> unit res"
  se_boo :: "string \<Rightarrow> unit res"
  se_web3 :: "string res"
  se_protocol :: "string res"
  se_blockNumber :: "string res"
  se_privateKey :: "string \<Rightarrow> string res"
  se_accounts :: "string list res"
  se_abi :: "string \<Rightarrow> unit res"
  se_ethContract :: "string \<Rightarrow> string res"
  se_describe :: "string \<Rightarrow> string list list res"

section \<open>NEAR\<close>

definition request :: "status_env \<Rightarrow> verdict \<times> string \<times> string" where
  "request E = (case se_request E of
     Some (version, blockHeight) \<Rightarrow> (VOk, version, blockHeight)
   | None \<Rightarrow> (VError, Unreachable, Unknown))"

text \<open>A call of \<^verbatim>\<open>boo\<close> that succeeds leaves \<^verbatim>\<open>checkContract\<close> without a result.\<close>

definition near_checkContract :: "status_env \<Rightarrow> string \<Rightarrow> status option" where
  "near_checkContract E contractAccount =
     (if contractAccount = '''' then Some (Status Unknown VError (Some ''contract not found''))
      else (case se_contract E contractAccount of
        Inl _ \<Rightarrow> Some (Status Unknown VError (Some ''internal error''))
      | Inr _ \<Rightarrow> (case se_boo E contractAccount of
          Inr _ \<Rightarrow> None
        | Inl e \<Rightarrow> if js_includes (error_message e) ''Contract method is not found'' then Some (Status contractAccount VOk (Some ''deployed''))
            else Some (Status Unknown VInfo (Some NotVerified)))))"

record near_contracts =
  nct_client :: "status option"
  nct_prover :: "status option"
  nct_funToken :: "status option"

text \<open>The second parameter is destructured; when the call does not pass it, that is a TypeError.\<close>

definition near_contracts_init :: "status_env \<Rightarrow> (string \<times> string \<times> string \<times> string) option \<Rightarrow> near_contracts res" where
  "near_contracts_init E params = (case params of
     None \<Rightarrow> Inl JsTypeError
   | Some (nearMasterAccount, nearClientAccount, nearProverAccount, nearTokenFactoryAccount) \<Rightarrow>
       if nearMasterAccount = '''' then Inr \<lparr>nct_client = None, nct_prover = None, nct_funToken = None\<rparr>
       else Inr \<lparr>nct_client = near_checkContract E nearClientAccount, nct_prover = near_checkContract E nearProverAccount,
         nct_funToken = near_checkContract E nearTokenFactoryAccount\<rparr>)"

text \<open>\<open>nst_clientVerified\<close> and \<open>nst_proverVerified\<close> are the properties \<^verbatim>\<open>nearClientAccount\<close> and \<^verbatim>\<open>nearProverAccount\<close>, which no line prints.\<close>

record near_status =
  nst_networkLocation :: status
  nst_networkConnection :: status
  nst_networkLastBlock :: status
  nst_masterAccount :: status
  nst_masterKey :: status
  nst_clientAccount :: status
  nst_clientKey :: status
  nst_proverAccount :: status
  nst_proverKey :: status
  nst_clientVerified :: "status option"
  nst_proverVerified :: "status option"
  nst_contracts :: "near_contracts option"

definition near_basic :: "status_params \<Rightarrow> near_status" where
  "near_basic p = \<lparr>
     nst_networkLocation = or_status (sp_nearNetworkId p) (Status (sp_nearNetworkId p) VInfo None) unknown_status,
     nst_networkConnection = unknown_status, nst_networkLastBlock = unknown_status,
     nst_masterAccount = or_status (sp_nearMasterAccount p) (Status (sp_nearMasterAccount p) VInfo (Some NotVerified)) unknown_status,
     nst_masterKey = or_status (sp_nearMasterSk p) (Status (sp_nearMasterSk p) VInfo None) unknown_status,
     nst_clientAccount = or_status (sp_nearClientAccount p) (Status (sp_nearClientAccount p) VInfo (Some NotVerified))
       (Status Unknown VInfo (Some UsingMaster)),
     nst_clientKey = or_status (sp_nearClientSk p) (Status (sp_nearClientSk p) VInfo None) (Status Unknown VInfo (Some UsingMaster)),
     nst_proverAccount = or_status (sp_nearProverAccount p) (Status (sp_nearProverAccount p) VInfo (Some NotVerified))
       (Status Unknown VInfo (Some UsingMaster)),
     nst_proverKey = or_status (sp_nearProverSk p) (Status (sp_nearProverSk p) VInfo None) (Status Unknown VInfo (Some UsingMaster)),
     nst_clientVerified = None, nst_proverVerified = None, nst_contracts = None\<rparr>"

text \<open>\<^verbatim>\<open>verifyAccountGently\<close> is imported from \<^verbatim>\<open>rainbow-bridge-utils\<close>; calling what is not exported there is a TypeError.\<close>

definition verified_status :: "status_env \<Rightarrow> string \<Rightarrow> status res" where
  "verified_status E account = (if \<not> imported ''verifyAccountGently'' then Inl JsTypeError
     else res_bind (se_verify E account) (\<lambda>ok.
       Inr (if ok then Status account VOk (Some ''valid'') else Status account VError (Some ''invalid''))))"

definition set_key_if :: "status_env \<Rightarrow> string \<Rightarrow> string \<Rightarrow> unit res" where
  "set_key_if E account sk = (if account \<noteq> '''' \<and> sk \<noteq> '''' then se_setKey E sk else Inr ())"

definition near_connected :: "status_env \<Rightarrow> status_params \<Rightarrow> near_status \<Rightarrow> near_status res" where
  "near_connected E p s =
     res_bind (se_setKey E (sp_nearMasterSk p)) (\<lambda>_.
     res_bind (set_key_if E (sp_nearClientAccount p) (sp_nearClientSk p)) (\<lambda>_.
     res_bind (set_key_if E (sp_nearProverAccount p) (sp_nearProverSk p)) (\<lambda>_.
     res_bind (se_connect E) (\<lambda>_.
     res_bind (verified_status E (sp_nearMasterAccount p)) (\<lambda>master.
     let s1 = s\<lparr>nst_masterAccount := master, nst_masterKey := (nst_masterKey s)\<lparr>st_verdict := st_verdict master\<rparr>\<rparr> in
     res_bind (if sp_nearClientAccount p \<noteq> '''' \<and> sp_nearClientSk p \<noteq> ''''
       then res_bind (verified_status E (sp_nearClientAccount p)) (\<lambda>c. Inr (s1\<lparr>nst_clientVerified := Some c,
         nst_clientKey := (nst_clientKey s1)\<lparr>st_verdict := st_verdict (nst_clientAccount s1)\<rparr>\<rparr>))
       else Inr s1) (\<lambda>s2.
     res_bind (if sp_nearProverAccount p \<noteq> '''' \<and> sp_nearProverSk p \<noteq> ''''
       then res_bind (verified_status E (sp_nearProverAccount p)) (\<lambda>c. Inr (s2\<lparr>nst_proverVerified := Some c,
         nst_proverKey := (nst_proverKey s2)\<lparr>st_verdict := st_verdict (nst_proverAccount s2)\<rparr>\<rparr>))
       else Inr s2) (\<lambda>s3.
     res_bind (near_contracts_init E None) (\<lambda>c. Inr (s3\<lparr>nst_contracts := Some c\<rparr>)))))))))"

definition near_status_init :: "status_env \<Rightarrow> status_params \<Rightarrow> near_status res" where
  "near_status_init E p = (let s = near_basic p in
     if sp_nearNodeUrl p = '''' then Inr s
     else (case request E of (verdict, explanation, lastBlock) \<Rightarrow>
       let s1 = s\<lparr>nst_networkConnection := Status (sp_nearNodeUrl p) verdict (Some explanation), nst_networkLastBlock := Status lastBlock verdict None\<rparr> in
       if verdict = VOk \<and> sp_nearMasterAccount p \<noteq> '''' \<and> sp_nearMasterSk p \<noteq> '''' then near_connected E p s1 else Inr s1))"

section \<open>Ethereum\<close>

definition eth_checkContract :: "status_env \<Rightarrow> string \<Rightarrow> string \<Rightarrow> status" where
  "eth_checkContract E abiPath address =
     (if abiPath = '''' then Status Unknown VError (Some ''abi not found'')
      else if address = '''' then Status Unknown VError (Some ''contract not found'')
      else (case res_bind (se_abi E abiPath) (\<lambda>_. se_ethContract E address) of
        Inl _ \<Rightarrow> Status Unknown VError (Some ''internal error'')
      | Inr a \<Rightarrow> if a = address then Status a VOk (Some ''deployed'') else Status address VError (Some ''invalid'')))"

type_synonym eth_contracts = "(string \<times> status) list"

definition eth_contracts_init :: "status_env \<Rightarrow> (string \<Rightarrow> string) option \<Rightarrow> eth_contracts res" where
  "eth_contracts_init E params = (case params of
     None \<Rightarrow> Inl JsTypeError
   | Some q \<Rightarrow> Inr [(''ed25519'', eth_checkContract E (q ''ethEd25519AbiPath'') (q ''ethEd25519Address'')),
       (''erc20'', eth_checkContract E (q ''ethErc20AbiPath'') (q ''ethErc20Address'')),
       (''locker'', eth_checkContract E (q ''ethLockerAbiPath'') (q ''ethLockerAddress'')),
       (''client'', eth_checkContract E (q ''ethClientAbiPath'') (q ''ethClientAddress'')),
       (''prover'', eth_checkContract E (q ''ethProverAbiPath'') (q ''ethProverAbiAddress''))])"

record eth_status =
  est_networkLocation :: status
  est_networkConnection :: status
  est_networkLastBlock :: status
  est_masterAccount :: status
  est_masterKey :: status
  est_contracts :: "eth_contracts option"

definition eth_basic :: "status_params \<Rightarrow> eth_status" where
  "eth_basic p = \<lparr>est_networkLocation = unknown_status, est_networkConnection = unknown_status, est_networkLastBlock = unknown_status,
     est_masterAccount = Status Unknown VInfo (Some NotVerified),
     est_masterKey = or_status (sp_ethMasterSk p) (Status (normalizeEthKey (sp_ethMasterSk p)) VInfo None) unknown_status,
     est_contracts = None\<rparr>"

definition eth_network :: "status_env \<Rightarrow> string \<Rightarrow> eth_status \<Rightarrow> eth_status" where
  "eth_network E url s = (case res_bind (se_protocol E) (\<lambda>v. res_bind (se_blockNumber E) (\<lambda>b. Inr (v, b))) of
     Inr (version, lastBlock) \<Rightarrow> s\<lparr>est_networkConnection := Status url VOk (Some (''version '' @ version)), est_networkLastBlock := Status lastBlock VOk None\<rparr>
   | Inl _ \<Rightarrow> s\<lparr>est_networkConnection := Status url VError (Some Unreachable), est_networkLastBlock := unknown_status\<rparr>)"

definition eth_master :: "status_env \<Rightarrow> status_params \<Rightarrow> eth_status \<Rightarrow> eth_status" where
  "eth_master E p s = (case res_bind (se_privateKey E (normalizeEthKey (sp_ethMasterSk p))) (\<lambda>address.
       res_bind (se_accounts E) (\<lambda>accounts. Inr (address, accounts))) of
     Inl _ \<Rightarrow> s
   | Inr (address, accounts) \<Rightarrow> (let ok = address \<in> set accounts in
       s\<lparr>est_masterAccount := Status address (if ok then VOk else VError) (Some (if ok then ''valid'' else ''invalid'')),
         est_masterKey := (est_masterKey s)\<lparr>st_verdict := if ok then VOk else VError\<rparr>\<rparr>))"

definition eth_status_init :: "status_env \<Rightarrow> status_params \<Rightarrow> eth_status" where
  "eth_status_init E p = (let s = eth_basic p in
     if sp_ethNodeUrl p = '''' then s
     else let failed = (\<lambda>t. t\<lparr>est_networkLocation := unknown_status,
            est_networkConnection := Status (sp_ethNodeUrl p) VError (Some Unreachable), est_networkLastBlock := unknown_status\<rparr>) in
       (case se_web3 E of
          Inl _ \<Rightarrow> failed s
        | Inr chain \<Rightarrow>
            let s1 = s\<lparr>est_networkLocation := Status chain VInfo None\<rparr>;
                s2 = eth_network E (sp_ethNodeUrl p) s1;
                s3 = eth_master E p s2 in
            (case eth_contracts_init E None of Inl _ \<Rightarrow> failed s3 | Inr c \<Rightarrow> s3\<lparr>est_contracts := Some c\<rparr>)))"

section \<open>Services\<close>

fun processArgs_list :: "string list \<Rightarrow> string list" where
  "processArgs_list (x # y # rest) = (if startsWith x ''--'' then (drop 2 x @ ''='' @ y) # processArgs_list (y # rest) else processArgs_list (y # rest))"
| "processArgs_list _ = []"

definition processArgs :: "string list \<Rightarrow> string" where
  "processArgs args = (case processArgs_list args of [] \<Rightarrow> '''' | x # xs \<Rightarrow> x @ concat (map (\<lambda>y. '', '' @ y) xs))"

definition running :: "status_env \<Rightarrow> string \<Rightarrow> status" where
  "running E serviceName = (case se_describe E serviceName of
     Inl _ \<Rightarrow> Status Unknown VError (Some ''internal error'')
   | Inr [] \<Rightarrow> Status Unknown VError (Some Unreachable)
   | Inr (args # _) \<Rightarrow> Status ''running'' VOk (Some (processArgs args)))"

section \<open>Printing\<close>

fun verdict_color :: "verdict \<Rightarrow> string" where
  "verdict_color VOk = ''[32m''"
| "verdict_color VInfo = ''[39m''"
| "verdict_color VWarn = ''[33m''"
| "verdict_color VError = ''[35m''"

definition ESC :: string where "ESC = [CHR 0x1B]"

definition pad50 :: "string \<Rightarrow> string" where
  "pad50 s = s @ replicate (50 - length s) (CHR '' '')"

text \<open>The three arguments of \<^verbatim>\<open>console.log\<close>, printed with a blank between them.\<close>

definition printLine :: "string \<Rightarrow> status option \<Rightarrow> string" where
  "printLine field st = (let s = (case st of None \<Rightarrow> Status Unknown VError (Some RecordNotFound) | Some s \<Rightarrow> s);
       explanation = (case st_explanation s of None \<Rightarrow> '''' | Some e \<Rightarrow> if e = '''' then '''' else ''('' @ e @ '')'') in
     pad50 (field @ '':'') @ '' '' @ ESC @ verdict_color (st_verdict s) @ st_value s @ '' '' @ explanation @ ESC @ ''[39m'')"

definition printHeader :: "string \<Rightarrow> string" where
  "printHeader header = ESC @ ''[33m'' @ header @ ESC @ ''[39m''"

definition status_lines :: "near_status \<Rightarrow> eth_status \<Rightarrow> status_env \<Rightarrow> string list" where
  "status_lines ns es E =
     [printHeader ''NEAR node status'',
      printLine ''Location'' (Some (nst_networkLocation ns)), printLine ''Connection'' (Some (nst_networkConnection ns)),
      printLine ''Latest block height'' (Some (nst_networkLastBlock ns)), printLine ''Bridge master account'' (Some (nst_masterAccount ns)),
      printLine ''Master account secret key'' (Some (nst_masterKey ns)),
      printLine ''Account used for Client contract deployment'' (Some (nst_clientAccount ns)),
      printLine ''Client account secret key'' (Some (nst_clientKey ns)),
      printLine ''Account used for Prover contract deployment'' (Some (nst_proverAccount ns)),
      printLine ''Prover account secret key'' (Some (nst_proverKey ns)), '''',
      printHeader ''NEAR contracts status'']
     @ (case nst_contracts ns of
          Some c \<Rightarrow> [printLine ''fungible token'' (nct_funToken c), printLine ''client'' (nct_client c), printLine ''prover'' (nct_prover c)]
        | None \<Rightarrow> [printLine ''Contracts'' None])
     @ ['''', printHeader ''ETH node status'',
      printLine ''Location'' (Some (est_networkLocation es)), printLine ''Connection'' (Some (est_networkConnection es)),
      printLine ''Latest block height'' (Some (est_networkLastBlock es)), printLine ''Bridge master account'' (Some (est_masterAccount es)),
      printLine ''Master account secret key'' (Some (est_masterKey es)), '''', printHeader ''ETH contracts status'']
     @ (case est_contracts es of
          Some c \<Rightarrow> map (\<lambda>(n, s). printLine n (Some s)) c
        | None \<Rightarrow> [printLine ''Contracts'' None])
     @ ['''', printHeader ''Services'', printLine ''ETH-2-NEAR relay'' (Some (running E ''eth2near-relay'')),
      printLine ''NEAR-2-ETH relay'' (Some (running E ''near2eth-relay'')), printLine ''Bridge Watchdog'' (Some (running E ''bridge-watchdog''))]"

definition StatusCommand :: "status_env \<Rightarrow> status_params \<Rightarrow> (string, unit) run" where
  "StatusCommand E p = run_bind (run_ask (near_status_init E p)) (\<lambda>ns.
     let es = eth_status_init E p in (status_lines ns es E, Inr ()))"

section \<open>What the command reports\<close>

lemma verified_status_fails: "verified_status E account = Inl JsTypeError"
  by (simp add: verified_status_def imported_def utils_exports_def)

lemma near_connected_fails: "\<exists>e. near_connected E p s = Inl e"
  by (cases "se_setKey E (sp_nearMasterSk p)"; cases "set_key_if E (sp_nearClientAccount p) (sp_nearClientSk p)";
      cases "set_key_if E (sp_nearProverAccount p) (sp_nearProverSk p)"; cases "se_connect E")
    (simp_all add: near_connected_def verified_status_fails)

lemma eth_status_unreachable:
  assumes "sp_ethNodeUrl p \<noteq> ''''"
  shows "est_networkConnection (eth_status_init E p) = Status (sp_ethNodeUrl p) VError (Some ''unreachable'')
    \<and> est_contracts (eth_status_init E p) = None"
  using assms
  by (auto simp: eth_status_init_def eth_contracts_init_def eth_network_def eth_master_def eth_basic_def Unreachable_def Let_def split: sum.splits)

text \<open>
  C40. The command \<^verbatim>\<open>status\<close> never shows a working bridge: when the NEAR node answers and the master account and its key are
  configured, it fails with an exception and prints nothing (\<^verbatim>\<open>verifyAccountGently\<close> is not exported by the utilities, and the
  contracts are looked up without the parameter that names them); otherwise it prints its lines, and reports a configured Ethereum node as
  unreachable, with no contracts, whatever the node answers.
\<close>

theorem status_never_connected:
  "if sp_nearNodeUrl p \<noteq> '''' \<and> se_request E \<noteq> None \<and> sp_nearMasterAccount p \<noteq> '''' \<and> sp_nearMasterSk p \<noteq> ''''
   then fst (StatusCommand E p) = [] \<and> (\<exists>e. snd (StatusCommand E p) = Inl e)
     \<and> ((\<forall>sk. se_setKey E sk = Inr ()) \<and> se_connect E = Inr () \<longrightarrow> snd (StatusCommand E p) = Inl JsTypeError)
   else snd (StatusCommand E p) = Inr () \<and> (sp_ethNodeUrl p \<noteq> '''' \<longrightarrow>
     printLine ''Connection'' (Some (Status (sp_ethNodeUrl p) VError (Some ''unreachable''))) \<in> set (fst (StatusCommand E p)))"
proof (cases "sp_nearNodeUrl p \<noteq> '''' \<and> se_request E \<noteq> None \<and> sp_nearMasterAccount p \<noteq> '''' \<and> sp_nearMasterSk p \<noteq> ''''")
  case True
  then obtain s where s: "near_status_init E p = near_connected E p s"
    by (auto simp: near_status_init_def request_def Let_def)
  obtain e where e: "near_connected E p s = Inl e" using near_connected_fails by blast
  have "near_connected E p s = Inl JsTypeError" if "\<forall>sk. se_setKey E sk = Inr ()" "se_connect E = Inr ()"
    using that by (simp add: near_connected_def set_key_if_def verified_status_fails)
  then show ?thesis
    using True s e by (auto simp: StatusCommand_def run_simps)
next
  case False
  then have "\<exists>ns. near_status_init E p = Inr ns"
    by (cases "se_request E") (auto simp: near_status_init_def request_def Let_def)
  then obtain ns where "near_status_init E p = Inr ns" by blast
  then show ?thesis
    using False eth_status_unreachable [of p E] by (auto simp: StatusCommand_def run_simps status_lines_def Let_def)
qed

text \<open>A node that answers and packages that work, for a concrete run.\<close>

definition demo_status_env :: status_env where
  "demo_status_env = \<lparr>se_request = Some (''1.0'', ''100''), se_setKey = (\<lambda>_. Inr ()), se_connect = Inr (), se_verify = (\<lambda>_. Inr True),
     se_contract = (\<lambda>_. Inr ()), se_boo = (\<lambda>_. Inl (LibraryError ''Contract method is not found'')), se_web3 = Inr ''local'',
     se_protocol = Inr ''65'', se_blockNumber = Inr ''7'', se_privateKey = (\<lambda>_. Inr ''0xa''), se_accounts = Inr [''0xa''],
     se_abi = (\<lambda>_. Inr ()), se_ethContract = Inr, se_describe = (\<lambda>_. Inr [])\<rparr>"

definition demo_status_params :: status_params where
  "demo_status_params = \<lparr>sp_nearNetworkId = ''local'', sp_nearNodeUrl = ''http://localhost:3030'', sp_nearMasterAccount = ''node0'', sp_nearMasterSk = ''sk'',
     sp_nearClientAccount = '''', sp_nearClientSk = '''', sp_nearProverAccount = '''', sp_nearProverSk = '''',
     sp_ethNodeUrl = ''http://localhost:9545'', sp_ethMasterSk = ''0x1''\<rparr>"

theorem status_never_connected_witness:
  "StatusCommand demo_status_env demo_status_params = ([], Inl JsTypeError)
   \<and> printLine ''Connection'' (Some (Status ''http://localhost:9545'' VError (Some ''unreachable'')))
      \<in> set (fst (StatusCommand demo_status_env (demo_status_params\<lparr>sp_nearMasterSk := ''''\<rparr>)))"
proof
  show "StatusCommand demo_status_env demo_status_params = ([], Inl JsTypeError)"
    using status_never_connected [of demo_status_params demo_status_env]
    by (cases "StatusCommand demo_status_env demo_status_params") (simp add: demo_status_params_def demo_status_env_def)
  show "printLine ''Connection'' (Some (Status ''http://localhost:9545'' VError (Some ''unreachable'')))
      \<in> set (fst (StatusCommand demo_status_env (demo_status_params\<lparr>sp_nearMasterSk := ''''\<rparr>)))"
    using status_never_connected [of "demo_status_params\<lparr>sp_nearMasterSk := ''''\<rparr>" demo_status_env]
    by (simp add: demo_status_params_def)
qed

text \<open>The line of a service shows the options with which it was started, when no value looks like an option.\<close>

lemma processArgs_list_pairs:
  assumes "\<forall>(name, v)\<in>set pairs. \<not> startsWith v ''--''" "\<forall>w\<in>set path. \<not> startsWith w ''--''"
  shows "processArgs_list (path @ concat (map (\<lambda>(name, v). [''--'' @ name, v]) pairs)) = map (\<lambda>(name, v). name @ ''='' @ v) pairs"
proof -
  have skip: "processArgs_list (w # xs) = processArgs_list xs" if "\<not> startsWith w ''--''" for w xs
    using that by (cases xs) auto
  have opt: "startsWith (''--'' @ name) ''--''" for name by (simp only: startsWith_append)
  have "processArgs_list (concat (map (\<lambda>(name, v). [''--'' @ name, v]) pairs)) = map (\<lambda>(name, v). name @ ''='' @ v) pairs"
    using assms(1)
  proof (induction pairs)
    case (Cons pair pairs)
    then show ?case using opt by (cases pair) (simp add: skip)
  qed simp
  then show ?thesis using assms(2) by (induction path) (auto simp: skip)
qed

end
