(* ===== verification/Cli_Tokens.thy ===== *)
theory Cli_Tokens
  imports Near_Contracts Cli_Options
begin

text \<open>
  Tokens by name, the handlers of \<^verbatim>\<open>cli/index.js\<close> around \<^verbatim>\<open>DeployToken\<close> and the transfers: \<^verbatim>\<open>deploy-token\<close> stores the account and the
  address of a token in the configuration under names made from the name of the token, and the transfer commands look them up when they
  are given \<^verbatim>\<open>--token-name\<close>. The spelling functions are those of the package change-case: \<open>case_lib\<close> and \<open>capitalCase\<close>.
\<close>

section \<open>The handlers\<close>

definition token_values :: "(string \<Rightarrow> string) \<Rightarrow> string \<Rightarrow> string \<Rightarrow> (string \<times> string) list \<Rightarrow> (string \<times> js_value) list" where
  "token_values capitalCase tokenName ethTokenAddress info =
     [(''near'' @ capitalCase tokenName @ ''Account'', case map_of info ''nearTokenAccount'' of Some v \<Rightarrow> JStr v | None \<Rightarrow> JUndefined),
      (''eth'' @ capitalCase tokenName @ ''Address'', JStr ethTokenAddress)]
     @ map (\<lambda>(k, v). (k, JStr v)) (filter (\<lambda>(k, v). k \<noteq> ''nearTokenAccount'' \<and> k \<noteq> ''ethTokenAddress'') info)"

definition deploy_token_handler :: "near_world \<Rightarrow> (string \<Rightarrow> unit res) \<Rightarrow> (string \<Rightarrow> string) \<Rightarrow> token_params \<Rightarrow> string \<Rightarrow> string
    \<Rightarrow> (near_effect, (string \<times> js_value) list) run" where
  "deploy_token_handler W deploy capitalCase p tokenName ethTokenAddress =
     run_bind (DeployToken W 0 deploy p ethTokenAddress) (\<lambda>info. run_ret (token_values capitalCase tokenName ethTokenAddress info))"

text \<open>The two parameters that the handlers of the transfers replace when they are given the name of a token.\<close>

definition named_token :: "case_lib \<Rightarrow> config \<Rightarrow> string \<Rightarrow> (js_value \<times> js_value) option res" where
  "named_token C s tokenName =
     (if tokenName = '''' then Inr None
      else res_bind (getParam C s (''eth-'' @ tokenName @ ''-address'')) (\<lambda>ethErc20Address.
        res_bind (getParam C s (''near-'' @ tokenName @ ''-account'')) (\<lambda>nearErc20Account.
        Inr (Some (ethErc20Address, nearErc20Account)))))"

section \<open>A deployed token is found by its name\<close>

text \<open>
  What change-case is documented to do with lower-case words \<^verbatim>\<open>ws\<close>: it recognizes the words in their dashed and in their camel-case
  spelling, and writes them in the other.
\<close>

definition lower_word :: "string \<Rightarrow> bool" where
  "lower_word w \<longleftrightarrow> w \<noteq> '''' \<and> list_all (\<lambda>c. List.member ''abcdefghijklmnopqrstuvwxyz'' c) w"

definition camel_words :: "string list \<Rightarrow> string" where
  "camel_words ws = (case ws of [] \<Rightarrow> '''' | v # vs \<Rightarrow> v @ concat (map capitalize vs))"

definition change_case_law :: "case_lib \<Rightarrow> (string \<Rightarrow> string) \<Rightarrow> bool" where
  "change_case_law C capitalCase \<longleftrightarrow>
     (\<forall>w. lower_word w \<longrightarrow> capitalCase w = capitalize w)
   \<and> (\<forall>ws. ws \<noteq> [] \<and> list_all lower_word ws \<longrightarrow> paramCase C (camel_words ws) = join_char (CHR ''-'') ws)
   \<and> (\<forall>ws. ws \<noteq> [] \<and> list_all lower_word ws \<longrightarrow> camelCase C (join_char (CHR ''-'') ws) = camel_words ws)"

lemma change_case_words:
  assumes "change_case_law C capitalCase" "list_all lower_word (v # vs)"
  shows "paramCase C (v @ concat (map capitalize vs)) = join_char (CHR ''-'') (v # vs)"
    and "camelCase C (join_char (CHR ''-'') (v # vs)) = v @ concat (map capitalize vs)"
proof -
  have "v # vs \<noteq> [] \<and> list_all lower_word (v # vs)" using assms(2) by blast
  then have "paramCase C (camel_words (v # vs)) = join_char (CHR ''-'') (v # vs)" "camelCase C (join_char (CHR ''-'') (v # vs)) = camel_words (v # vs)"
    using assms(1) by (blast intro: elim: change_case_law_def [THEN iffD1, elim_format])+
  then show "paramCase C (v @ concat (map capitalize vs)) = join_char (CHR ''-'') (v # vs)"
    "camelCase C (join_char (CHR ''-'') (v # vs)) = v @ concat (map capitalize vs)"
    by (simp_all add: camel_words_def)
qed

lemma DeployToken_Inr:
  assumes "snd (DeployToken W step deploy p ethTokenAddress) = Inr info"
  shows "\<exists>sk. info = [(''nearTokenFactorySk'', sk), (''nearTokenAccount'', remove0x ethTokenAddress @ ''.'' @ tp_nearTokenFactoryAccount p),
    (''ethTokenAddress'', ethTokenAddress)]"
  using assms by (auto simp: DeployToken_def Let_def run_bind_Inr_iff)

lemma store_values_other:
  assumes "name \<notin> paramCase C ` fst ` set nvs"
  shows "map_of (paramValues (store_values C nvs s)) name = map_of (paramValues s) name"
  using assms by (induction nvs rule: rev_induct) (auto simp: store_values_def setParam_def)

lemma store_values_names: "fst ` set (paramValues (store_values C nvs s)) = fst ` set (paramValues s) \<union> paramCase C ` fst ` set nvs"
proof (induction nvs rule: rev_induct)
  case (snoc nv nvs)
  have "store_values C (nvs @ [nv]) s = setParam (paramCase C (fst nv)) (snd nv) (store_values C nvs s)"
    by (simp add: store_values_def split_beta)
  then show ?case using snoc by (simp add: setParam_def Un_commute Un_insert_left)
qed (simp add: store_values_def)

lemma store_values_stored:
  assumes "nvs = us @ (k, v) # vs" "paramCase C k \<notin> paramCase C ` fst ` set vs"
  shows "map_of (paramValues (store_values C nvs s)) (paramCase C k) = Some (v, FromConfig)"
proof -
  have "store_values C nvs s = store_values C vs (setParam (paramCase C k) v (store_values C us s))"
    using assms(1) by (simp add: store_values_def)
  then show ?thesis using store_values_other [OF assms(2)] by (simp add: setParam_def)
qed

text \<open>What a command stored and saved is what the next process reads, also under another spelling of the name.\<close>

lemma command_action_getParam:
  assumes "nvs = us @ (k, v) # vs" "paramCase C k \<notin> paramCase C ` fst ` set vs" "config_ok s" "v \<noteq> JNull"
    and "inj_on (camelCase C) (fst ` set (paramValues s) \<union> paramCase C ` fst ` set nvs)" "camelCase C name = camelCase C (paramCase C k)"
  shows "getParam C (next_process (command_action C (Some nvs) s)) name = Inr v"
proof -
  define t where "t = store_values C nvs s"
  have "(paramCase C k, v, FromConfig) \<in> set (paramValues t)"
    unfolding t_def by (rule map_of_SomeD [OF store_values_stored [OF assms(1,2)]])
  moreover have "inj_on (camelCase C) (fst ` set (paramValues t))" using assms(5) by (simp add: t_def store_values_names)
  moreover have "config_ok t" using assms(3) by (simp add: t_def store_values_ok)
  ultimately have "configFile (saveConfig C t) (camelCase C name) = Some v"
    using saved_file [of "paramValues t" C "paramCase C k" v FromConfig "configFile t"] assms(6) by (simp add: saveConfig_def config_ok_def)
  moreover have "command_action C (Some nvs) s = saveConfig C t" using assms(1) by (simp add: command_action_def t_def)
  ultimately show ?thesis using assms(4) by (simp add: getParam_def maybeGetParam_def next_process_def)
qed

text \<open>
  C32. A token that was deployed is found by its name: after \<^verbatim>\<open>deploy-token\<close> with a lower-case word as the name of the token has succeeded,
  a transfer that a later process starts with that name works on the address that was given and on the account of the token in the factory.
\<close>

theorem deployed_token_found:
  assumes "change_case_law C capitalCase" "lower_word w" "config_ok s"
    and "inj_on (camelCase C) (fst ` set (paramValues s) \<union> {''near-'' @ w @ ''-account'', ''eth-'' @ w @ ''-address'', ''near-token-factory-sk''})"
    and "snd (deploy_token_handler W deploy capitalCase p w ethTokenAddress) = Inr nvs"
  shows "named_token C (next_process (command_action C (Some nvs) s)) w
    = Inr (Some (JStr ethTokenAddress, JStr (remove0x ethTokenAddress @ ''.'' @ tp_nearTokenFactoryAccount p)))"
proof -
  have words: "list_all lower_word [''near'', w, ''account'']" "list_all lower_word [''eth'', w, ''address'']"
    "list_all lower_word [''near'', ''token'', ''factory'', ''sk'']"
    using assms(2) by (simp_all add: lower_word_def)
  have cap: "capitalize ''account'' = ''Account''" "capitalize ''address'' = ''Address''" "capitalize ''token'' = ''Token''"
    "capitalize ''factory'' = ''Factory''" "capitalize ''sk'' = ''Sk''"
    by code_simp+
  have pc: "paramCase C (''near'' @ capitalCase w @ ''Account'') = ''near-'' @ w @ ''-account''"
    "paramCase C (''eth'' @ capitalCase w @ ''Address'') = ''eth-'' @ w @ ''-address''"
    "paramCase C ''nearTokenFactorySk'' = ''near-token-factory-sk''"
    using change_case_words(1) [OF assms(1) words(1)] change_case_words(1) [OF assms(1) words(2)] change_case_words(1) [OF assms(1) words(3)]
      assms(1,2) cap by (simp_all add: change_case_law_def)
  define kn ke ks nn ne nf where "kn = ''near'' @ capitalCase w @ ''Account''" and "ke = ''eth'' @ capitalCase w @ ''Address''"
    and "ks = ''nearTokenFactorySk''" and "nn = ''near-'' @ w @ ''-account''" and "ne = ''eth-'' @ w @ ''-address''" and "nf = ''near-token-factory-sk''"
  note names = kn_def ke_def ks_def nn_def ne_def nf_def
  have pcn: "paramCase C kn = nn" "paramCase C ke = ne" "paramCase C ks = nf" unfolding names by (rule pc)+
  obtain sk where nvs: "nvs = [(kn, JStr (remove0x ethTokenAddress @ ''.'' @ tp_nearTokenFactoryAccount p)), (ke, JStr ethTokenAddress), (ks, JStr sk)]"
    using assms(5) by (auto simp: deploy_token_handler_def run_bind_Inr_iff token_values_def names dest!: DeployToken_Inr)
  have inj: "inj_on (camelCase C) (fst ` set (paramValues s) \<union> paramCase C ` fst ` set nvs)"
    using assms(4) unfolding names [symmetric] by (simp add: nvs pcn)
  have diff: "nn \<noteq> ne" "nn \<noteq> nf" "ne \<noteq> nf" by (auto simp: names dest: arg_cong [where f = last])
  have "getParam C (next_process (command_action C (Some nvs) s)) nn = Inr (JStr (remove0x ethTokenAddress @ ''.'' @ tp_nearTokenFactoryAccount p))"
    by (rule command_action_getParam [OF _ _ assms(3) _ inj, where us = "[]" and k = kn and vs = "tl nvs"]) (use diff in \<open>simp_all add: nvs pcn\<close>)
  moreover have "getParam C (next_process (command_action C (Some nvs) s)) ne = Inr (JStr ethTokenAddress)"
    by (rule command_action_getParam [OF _ _ assms(3) _ inj, where us = "take 1 nvs" and k = ke and vs = "drop 2 nvs"]) (use diff in \<open>simp_all add: nvs pcn\<close>)
  ultimately show ?thesis using assms(2) unfolding named_token_def nn_def ne_def by (simp add: lower_word_def)
qed

text \<open>Spelling functions that keep the documented behaviour, for concrete runs.\<close>

fun dash_char :: "char \<Rightarrow> string" where
  "dash_char c = (case map_of (zip ''ABCDEFGHIJKLMNOPQRSTUVWXYZ'' ''abcdefghijklmnopqrstuvwxyz'') c of None \<Rightarrow> [c] | Some d \<Rightarrow> ''-'' @ [d])"

definition simple_case :: case_lib where
  "simple_case = \<lparr>paramCase = (\<lambda>s. concat (map dash_char s)), snakeCase = (\<lambda>s. s), camelCase = camel, constantCase = (\<lambda>s. s)\<rparr>"

lemma split_char_word: "c \<notin> set w \<Longrightarrow> split_char c w = [w]"
  by (induction w) auto

lemma split_char_append: "c \<notin> set w \<Longrightarrow> split_char c (w @ c # xs) = w # split_char c xs"
  by (induction w) auto

lemma split_join_char: "ws \<noteq> [] \<Longrightarrow> list_all (\<lambda>w. c \<notin> set w) ws \<Longrightarrow> split_char c (join_char c ws) = ws"
proof (induction c ws rule: join_char.induct)
  case (3 c w v ws)
  then show ?case by (simp add: split_char_append)
qed (simp_all add: split_char_word)

lemma lower_char_dash:
  "List.member ''abcdefghijklmnopqrstuvwxyz'' c \<Longrightarrow> dash_char c = [c] \<and> c \<noteq> CHR ''-'' \<and> concat (map dash_char (capitalize [c])) = ''-'' @ [c]"
  by auto

lemma lower_word_dash:
  assumes "lower_word w"
  shows "concat (map dash_char w) = w \<and> CHR ''-'' \<notin> set w \<and> concat (map dash_char (capitalize w)) = CHR ''-'' # w"
proof -
  have lower: "\<forall>c\<in>set w. dash_char c = [c] \<and> c \<noteq> CHR ''-'' \<and> concat (map dash_char (capitalize [c])) = ''-'' @ [c]"
    using assms lower_char_dash by (simp only: lower_word_def list_all_iff) blast
  then have same: "concat (map dash_char v) = v" if "set v \<subseteq> set w" for v
    using that by (induction v) auto
  obtain c cs where w: "w = c # cs" using assms by (cases w) (auto simp: lower_word_def)
  have "capitalize w = capitalize [c] @ cs" by (simp add: w)
  then have "concat (map dash_char (capitalize w)) = ''-'' @ [c] @ concat (map dash_char cs)"
    using lower w by simp
  then show ?thesis using lower same [of w] same [of cs] w by auto
qed

lemma simple_case_law: "change_case_law simple_case capitalize"
proof -
  have "concat (map dash_char (concat (map capitalize vs))) = concat (map (\<lambda>v. CHR ''-'' # v) vs)" if "list_all lower_word vs" for vs
    using that lower_word_dash by (induction vs) auto
  moreover have "join_char (CHR ''-'') (v # vs) = v @ concat (map (\<lambda>v. CHR ''-'' # v) vs)" for v vs
    by (induction vs arbitrary: v) auto
  ultimately have "concat (map dash_char (camel_words ws)) = join_char (CHR ''-'') ws" if "ws \<noteq> []" "list_all lower_word ws" for ws
    using that lower_word_dash by (cases ws) (auto simp: camel_words_def)
  moreover have "camel (join_char (CHR ''-'') ws) = camel_words ws" if "ws \<noteq> []" "list_all lower_word ws" for ws
    using that lower_word_dash split_join_char [of ws "CHR ''-''"] by (simp add: camel_def camel_words_def list_all_iff)
  ultimately show ?thesis by (simp add: change_case_law_def simple_case_def)
qed

theorem deployed_token_found_witness:
  "\<exists>nvs. snd (deploy_token_handler (demo_world\<lparr>nw_accessKeys := \<lambda>_ _. Inr [''pk-m'']\<rparr>) (\<lambda>_. Inr ()) capitalize
      \<lparr>tp_nearMasterAccount = ''master'', tp_nearMasterSk = ''m'', tp_nearTokenFactoryAccount = ''factory'', tp_nearTokenFactorySk = ''''\<rparr> ''dai'' ''0xd1'') = Inr nvs
    \<and> named_token simple_case (next_process (command_action simple_case (Some nvs) (cli_config ''/cli'' (\<lambda>_. None)))) ''dai''
      = Inr (Some (JStr ''0xd1'', JStr ''d1.factory''))"
proof -
  let ?W = "demo_world\<lparr>nw_accessKeys := \<lambda>_ _. Inr [''pk-m'']\<rparr>"
  let ?p = "\<lparr>tp_nearMasterAccount = ''master'', tp_nearMasterSk = ''m'', tp_nearTokenFactoryAccount = ''factory'', tp_nearTokenFactorySk = ''''\<rparr>"
  have "\<exists>nvs. snd (deploy_token_handler ?W (\<lambda>_. Inr ()) capitalize ?p ''dai'' ''0xd1'') = Inr nvs"
    by (simp add: deploy_token_handler_def DeployToken_def Let_def or_master_def setKey_def demo_world_def verify_at_def verifyAccount_def
        accountExists_def accountHasTheKey_def run_simps run_catch_simps run_do_def)
  then obtain nvs where nvs: "snd (deploy_token_handler ?W (\<lambda>_. Inr ()) capitalize ?p ''dai'' ''0xd1'') = Inr nvs" by blast
  have s: "config_ok (cli_config ''/cli'' (\<lambda>_. None))" by (rule cli_config_ok)
  have pv: "paramValues (cli_config ''/cli'' (\<lambda>_. None)) = []" by (simp add: cli_config_def)
  have inj: "inj_on (camelCase simple_case) (fst ` set (paramValues (cli_config ''/cli'' (\<lambda>_. None)))
      \<union> {''near-'' @ ''dai'' @ ''-account'', ''eth-'' @ ''dai'' @ ''-address'', ''near-token-factory-sk''})"
    by (simp add: pv simple_case_def camel_def)
  from deployed_token_found [OF simple_case_law _ s inj nvs] nvs show ?thesis by (simp add: lower_word_def remove0x_def)
qed

end
