(* ===== verification/Near_Dump.thy ===== *)
theory Near_Dump
  imports Cli_Options Proof_Extractor
begin

text \<open>
  The command \<^verbatim>\<open>near-dump\<close>, \<^verbatim>\<open>cli/commands/near-dump.js\<close>: it polls the head of the NEAR chain and saves, for a
  number of new heads, the next light client block or the proofs of the transactions and receipts of the block before.

  The NEAR node is a parameter: \<open>nd_rpc E i body\<close> is the outcome of the \<open>i\<close>-th request of the process (\<^verbatim>\<open>fetch\<close> and
  \<^verbatim>\<open>resp.json()\<close>) with that body, and \<open>nd_write\<close> that of \<^verbatim>\<open>fs.writeFile\<close>. Both loops wait for the node without a limit;
  the fuel bounds the number of polls, and the result \<open>False\<close> says that the command still waits. The theorems show that
  on a chain that goes on some fuel is enough, and that no saved proof overwrites another.
\<close>

section \<open>Values in file names\<close>

text \<open>The text of a value in a template literal; the text of an array or object is the argument \<open>other\<close>.\<close>

fun js_text :: "(js_value \<Rightarrow> string) \<Rightarrow> js_value \<Rightarrow> string" where
  "js_text other JUndefined = ''undefined''"
| "js_text other JNull = ''null''"
| "js_text other (JBool b) = (if b then ''true'' else ''false'')"
| "js_text other (JInt n) = (if n < 0 then ''-'' @ decimal (nat (- n)) else decimal (nat n))"
| "js_text other (JStr s) = s"
| "js_text other v = other v"

text \<open>The operator \<^verbatim>\<open>>\<close> on what a node answers for a height, which is not a string.\<close>

fun js_number :: "js_value \<Rightarrow> int option" where
  "js_number (JInt n) = Some n"
| "js_number JNull = Some 0"
| "js_number (JBool b) = Some (if b then 1 else 0)"
| "js_number _ = None"

definition js_gt :: "js_value \<Rightarrow> js_value \<Rightarrow> bool" where
  "js_gt v w = (case (js_number v, js_number w) of (Some m, Some n) \<Rightarrow> n < m | _ \<Rightarrow> False)"

text \<open>\<^verbatim>\<open>v[0]\<close>, and the keys and values that \<^verbatim>\<open>for (const i in v)\<close> goes through.\<close>

fun js_first :: "js_value \<Rightarrow> js_value res" where
  "js_first JUndefined = Inl JsTypeError"
| "js_first JNull = Inl JsTypeError"
| "js_first (JArr (v # vs)) = Inr v"
| "js_first (JBytes (b # bs)) = Inr (JInt (int (unat b)))"
| "js_first (JStr (c # cs)) = Inr (JStr [c])"
| "js_first (JObj kvs) = Inr (case map_of kvs ''0'' of None \<Rightarrow> JUndefined | Some v \<Rightarrow> v)"
| "js_first _ = Inr JUndefined"

definition indexed :: "js_value list \<Rightarrow> (string \<times> js_value) list" where
  "indexed vs = zip (map decimal [0..<length vs]) vs"

fun js_entries :: "js_value \<Rightarrow> (string \<times> js_value) list" where
  "js_entries (JArr vs) = indexed vs"
| "js_entries (JBytes bs) = indexed (byte_numbers bs)"
| "js_entries (JStr s) = indexed (map (\<lambda>c. JStr [c]) s)"
| "js_entries (JObj kvs) = kvs"
| "js_entries _ = []"

section \<open>Requests\<close>

datatype dump_effect =
    WriteFile string js_value
  | Usage

record near_dump_env =
  nd_rpc :: "nat \<Rightarrow> js_value \<Rightarrow> js_value res"
  nd_write :: "string \<Rightarrow> js_value \<Rightarrow> unit res"
  nd_text :: "js_value \<Rightarrow> string"

definition rpc_result :: "near_dump_env \<Rightarrow> nat \<Rightarrow> string \<Rightarrow> js_value \<Rightarrow> js_value res" where
  "rpc_result E i meth params =
     res_bind (nd_rpc E i (JObj [(''jsonrpc'', JStr ''2.0''), (''id'', JStr ''dontcare''), (''method'', JStr meth), (''params'', params)])) (\<lambda>data.
     js_get data ''result'')"

definition getLatestBlock :: "near_dump_env \<Rightarrow> nat \<Rightarrow> js_value res" where
  "getLatestBlock E i = rpc_result E i ''block'' (JObj [(''finality'', JStr ''final'')])"

definition getBlockChunk :: "near_dump_env \<Rightarrow> nat \<Rightarrow> js_value \<Rightarrow> js_value res" where
  "getBlockChunk E i block =
     res_bind (js_get block ''chunks'') (\<lambda>chunks.
     res_bind (js_first chunks) (\<lambda>chunk.
     res_bind (js_get chunk ''chunk_hash'') (\<lambda>h.
     rpc_result E i ''chunk'' (JArr [h]))))"

text \<open>\<^verbatim>\<open>block.header.hash\<close> and \<^verbatim>\<open>block.header.height\<close>\<close>

definition head_hash :: "js_value \<Rightarrow> js_value res" where
  "head_hash block = res_bind (js_get block ''header'') (\<lambda>header. js_get header ''hash'')"

definition head_height :: "js_value \<Rightarrow> js_value res" where
  "head_height block = res_bind (js_get block ''header'') (\<lambda>header. js_get header ''height'')"

definition getTxProof :: "near_dump_env \<Rightarrow> nat \<Rightarrow> js_value \<Rightarrow> js_value \<Rightarrow> js_value res" where
  "getTxProof E i futureBlock txn =
     res_bind (js_get txn ''hash'') (\<lambda>h.
     res_bind (js_get txn ''receiver_id'') (\<lambda>receiver.
     res_bind (js_get txn ''signer_id'') (\<lambda>signer.
     res_bind (head_hash futureBlock) (\<lambda>lightHead.
     rpc_result E i ''light_client_proof'' (JObj [(''type'', JStr ''transaction''), (''transaction_hash'', h),
       (''receiver_id'', receiver), (''sender_id'', signer), (''light_client_head'', lightHead)])))))"

definition getReceiptProof :: "near_dump_env \<Rightarrow> nat \<Rightarrow> js_value \<Rightarrow> js_value \<Rightarrow> js_value res" where
  "getReceiptProof E i futureBlock receipt =
     res_bind (js_get receipt ''receipt_id'') (\<lambda>rid.
     res_bind (js_get receipt ''receiver_id'') (\<lambda>receiver.
     res_bind (head_hash futureBlock) (\<lambda>lightHead.
     rpc_result E i ''light_client_proof'' (JObj [(''type'', JStr ''receipt''), (''receipt_id'', rid),
       (''receiver_id'', receiver), (''light_client_head'', lightHead)]))))"

definition getNextLightClientBlock :: "near_dump_env \<Rightarrow> nat \<Rightarrow> js_value \<Rightarrow> js_value res" where
  "getNextLightClientBlock E i blockHash = rpc_result E i ''next_light_client_block'' (JArr [blockHash])"

section \<open>Saving\<close>

text \<open>\<^verbatim>\<open>Path.join(path, name)\<close>: the option \<^verbatim>\<open>--path\<close> may be missing.\<close>

definition file_in :: "js_value \<Rightarrow> string \<Rightarrow> string res" where
  "file_in path name = (case path of JStr p \<Rightarrow> Inr (path_join [p, name]) | _ \<Rightarrow> Inl JsTypeError)"

definition saveBlock :: "near_dump_env \<Rightarrow> js_value \<Rightarrow> js_value \<Rightarrow> js_value \<Rightarrow> (dump_effect, unit) run" where
  "saveBlock E i block path =
     run_bind (run_ask (file_in path (js_text (nd_text E) i @ ''.json''))) (\<lambda>file.
     run_do (WriteFile file block) (nd_write E file block))"

definition proof_name :: "(js_value \<Rightarrow> string) \<Rightarrow> js_value \<Rightarrow> string \<Rightarrow> string \<Rightarrow> string" where
  "proof_name other blockI kind i = js_text other blockI @ ''_'' @ kind @ ''_'' @ i @ ''.json''"

definition saveProof :: "near_dump_env \<Rightarrow> js_value \<Rightarrow> string \<Rightarrow> string \<Rightarrow> js_value \<Rightarrow> js_value \<Rightarrow> (dump_effect, unit) run" where
  "saveProof E blockI kind i prf path =
     run_bind (run_ask (file_in path (proof_name (nd_text E) blockI kind i))) (\<lambda>file.
     run_do (WriteFile file prf) (nd_write E file prf))"

section \<open>Headers\<close>

text \<open>The inner loop waits for a light client block after the new head; it returns the number of the next request too.\<close>

fun next_light_block :: "nat \<Rightarrow> near_dump_env \<Rightarrow> nat \<Rightarrow> js_value \<Rightarrow> (js_value \<times> nat) option res" where
  "next_light_block 0 E i blockHash = Inr None"
| "next_light_block (Suc fuel) E i blockHash =
     res_bind (getNextLightClientBlock E i blockHash) (\<lambda>block.
     if truthy block then Inr (Some (block, Suc i)) else next_light_block fuel E (Suc i) blockHash)"

definition light_height :: "js_value \<Rightarrow> js_value res" where
  "light_height block = res_bind (js_get block ''inner_lite'') (\<lambda>lite. js_get lite ''height'')"

fun headers_loop :: "nat \<Rightarrow> near_dump_env \<Rightarrow> js_value \<Rightarrow> nat \<Rightarrow> js_value \<Rightarrow> nat \<Rightarrow> (dump_effect, bool) run" where
  "headers_loop fuel E path i latestBlock 0 = run_ret True"
| "headers_loop 0 E path i latestBlock numBlocks = run_ret False"
| "headers_loop (Suc fuel) E path i latestBlock (Suc numBlocks) =
     run_bind (run_ask (getLatestBlock E i)) (\<lambda>newLatestBlock.
     run_bind (run_ask (head_height newLatestBlock)) (\<lambda>newHeight.
     run_bind (run_ask (head_height latestBlock)) (\<lambda>oldHeight.
     if js_gt newHeight oldHeight
     then run_bind (run_ask (res_bind (head_hash newLatestBlock) (next_light_block fuel E (Suc i)))) (\<lambda>found.
       case found of
         None \<Rightarrow> run_ret False
       | Some (block, j) \<Rightarrow>
           run_bind (run_ask (light_height block)) (\<lambda>blockHeight.
           run_bind (saveBlock E blockHeight block path) (\<lambda>_.
           headers_loop fuel E path j newLatestBlock numBlocks)))
     else headers_loop fuel E path (Suc i) latestBlock (Suc numBlocks))))"

definition dumpHeaders :: "nat \<Rightarrow> near_dump_env \<Rightarrow> js_value \<Rightarrow> nat \<Rightarrow> js_value \<Rightarrow> nat \<Rightarrow> (dump_effect, bool) run" where
  "dumpHeaders fuel E path i latestBlock numBlocks =
     run_bind (run_ask (head_height latestBlock)) (\<lambda>_. headers_loop fuel E path i latestBlock numBlocks)"

section \<open>Proofs\<close>

text \<open>
  The two loops over a chunk; they return the number of the next request. The kind is \<^verbatim>\<open>txn\<close> or
  \<^verbatim>\<open>receipt\<close>, and \<open>get\<close> the request for one item.
\<close>

fun save_proofs :: "near_dump_env \<Rightarrow> js_value \<Rightarrow> js_value \<Rightarrow> string \<Rightarrow> (nat \<Rightarrow> js_value \<Rightarrow> js_value res) \<Rightarrow> nat \<Rightarrow> (string \<times> js_value) list \<Rightarrow> (dump_effect, nat) run" where
  "save_proofs E path latestBlock kind get i [] = run_ret i"
| "save_proofs E path latestBlock kind get i ((k, item) # items) =
     run_bind (run_ask (get i item)) (\<lambda>prf.
     run_bind (run_ask (head_height latestBlock)) (\<lambda>hgt.
     run_bind (saveProof E hgt kind k prf path) (\<lambda>_.
     save_proofs E path latestBlock kind get (Suc i) items)))"

definition save_chunk :: "near_dump_env \<Rightarrow> js_value \<Rightarrow> nat \<Rightarrow> js_value \<Rightarrow> js_value \<Rightarrow> (dump_effect, nat) run" where
  "save_chunk E path i latestBlock newLatestBlock =
     run_bind (run_ask (getBlockChunk E i latestBlock)) (\<lambda>chunk.
     run_bind (run_ask (js_get chunk ''transactions'')) (\<lambda>transactions.
     run_bind (run_ask (js_get transactions ''length'')) (\<lambda>_.
     run_bind (run_ask (js_get chunk ''receipts'')) (\<lambda>receipts.
     run_bind (run_ask (js_get receipts ''length'')) (\<lambda>_.
     run_bind (save_proofs E path latestBlock ''txn'' (\<lambda>i. getTxProof E i newLatestBlock) (Suc i) (js_entries transactions)) (\<lambda>j.
     save_proofs E path latestBlock ''receipt'' (\<lambda>i. getReceiptProof E i newLatestBlock) j (js_entries receipts)))))))"

fun proofs_loop :: "nat \<Rightarrow> near_dump_env \<Rightarrow> js_value \<Rightarrow> nat \<Rightarrow> js_value \<Rightarrow> nat \<Rightarrow> (dump_effect, bool) run" where
  "proofs_loop fuel E path i latestBlock 0 = run_ret True"
| "proofs_loop 0 E path i latestBlock numBlocks = run_ret False"
| "proofs_loop (Suc fuel) E path i latestBlock (Suc numBlocks) =
     run_bind (run_ask (getLatestBlock E i)) (\<lambda>newLatestBlock.
     run_bind (run_ask (head_height newLatestBlock)) (\<lambda>newHeight.
     run_bind (run_ask (head_height latestBlock)) (\<lambda>oldHeight.
     if js_gt newHeight oldHeight
     then run_bind (save_chunk E path (Suc i) latestBlock newLatestBlock) (\<lambda>j.
       proofs_loop fuel E path j newLatestBlock numBlocks)
     else proofs_loop fuel E path (Suc i) latestBlock (Suc numBlocks))))"

definition dumpProofs :: "nat \<Rightarrow> near_dump_env \<Rightarrow> js_value \<Rightarrow> nat \<Rightarrow> js_value \<Rightarrow> nat \<Rightarrow> (dump_effect, bool) run" where
  "dumpProofs fuel E path i latestBlock numBlocks =
     run_bind (run_ask (head_height latestBlock)) (\<lambda>_. proofs_loop fuel E path i latestBlock numBlocks)"

text \<open>
  The command. The option \<^verbatim>\<open>--num-blocks\<close> is a text: \<open>None\<close> when it is missing or empty, and otherwise the number
  \<open>numBlocks > 0\<close> compares, a text that is no number being \<open>0\<close>.
\<close>

definition NearDump :: "nat \<Rightarrow> near_dump_env \<Rightarrow> string \<Rightarrow> js_value \<Rightarrow> nat option \<Rightarrow> (dump_effect, bool) run" where
  "NearDump fuel E kindOfData path numBlocks =
     run_bind (if kindOfData \<noteq> ''headers'' \<and> kindOfData \<noteq> ''proofs''
       then run_do Usage (Inl (ProcessExit 2)) else run_ret ()) (\<lambda>_.
     let n = (case numBlocks of None \<Rightarrow> 100 | Some k \<Rightarrow> k) in
     run_bind (run_ask (getLatestBlock E 0)) (\<lambda>latestBlock.
     if kindOfData = ''headers'' then dumpHeaders fuel E path 1 latestBlock n
     else dumpProofs fuel E path 1 latestBlock n))"

section \<open>File names are distinct\<close>

text \<open>The name is what follows the last slash of the path.\<close>

definition plain_name :: "string \<Rightarrow> bool" where
  "plain_name s \<longleftrightarrow> CHR ''/'' \<notin> set s \<and> s \<noteq> '''' \<and> s \<noteq> ''.'' \<and> s \<noteq> ''..''"

lemma split_char_last: "c \<notin> set w \<Longrightarrow> \<exists>v ws. split_char c (xs @ c # w) = v # ws @ [w]"
proof (induction xs)
  case Nil
  have "split_char c w = [w]" using Nil by (induction w) auto
  then show ?case by simp
next
  case (Cons x xs)
  then obtain v ws where "split_char c (xs @ c # w) = v # ws @ [w]" by blast
  then show ?case by (cases "x = c") auto
qed

lemma norm_segments_last:
  "plain_name w \<Longrightarrow> \<exists>vs. norm_segments ab st (ws @ [w]) = vs @ [w]"
  by (induction ab st ws rule: norm_segments.induct) (auto simp: plain_name_def split: list.splits)

lemma join_char_snoc: "join_char c (vs @ [w]) = (if vs = [] then w else join_char c vs @ c # w)"
  by (induction c vs rule: join_char.induct) auto

lemma path_join_name:
  assumes "plain_name w"
  shows "\<exists>dir. path_join [p, w] = dir @ w \<and> (dir = [] \<or> last dir = CHR ''/'')"
proof -
  have w: "w \<noteq> ''''" "CHR ''/'' \<notin> set w" using assms by (auto simp: plain_name_def)
  have lw: "last w \<noteq> CHR ''/''" using w last_in_set [of w] by metis
  define q where "q = (if p = '''' then w else p @ ''/'' @ w)"
  have q: "q \<noteq> ''''" "last q \<noteq> CHR ''/''" "path_join [p, w] = path_normalize q"
    using w lw by (auto simp: q_def path_join_def)
  have "\<exists>ws. split_char (CHR ''/'') q = ws @ [w]"
  proof (cases "p = ''''")
    case True
    have "split_char (CHR ''/'') w = [w]" using w(2) by (induction w) auto
    then show ?thesis using True by (simp add: q_def)
  next
    case False
    then show ?thesis using split_char_last [OF w(2), of p] by (auto simp: q_def intro: exI [of _ "_ # _"])
  qed
  then obtain vs where vs: "norm_segments (hd q = CHR ''/'') [] (split_char (CHR ''/'') q) = vs @ [w]"
    using norm_segments_last [OF assms] by metis
  have "path_join [p, w] = (if hd q = CHR ''/'' then ''/'' else '''') @ join_char (CHR ''/'') (vs @ [w])"
    unfolding q(3) path_normalize_def Let_def vs using q(1,2) w by (auto simp: join_char_snoc)
  also have "\<dots> = ((if hd q = CHR ''/'' then ''/'' else '''') @ (if vs = [] then [] else join_char (CHR ''/'') vs @ ''/'')) @ w"
    by (simp add: join_char_snoc)
  finally show ?thesis by (intro exI conjI) (auto split: if_splits)
qed

lemma name_of_path:
  assumes "plain_name w"
  shows "takeWhile (\<lambda>c. c \<noteq> CHR ''/'') (rev (path_join [p, w])) = rev w"
proof -
  obtain dir where d: "path_join [p, w] = dir @ w" "dir = [] \<or> last dir = CHR ''/''"
    using path_join_name [OF assms] by blast
  have "takeWhile (\<lambda>c. c \<noteq> CHR ''/'') (rev dir) = []"
    using d(2) by (cases dir rule: rev_cases) auto
  moreover have "takeWhile (\<lambda>c. c \<noteq> CHR ''/'') (rev w @ rev dir) = rev w @ takeWhile (\<lambda>c. c \<noteq> CHR ''/'') (rev dir)"
    using assms by (intro takeWhile_append2) (auto simp: plain_name_def)
  ultimately show ?thesis by (simp add: d(1))
qed

lemma path_join_inject:
  "plain_name v \<Longrightarrow> plain_name w \<Longrightarrow> path_join [p, v] = path_join [p, w] \<longleftrightarrow> v = w"
  by (metis name_of_path rev_rev_ident)

text \<open>A saved proof is identified by the height of its block, its kind and its index in the chunk.\<close>

type_synonym proof_key = "nat \<times> string \<times> nat"

definition key_name :: "proof_key \<Rightarrow> string" where
  "key_name = (\<lambda>(h, kind, i). proof_name (\<lambda>_. '''') (JInt (int h)) kind (decimal i))"

definition key_ok :: "proof_key \<Rightarrow> bool" where
  "key_ok = (\<lambda>(h, kind, i). kind = ''txn'' \<or> kind = ''receipt'')"

lemma digits_prefix_inject:
  assumes "\<forall>c\<in>set xs. is_digit c" "\<forall>c\<in>set ys. is_digit c" "\<not> is_digit c" "\<not> is_digit d" "xs @ c # a = ys @ d # b"
  shows "xs = ys \<and> c # a = d # b"
proof -
  have "takeWhile is_digit (xs @ c # a) = xs" "takeWhile is_digit (ys @ d # b) = ys"
    using assms(1-4) by (simp_all add: takeWhile_append2)
  then show ?thesis using assms(5) by auto
qed

lemma key_name_inject: "key_ok k \<Longrightarrow> key_ok l \<Longrightarrow> key_name k = key_name l \<Longrightarrow> k = l"
proof -
  assume ok: "key_ok k" "key_ok l" and eq: "key_name k = key_name l"
  obtain h kind i where k: "k = (h, kind, i)" using prod_cases3 by blast
  obtain h' kind' i' where l: "l = (h', kind', i')" using prod_cases3 by blast
  have nd: "\<not> is_digit CHR ''_''" "\<not> is_digit CHR ''.''" by (simp_all add: is_digit_def)
  have "decimal h = decimal h' \<and> CHR ''_'' # kind @ ''_'' @ decimal i @ ''.json'' = CHR ''_'' # kind' @ ''_'' @ decimal i' @ ''.json''"
    using eq nd by (intro digits_prefix_inject) (auto simp: k l key_name_def proof_name_def dec_digits)
  then have h: "h = h'" and rest: "kind @ ''_'' @ decimal i @ ''.json'' = kind' @ ''_'' @ decimal i' @ ''.json''"
    by (simp_all add: dec_inject)
  have kind: "kind = kind'" using rest ok by (auto simp: k l key_ok_def)
  with rest have "decimal i @ CHR ''.'' # ''json'' = decimal i' @ CHR ''.'' # ''json''" by simp
  then show "k = l" by (simp add: k l h kind dec_inject)
qed

lemma key_name_plain: "key_ok k \<Longrightarrow> plain_name (key_name k)"
proof -
  obtain h kind i where k: "k = (h, kind, i)" using prod_cases3 by blast
  assume "key_ok k"
  moreover have "CHR ''/'' \<notin> set (decimal n)" for n using dec_digits [of n] by (auto simp: is_digit_def)
  ultimately show ?thesis
    using dec_Cons [of h] by (auto simp: k key_ok_def key_name_def proof_name_def plain_name_def)
qed

fun written :: "dump_effect \<Rightarrow> string" where
  "written (WriteFile f v) = f"
| "written Usage = ''''"

definition key_file :: "js_value \<Rightarrow> proof_key \<Rightarrow> string" where
  "key_file path k = (case path of JStr p \<Rightarrow> path_join [p, key_name k] | _ \<Rightarrow> '''')"

lemma distinct_files:
  assumes "distinct ks" "\<forall>k\<in>set ks. key_ok k"
  shows "distinct (map (key_file (JStr p)) ks)"
proof -
  have "inj_on (key_file (JStr p)) (set ks)"
    using assms(2) key_name_inject path_join_inject key_name_plain
    unfolding inj_on_def key_file_def js_value.case by metis
  then show ?thesis using assms(1) by (simp add: distinct_map)
qed

text \<open>What the node is taken to answer: heads have a height, and a chunk has its two arrays.\<close>

definition node_ok :: "near_dump_env \<Rightarrow> bool" where
  "node_ok E \<longleftrightarrow> (\<forall>i b. getLatestBlock E i = Inr b \<longrightarrow> (\<exists>h. head_height b = Inr (JInt (int h))))
     \<and> (\<forall>i b c. getBlockChunk E i b = Inr c \<longrightarrow>
          (\<exists>ts rs. js_get c ''transactions'' = Inr (JArr ts) \<and> js_get c ''receipts'' = Inr (JArr rs)))"

lemma saveProof_writes:
  assumes "\<forall>x. fst (f x) = [] \<or> map written (fst (f x)) = map (key_file path) ks"
  shows "fst (run_bind (saveProof E (JInt (int h)) kind (decimal i) prf path) f) = []
    \<or> map written (fst (run_bind (saveProof E (JInt (int h)) kind (decimal i) prf path) f)) = [key_file path (h, kind, i)]
    \<or> map written (fst (run_bind (saveProof E (JInt (int h)) kind (decimal i) prf path) f)) = map (key_file path) ((h, kind, i) # ks)"
proof (cases path)
  case (JStr p)
  let ?f = "path_join [p, proof_name (nd_text E) (JInt (int h)) kind (decimal i)]"
  have fl: "key_file path (h, kind, i) = ?f" by (simp add: JStr key_file_def key_name_def proof_name_def)
  show ?thesis
    using assms by (cases "nd_write E ?f prf") (auto simp: saveProof_def file_in_def JStr run_simps simp flip: fl)
qed (auto simp: saveProof_def file_in_def run_simps)

definition keys_from :: "nat \<Rightarrow> string \<Rightarrow> nat \<Rightarrow> nat \<Rightarrow> proof_key list" where
  "keys_from h kind a n = map (\<lambda>i. (h, kind, i)) [a..<a + n]"

lemma save_proofs_writes:
  assumes "head_height b = Inr (JInt (int h))"
  shows "\<exists>m. map written (fst (save_proofs E path b kind get j (zip (map decimal [a..<a + length vs]) vs))) = map (key_file path) (keys_from h kind a m)"
proof (induction vs arbitrary: a j)
  case Nil
  show ?case by (intro exI [of _ 0]) (simp add: keys_from_def)
next
  case (Cons v vs)
  have up: "[a..<a + length (v # vs)] = a # [Suc a..<Suc a + length vs]" by (simp add: upt_conv_Cons del: upt_Suc)
  show ?case
  proof (cases "get j v")
    case (Inl e)
    then show ?thesis unfolding up by (intro exI [of _ 0]) (simp add: run_simps keys_from_def del: upt_Suc)
  next
    case (Inr pr)
    obtain m where m: "map written (fst (save_proofs E path b kind get (Suc j) (zip (map decimal [Suc a..<Suc a + length vs]) vs)))
      = map (key_file path) (keys_from h kind (Suc a) m)" using Cons.IH by blast
    let ?r = "save_proofs E path b kind get j (zip (map decimal [a..<a + length (v # vs)]) (v # vs))"
    have r: "?r = run_bind (saveProof E (JInt (int h)) kind (decimal a) pr path) (\<lambda>_.
        save_proofs E path b kind get (Suc j) (zip (map decimal [Suc a..<Suc a + length vs]) vs))"
      unfolding up by (simp add: run_simps Inr assms del: upt_Suc)
    have k: "keys_from h kind a 0 = []" "keys_from h kind a 1 = [(h, kind, a)]"
      "keys_from h kind a (Suc m) = (h, kind, a) # keys_from h kind (Suc a) m"
      by (simp_all add: keys_from_def upt_conv_Cons del: upt_Suc)
    have "fst ?r = [] \<or> map written (fst ?r) = map (key_file path) [(h, kind, a)]
        \<or> map written (fst ?r) = map (key_file path) ((h, kind, a) # keys_from h kind (Suc a) m)"
      unfolding r list.map using saveProof_writes [of "\<lambda>_. save_proofs E path b kind get (Suc j) (zip (map decimal [Suc a..<Suc a + length vs]) vs)"
        path "keys_from h kind (Suc a) m" E h kind a pr] m unfolding list.map by blast
    then show ?thesis using k by (metis list.map(1))
  qed
qed

text \<open>A round writes files of one block only.\<close>

lemma save_chunk_writes:
  assumes "node_ok E" "head_height b = Inr (JInt (int h))"
  shows "\<exists>ks. map written (fst (save_chunk E path i b nb)) = map (key_file path) ks \<and> distinct ks
    \<and> (\<forall>k\<in>set ks. key_ok k \<and> fst k = h)"
proof (cases "getBlockChunk E i b")
  case (Inl e)
  then show ?thesis by (intro exI [of _ "[]"]) (simp add: save_chunk_def run_simps)
next
  case (Inr c)
  then obtain ts rs where c: "js_get c ''transactions'' = Inr (JArr ts)" "js_get c ''receipts'' = Inr (JArr rs)"
    using assms(1) unfolding node_ok_def by blast
  let ?t = "save_proofs E path b ''txn'' (\<lambda>i. getTxProof E i nb) (Suc i) (indexed ts)"
  let ?r = "\<lambda>j. save_proofs E path b ''receipt'' (\<lambda>i. getReceiptProof E i nb) j (indexed rs)"
  obtain m where m: "map written (fst ?t) = map (key_file path) (keys_from h ''txn'' 0 m)"
    using save_proofs_writes [OF assms(2), where a = 0] by (fastforce simp: indexed_def)
  have "\<exists>n. map written (case snd ?t of Inl _ \<Rightarrow> [] | Inr j \<Rightarrow> fst (?r j)) = map (key_file path) (keys_from h ''receipt'' 0 n)"
  proof (cases "snd ?t")
    case (Inl e)
    then show ?thesis by (intro exI [of _ 0]) (simp add: keys_from_def)
  next
    case (Inr j)
    then show ?thesis using save_proofs_writes [OF assms(2), where a = 0 and j = j] by (simp add: indexed_def)
  qed
  then obtain n where n: "map written (case snd ?t of Inl _ \<Rightarrow> [] | Inr j \<Rightarrow> fst (?r j)) = map (key_file path) (keys_from h ''receipt'' 0 n)" ..
  have "save_chunk E path i b nb = run_bind ?t ?r"
    by (simp add: save_chunk_def Inr c run_simps length_or_undefined_def)
  then have "map written (fst (save_chunk E path i b nb)) = map (key_file path) (keys_from h ''txn'' 0 m @ keys_from h ''receipt'' 0 n)"
    using m n by (simp add: run_bind_effects)
  moreover have "distinct (keys_from h ''txn'' 0 m @ keys_from h ''receipt'' 0 n)"
    and "\<forall>k\<in>set (keys_from h ''txn'' 0 m @ keys_from h ''receipt'' 0 n). key_ok k \<and> fst k = h"
    by (auto simp: keys_from_def key_ok_def distinct_map inj_on_def)
  ultimately show ?thesis by blast
qed

lemma proofs_loop_writes:
  assumes "node_ok E" "head_height b = Inr (JInt (int h))"
  shows "\<exists>ks. map written (fst (proofs_loop fuel E path i b n)) = map (key_file path) ks \<and> distinct ks
    \<and> (\<forall>k\<in>set ks. key_ok k \<and> h \<le> fst k)"
  using assms(2)
proof (induction fuel arbitrary: i b n h)
  case 0
  then show ?case by (cases n) (auto intro!: exI [of _ "[]"])
next
  case (Suc fuel)
  show ?case
  proof (cases "n = 0 \<or> isl (getLatestBlock E i)")
    case True
    then show ?thesis
      by (intro exI [of _ "[]"]) (cases n; cases "getLatestBlock E i"; auto simp: run_simps)
  next
    case False
    then obtain l nb where n: "n = Suc l" and nb: "getLatestBlock E i = Inr nb" by (cases n; cases "getLatestBlock E i") auto
    then obtain h' where h': "head_height nb = Inr (JInt (int h'))" using assms(1) unfolding node_ok_def by blast
    show ?thesis
    proof (cases "h < h'")
      case False
      then show ?thesis using Suc.IH [OF Suc.prems, of "Suc i" n] Suc.prems h' nb by (simp add: n run_simps js_gt_def)
    next
      case True
      let ?s = "save_chunk E path (Suc i) b nb"
      obtain ks where ks: "map written (fst ?s) = map (key_file path) ks" "distinct ks" "\<forall>k\<in>set ks. key_ok k \<and> fst k = h"
        using save_chunk_writes [OF assms(1) Suc.prems] by blast
      obtain ls where ls: "map written (case snd ?s of Inl _ \<Rightarrow> [] | Inr j \<Rightarrow> fst (proofs_loop fuel E path j nb l)) = map (key_file path) ls"
          "distinct ls" "\<forall>k\<in>set ls. key_ok k \<and> h' \<le> fst k"
      proof (cases "snd ?s")
        case (Inl e)
        then show ?thesis using that [of "[]"] by simp
      next
        case (Inr j)
        then show ?thesis using Suc.IH [OF h', of j l] that by auto
      qed
      have "proofs_loop (Suc fuel) E path i b n = run_bind ?s (\<lambda>j. proofs_loop fuel E path j nb l)"
        using Suc.prems h' nb True by (simp add: n run_simps js_gt_def)
      then have "map written (fst (proofs_loop (Suc fuel) E path i b n)) = map (key_file path) (ks @ ls)"
        using ks(1) ls(1) by (simp add: run_bind_effects)
      moreover have "distinct (ks @ ls)" using ks(2,3) ls(2,3) True by fastforce
      moreover have "\<forall>k\<in>set (ks @ ls). key_ok k \<and> h \<le> fst k" using ks(3) ls(3) True by fastforce
      ultimately show ?thesis by blast
    qed
  qed
qed

text \<open>
  No saved proof is lost: whatever number of blocks \<^verbatim>\<open>near-dump proofs\<close> saves, it never writes a file twice, so every
  proof it fetched for a transaction or a receipt is in a file of its own, named by the height, the kind and the index.
\<close>

lemma near_dump_keeps_proofs:
  assumes "node_ok E"
  shows "distinct (map written (fst (NearDump fuel E ''proofs'' (JStr p) numBlocks)))"
proof (cases "getLatestBlock E 0")
  case (Inl e)
  then show ?thesis by (simp add: NearDump_def run_simps)
next
  case (Inr b)
  then obtain h where h: "head_height b = Inr (JInt (int h))" using assms unfolding node_ok_def by blast
  let ?n = "case numBlocks of None \<Rightarrow> 100 | Some k \<Rightarrow> k"
  obtain ks where ks: "map written (fst (proofs_loop fuel E (JStr p) 1 b ?n)) = map (key_file (JStr p)) ks"
      "distinct ks" "\<forall>k\<in>set ks. key_ok k \<and> h \<le> fst k"
    using proofs_loop_writes [OF assms h] by blast
  have "fst (NearDump fuel E ''proofs'' (JStr p) numBlocks) = fst (proofs_loop fuel E (JStr p) 1 b ?n)"
    by (simp add: NearDump_def dumpProofs_def run_simps Inr h)
  with ks show ?thesis using distinct_files [of ks p] by simp
qed

section \<open>The dump of headers ends\<close>

text \<open>
  A node that answers, on a chain that goes on: every request for a head or for the next light client block
  is answered, heads grow beyond every height, after every head there is sooner or later a light client block, and files can be written.
\<close>

definition live_node :: "near_dump_env \<Rightarrow> bool" where
  "live_node E \<longleftrightarrow>
     (\<forall>i. \<exists>b h x. getLatestBlock E i = Inr b \<and> head_height b = Inr (JInt (int h)) \<and> head_hash b = Inr x)
   \<and> (\<forall>i h. \<exists>j\<ge>i. \<exists>b h'. getLatestBlock E j = Inr b \<and> head_height b = Inr (JInt (int h')) \<and> h < h')
   \<and> (\<forall>i x. \<exists>v. getNextLightClientBlock E i x = Inr v \<and> (truthy v \<longrightarrow> (\<exists>w. light_height v = Inr w)))
   \<and> (\<forall>i x. \<exists>j\<ge>i. \<exists>v. getNextLightClientBlock E j x = Inr v \<and> truthy v)
   \<and> (\<forall>f v. nd_write E f v = Inr ())"

lemma live_nodeD:
  assumes "live_node E"
  shows "\<exists>b h x. getLatestBlock E i = Inr b \<and> head_height b = Inr (JInt (int h)) \<and> head_hash b = Inr x"
    and "\<exists>j\<ge>i. \<exists>b h'. getLatestBlock E j = Inr b \<and> head_height b = Inr (JInt (int h')) \<and> h < h'"
    and "\<exists>v. getNextLightClientBlock E i x = Inr v \<and> (truthy v \<longrightarrow> (\<exists>w. light_height v = Inr w))"
    and "\<exists>j\<ge>i. \<exists>v. getNextLightClientBlock E j x = Inr v \<and> truthy v"
    and "nd_write E f y = Inr ()"
  using assms unfolding live_node_def by blast+

lemma next_light_block_ends:
  assumes "live_node E"
  shows "\<exists>f v j w. (\<forall>f'\<ge>f. next_light_block f' E i x = Inr (Some (v, j))) \<and> light_height v = Inr w"
proof -
  obtain j v where j: "i \<le> j" "getNextLightClientBlock E j x = Inr v" "truthy v"
    using live_nodeD(4) [OF assms] by blast
  show ?thesis
    using j(1)
  proof (induction "j - i" arbitrary: i)
    case 0
    then have "i = j" by simp
    obtain w where w: "light_height v = Inr w" using live_nodeD(3) [OF assms, of j x] j by auto
    have "next_light_block f' E i x = Inr (Some (v, Suc j))" if "f' \<ge> 1" for f'
      using that j \<open>i = j\<close> by (cases f') simp_all
    with w show ?case by blast
  next
    case (Suc d)
    obtain u where u: "getNextLightClientBlock E i x = Inr u" "truthy u \<longrightarrow> (\<exists>w. light_height u = Inr w)"
      using live_nodeD(3) [OF assms] by blast
    show ?case
    proof (cases "truthy u")
      case True
      then obtain w where w: "light_height u = Inr w" using u by blast
      have "next_light_block f' E i x = Inr (Some (u, Suc i))" if "f' \<ge> 1" for f'
        using that u True by (cases f') simp_all
      with w show ?thesis by blast
    next
      case False
      have "d = j - Suc i" "Suc i \<le> j" using Suc.hyps(2) Suc.prems by auto
      then obtain f v' k w where f: "\<forall>f'\<ge>f. next_light_block f' E (Suc i) x = Inr (Some (v', k))" "light_height v' = Inr w"
        using Suc.hyps(1) by blast
      have "next_light_block f' E i x = Inr (Some (v', k))" if "f' \<ge> Suc f" for f'
        using that u False f(1) by (cases f') simp_all
      with f(2) show ?thesis by blast
    qed
  qed
qed

lemma headers_loop_poll:
  assumes "getLatestBlock E i = Inr b'" "head_height b' = Inr (JInt (int h'))" "head_height b = Inr (JInt (int h))" "h' \<le> h"
  shows "headers_loop (Suc f) E path i b (Suc n) = headers_loop f E path (Suc i) b (Suc n)"
  using assms by (simp add: run_simps js_gt_def)

lemma headers_loop_save:
  assumes "getLatestBlock E i = Inr b'" "head_height b' = Inr (JInt (int h'))" "head_height b = Inr (JInt (int h))" "h < h'"
    and "head_hash b' = Inr x" "next_light_block f E (Suc i) x = Inr (Some (v, j))" "light_height v = Inr w"
    and "\<And>fl y. nd_write E fl y = Inr ()"
  shows "headers_loop (Suc f) E (JStr p) i b (Suc n)
    = run_bind ([WriteFile (path_join [p, js_text (nd_text E) w @ ''.json'']) v], Inr ()) (\<lambda>_. headers_loop f E (JStr p) j b' n)"
  using assms by (simp add: run_simps js_gt_def saveBlock_def file_in_def)

lemma headers_round_ends:
  assumes "live_node E" "head_height b = Inr (JInt (int h))"
    and head: "getLatestBlock E i = Inr b'" "head_height b' = Inr (JInt (int h'))" "h < h'"
    and IH: "\<And>i b h. head_height b = Inr (JInt (int h)) \<Longrightarrow>
      \<exists>f fs. (\<forall>f'\<ge>f. headers_loop f' E (JStr p) i b n = (fs, Inr True)) \<and> length fs = n"
  shows "\<exists>f fs. (\<forall>f'\<ge>f. headers_loop f' E (JStr p) i b (Suc n) = (fs, Inr True)) \<and> length fs = Suc n"
proof -
  obtain x where x: "head_hash b' = Inr x" using live_nodeD(1) [OF assms(1), of i] head(1) by auto
  obtain f1 v j w where f1: "\<forall>f'\<ge>f1. next_light_block f' E (Suc i) x = Inr (Some (v, j))" "light_height v = Inr w"
    using next_light_block_ends [OF assms(1)] by blast
  obtain f2 fs where f2: "\<forall>f'\<ge>f2. headers_loop f' E (JStr p) j b' n = (fs, Inr True)" "length fs = n"
    using IH [OF head(2)] by blast
  let ?w = "WriteFile (path_join [p, js_text (nd_text E) w @ ''.json'']) v"
  have "headers_loop f' E (JStr p) i b (Suc n) = (?w # fs, Inr True)" if "f' \<ge> Suc (max f1 f2)" for f'
  proof (cases f')
    case (Suc g)
    with that have g: "g \<ge> f1" "g \<ge> f2" by auto
    then show ?thesis
      using headers_loop_save [OF head(1,2) assms(2) head(3) x _ f1(2) live_nodeD(5) [OF assms(1)], of g j] f1(1) f2(1)
      by (simp add: Suc run_simps del: headers_loop.simps)
  qed (use that in simp)
  with f2(2) show ?thesis by (intro exI [of _ "Suc (max f1 f2)"] exI [of _ "?w # fs"]) simp
qed

lemma headers_loop_ends:
  assumes "live_node E" "head_height b = Inr (JInt (int h))"
  shows "\<exists>f fs. (\<forall>f'\<ge>f. headers_loop f' E (JStr p) i b n = (fs, Inr True)) \<and> length fs = n"
  using assms(2)
proof (induction n arbitrary: i b h)
  case 0
  then show ?case by (auto simp: run_ret_def)
next
  case (Suc n)
  note outer = Suc.prems and rounds = Suc.IH
  obtain k where k: "i \<le> k" "\<exists>b h'. getLatestBlock E k = Inr b \<and> head_height b = Inr (JInt (int h')) \<and> h < h'"
    using live_nodeD(2) [OF assms(1), of i h] by blast
  show ?case
    using k(1)
  proof (induction "k - i" arbitrary: i)
    case 0
    then have "i = k" by simp
    with k(2) obtain b' h' where head: "getLatestBlock E i = Inr b'" "head_height b' = Inr (JInt (int h'))" "h < h'" by blast
    show ?case by (rule headers_round_ends [OF assms(1) outer head]) (rule rounds)
  next
    case (Suc d)
    obtain b' h' where head: "getLatestBlock E i = Inr b'" "head_height b' = Inr (JInt (int h'))"
      using live_nodeD(1) [OF assms(1), of i] by blast
    show ?case
    proof (cases "h < h'")
      case True
      show ?thesis by (rule headers_round_ends [OF assms(1) outer head True]) (rule rounds)
    next
      case False
      have "d = k - Suc i" "Suc i \<le> k" using Suc.hyps(2) Suc.prems by auto
      then obtain f fs where f: "\<forall>f'\<ge>f. headers_loop f' E (JStr p) (Suc i) b (Suc n) = (fs, Inr True)" "length fs = Suc n"
        using Suc.hyps(1) by blast
      have "headers_loop f' E (JStr p) i b (Suc n) = (fs, Inr True)" if "f' \<ge> Suc f" for f'
        using that f(1) headers_loop_poll [OF head outer] False by (cases f') (simp_all del: headers_loop.simps)
      with f(2) show ?thesis by blast
    qed
  qed
qed

text \<open>
  \<^verbatim>\<open>near-dump headers\<close> ends: against a node that answers on a chain that goes on, it returns after some number of
  requests, having saved exactly as many light client blocks as were asked for, 100 when no number is given.
\<close>

lemma near_dump_headers_ends:
  assumes "live_node E"
  shows "\<exists>fuel fs. NearDump fuel E ''headers'' (JStr p) numBlocks = (fs, Inr True)
    \<and> length fs = (case numBlocks of None \<Rightarrow> 100 | Some n \<Rightarrow> n)"
proof -
  obtain b h where b: "getLatestBlock E 0 = Inr b" "head_height b = Inr (JInt (int h))"
    using live_nodeD(1) [OF assms, of 0] by blast
  obtain f fs where f: "\<forall>f'\<ge>f. headers_loop f' E (JStr p) 1 b (case numBlocks of None \<Rightarrow> 100 | Some n \<Rightarrow> n) = (fs, Inr True)"
      "length fs = (case numBlocks of None \<Rightarrow> 100 | Some n \<Rightarrow> n)"
    using headers_loop_ends [OF assms b(2), of p 1] by blast
  have "NearDump f E ''headers'' (JStr p) numBlocks = (fs, Inr True)"
    using f(1) by (simp add: NearDump_def dumpHeaders_def run_simps b)
  with f(2) show ?thesis by blast
qed

section \<open>A concrete node\<close>

text \<open>A node whose head grows with every request, with two transactions and a receipt in every chunk.\<close>

definition demo_near_node :: "nat \<Rightarrow> js_value \<Rightarrow> js_value res" where
  "demo_near_node i body = Inr (JObj [(''result'',
     if js_prop body ''method'' = JStr ''block''
     then JObj [(''header'', JObj [(''height'', JInt (int i)), (''hash'', JStr ''h'')]),
       (''chunks'', JArr [JObj [(''chunk_hash'', JStr ''c'')]])]
     else if js_prop body ''method'' = JStr ''chunk''
     then JObj [(''transactions'', JArr [JObj [], JObj []]), (''receipts'', JArr [JObj []])]
     else JObj [(''inner_lite'', JObj [(''height'', JInt (int i))])])])"

definition demo_dump_env :: near_dump_env where
  "demo_dump_env = \<lparr>nd_rpc = demo_near_node, nd_write = (\<lambda>_ _. Inr ()), nd_text = (\<lambda>_. '''')\<rparr>"

lemmas demo_dump_simps = demo_dump_env_def demo_near_node_def rpc_result_def getLatestBlock_def getBlockChunk_def
  getNextLightClientBlock_def getTxProof_def getReceiptProof_def head_height_def head_hash_def light_height_def js_prop_def

lemma demo_node_ok: "node_ok demo_dump_env"
  by (auto simp: node_ok_def demo_dump_simps res_bind_eq_Inr_iff)

lemma demo_live_node: "live_node demo_dump_env"
  unfolding live_node_def by (auto simp: demo_dump_simps) (meson le_less_linear less_imp_le lessI le_Suc_eq less_Suc_eq_le nle_le)

end
