(* ===== verification/Eth_Dump.thy ===== *)
theory Eth_Dump
  imports Near_Dump Watchdog
begin

text \<open>
  The command \<^verbatim>\<open>eth-dump\<close>, \<^verbatim>\<open>cli/commands/eth-dump.js\<close>: it saves the headers (with the proof of work data of the relayer
  program) or the proofs of the events of a range of Ethereum blocks, from the last one down.

  The Ethereum node, the RLP encoder, the relayer program and the file system are the record \<open>eth_dump_env\<close>; an error of closing the connection is swallowed; the
  proof extractor is the one of \<^verbatim>\<open>Proof_Extractor\<close>. The command as a whole is not usable: the first theorem below shows that it
  fails on its first statement. What it would do with a connection is \<open>eth_dump_run\<close>.
\<close>

section \<open>Modules\<close>

text \<open>What a module exports: a function that can be called with \<^verbatim>\<open>new\<close>, or an object with the given properties.\<close>

datatype js_module = ExportsConstructor | ExportsObject "string list"

definition utils_module :: js_module where
  "utils_module = ExportsObject utils_exports"

definition eth2near_exports :: "string list" where
  "eth2near_exports = [''Eth2NearRelay'', ''EthProofExtractor'', ''ethashproof'', ''EthOnNearClientContract'',
     ''EthOnNearProverContract'', ''logFromWeb3'', ''receiptFromWeb3'', ''ethToNearFindProof'']"

fun js_new :: "js_module \<Rightarrow> unit res" where
  "js_new ExportsConstructor = Inr ()"
| "js_new (ExportsObject _) = Inl JsTypeError"

section \<open>Blocks and proofs\<close>

record eth_dump_env =
  ed_blockNumber :: "int res"
  ed_getBlock :: "int \<Rightarrow> js_value res"
  ed_blockRlp :: "js_value \<Rightarrow> string res"
  ed_relayer :: "string \<Rightarrow> js_value res"
  ed_lib :: extract_lib
  ed_chain :: eth_chain
  ed_write :: "string \<Rightarrow> js_value \<Rightarrow> unit res"
  ed_text :: "js_value \<Rightarrow> string"
  ed_initialize :: "unit res"
  ed_destroy :: "unit res"

text \<open>\<^verbatim>\<open>buffer.toString('hex')\<close>; what is encoded here are buffers.\<close>

definition buffer_hex :: "bytes \<Rightarrow> js_value" where
  "buffer_hex bs = JStr (concat (map (\<lambda>b. [hex_digit (unat b div 16), hex_digit (unat b mod 16)]) bs))"

fun js_hex :: "js_value \<Rightarrow> js_value res" where
  "js_hex (JBytes bs) = Inr (buffer_hex bs)"
| "js_hex (JStr s) = Inr (JStr s)"
| "js_hex _ = Inl JsTypeError"

definition eth_write :: "eth_dump_env \<Rightarrow> js_value \<Rightarrow> string \<Rightarrow> js_value \<Rightarrow> (dump_effect, unit) run" where
  "eth_write E path name v = run_bind (run_ask (file_in path name)) (\<lambda>file. run_do (WriteFile file v) (ed_write E file v))"

definition eth_saveBlock :: "eth_dump_env \<Rightarrow> int \<Rightarrow> js_value \<Rightarrow> js_value \<Rightarrow> (dump_effect, unit) run" where
  "eth_saveBlock E i block path = eth_write E path (js_text (ed_text E) (JInt i) @ ''.json'') block"

definition eth_dumpHeaders :: "eth_dump_env \<Rightarrow> int \<Rightarrow> js_value \<Rightarrow> (dump_effect, unit) run" where
  "eth_dumpHeaders E b path =
     run_bind (run_ask (ed_getBlock E b)) (\<lambda>blockData.
     run_bind (run_ask (if ''web3BlockToRlp'' \<in> set eth2near_exports then ed_blockRlp E blockData else Inl JsTypeError)) (\<lambda>blockRlp.
     run_bind (run_ask (ed_relayer E blockRlp)) (\<lambda>block.
     eth_saveBlock E b block path)))"

text \<open>The arguments of the prover for one event.\<close>

definition dump_args :: "extract_lib \<Rightarrow> js_value \<Rightarrow> js_value \<Rightarrow> js_value \<Rightarrow> nat \<Rightarrow> js_value res" where
  "dump_args L receipt prf lg logIndex =
     res_bind (js_get prf ''txIndex'') (\<lambda>receiptIndex.
     res_bind (logFromWeb3_serialize L lg) (\<lambda>logEntryData.
     res_bind (receiptFromWeb3_serialize L receipt) (\<lambda>receiptData.
     res_bind (js_get prf ''header_rlp'') (\<lambda>headerData.
     res_bind (js_get prf ''receiptProof'') (\<lambda>receiptProof.
     res_bind (js_iter receiptProof) (\<lambda>nodes.
     res_bind (res_list (map (rlp_encode L) nodes)) (\<lambda>encoded.
     res_bind (js_hex headerData) (\<lambda>header_hex.
     Inr (JObj [(''log_index'', JInt (int logIndex)), (''log_entry_data'', buffer_hex logEntryData),
       (''receipt_index'', receiptIndex), (''receipt_data'', buffer_hex receiptData), (''header_data'', header_hex),
       (''proof'', JArr (map buffer_hex encoded)), (''skip_bridge_call'', JBool False)])))))))))"

fun dump_logs :: "eth_dump_env \<Rightarrow> int \<Rightarrow> js_value \<Rightarrow> js_value \<Rightarrow> js_value \<Rightarrow> nat \<Rightarrow> js_value list \<Rightarrow> (dump_effect, unit) run" where
  "dump_logs E b path receipt prf logIndex [] = run_ret ()"
| "dump_logs E b path receipt prf logIndex (lg # lgs) =
     run_bind (run_ask (dump_args (ed_lib E) receipt prf lg logIndex)) (\<lambda>args.
     run_bind (run_ask (js_get prf ''txIndex'')) (\<lambda>receiptIndex.
     run_bind (eth_write E path (js_text (ed_text E) (JInt b) @ ''_'' @ js_text (ed_text E) receiptIndex @ ''_'' @ decimal logIndex @ ''.json'') args) (\<lambda>_.
     dump_logs E b path receipt prf (Suc logIndex) lgs)))"

definition dump_tx :: "eth_dump_env \<Rightarrow> int \<Rightarrow> js_value \<Rightarrow> js_value \<Rightarrow> (dump_effect, unit) run" where
  "dump_tx E b path txHash =
     run_bind (run_ask (ec_receipt (ed_chain E) txHash)) (\<lambda>receipt.
     run_bind (run_ask (js_get receipt ''logs'')) (\<lambda>lgs.
     run_bind (run_ask (js_get lgs ''length'')) (\<lambda>len.
     if js_strict_eq len (JInt 0) then run_ret ()
     else
       run_bind (run_ask (js_get receipt ''blockNumber'')) (\<lambda>blockNumber.
       run_bind (run_ask (ec_block (ed_chain E) blockNumber)) (\<lambda>block.
       run_bind (run_ask (buildTrie (ed_lib E) (ed_chain E) block)) (\<lambda>tree.
       run_bind (run_ask (js_get receipt ''transactionIndex'')) (\<lambda>transactionIndex.
       run_bind (run_ask (extractProof (ed_lib E) (ed_chain E) block tree transactionIndex)) (\<lambda>prf.
       run_bind (run_ask (js_iter lgs)) (\<lambda>ls.
       dump_logs E b path receipt prf 0 ls)))))))))"

fun run_each :: "('a \<Rightarrow> ('t, unit) run) \<Rightarrow> 'a list \<Rightarrow> ('t, unit) run" where
  "run_each f [] = run_ret ()"
| "run_each f (x # xs) = run_bind (f x) (\<lambda>_. run_each f xs)"

definition eth_dumpProofs :: "eth_dump_env \<Rightarrow> int \<Rightarrow> js_value \<Rightarrow> (dump_effect, unit) run" where
  "eth_dumpProofs E b path =
     run_bind (run_ask (ed_getBlock E b)) (\<lambda>block.
     run_bind (run_ask (js_get block ''transactions'')) (\<lambda>transactions.
     run_bind (run_ask (js_iter transactions)) (\<lambda>txs.
     run_each (dump_tx E b path) txs)))"

section \<open>The range of blocks\<close>

text \<open>The options are numbers, \<open>None\<close> when they are not given.\<close>

definition start_block :: "int option \<Rightarrow> int \<Rightarrow> int" where
  "start_block startBlock endBlock = (case startBlock of
     None \<Rightarrow> max 0 (endBlock - 43000 + 1)
   | Some s \<Rightarrow> if s < 0 then max 0 (endBlock + s + 1) else s)"

definition dump_range :: "int \<Rightarrow> int \<Rightarrow> int list" where
  "dump_range startBlock endBlock = rev [startBlock..endBlock]"

definition eth_dump_run :: "eth_dump_env \<Rightarrow> string \<Rightarrow> js_value \<Rightarrow> int option \<Rightarrow> int option \<Rightarrow> (dump_effect, unit) run" where
  "eth_dump_run E kindOfData path startBlock endBlock =
     run_bind (run_ask (ed_initialize E)) (\<lambda>_.
     run_bind (if kindOfData \<noteq> ''headers'' \<and> kindOfData \<noteq> ''proofs''
       then run_do Usage (Inl (ProcessExit 2)) else run_ret ()) (\<lambda>_.
     run_bind (run_ask (case endBlock of None \<Rightarrow> ed_blockNumber E | Some e \<Rightarrow> Inr e)) (\<lambda>final.
     run_bind (run_each (\<lambda>b. if kindOfData = ''headers'' then eth_dumpHeaders E b path else eth_dumpProofs E b path)
       (dump_range (start_block startBlock final) final)) (\<lambda>_.
     run_ask (ed_destroy E)))))"

definition ETHDump :: "eth_dump_env \<Rightarrow> string \<Rightarrow> js_value \<Rightarrow> int option \<Rightarrow> int option \<Rightarrow> (dump_effect, unit) run" where
  "ETHDump E kindOfData path startBlock endBlock =
     run_bind (run_ask (js_new utils_module)) (\<lambda>_. eth_dump_run E kindOfData path startBlock endBlock)"

section \<open>Properties\<close>

text \<open>The command fails before it has asked the node anything: \<^verbatim>\<open>Web3\<close> is bound to a module that is not a constructor.\<close>

lemma eth_dump_unusable: "ETHDump E kindOfData path startBlock endBlock = ([], Inl JsTypeError)"
  by (simp add: ETHDump_def utils_module_def run_simps)

text \<open>Were it one, the dump of headers would still stop at the first block, \<^verbatim>\<open>web3BlockToRlp\<close> being no export of the relay package.\<close>

lemma eth_dumpHeaders_unusable: "\<exists>e. eth_dumpHeaders E b path = ([], Inl e)"
  by (cases "ed_getBlock E b") (auto simp: eth_dumpHeaders_def eth2near_exports_def run_simps)

text \<open>The blocks of a dump: without a start, the last 43000 ones; with a negative start \<open>- k\<close>, the last \<open>k\<close> ones; otherwise all from the start.\<close>

lemma set_dump_range: "set (dump_range s e) = {s..e}"
  by (simp add: dump_range_def)

lemma length_dump_range:
  assumes "0 \<le> e"
  shows "length (dump_range (start_block None e) e) = min 43000 (nat (e + 1))"
    and "0 < k \<Longrightarrow> length (dump_range (start_block (Some (- k)) e) e) = min (nat k) (nat (e + 1))"
    and "0 \<le> s \<Longrightarrow> length (dump_range (start_block (Some s) e) e) = nat (e + 1 - s)"
  using assms by (auto simp: dump_range_def start_block_def)

text \<open>A dump of proofs that succeeds has gone through every block of its range, in that order.\<close>

lemma run_each_ok: "snd (run_each f xs) = Inr () \<longleftrightarrow> (\<forall>x\<in>set xs. snd (f x) = Inr ())"
  by (induction xs) (auto simp: run_bind_Inr_iff)

lemma run_each_effects: "snd (run_each f xs) = Inr () \<Longrightarrow> fst (run_each f xs) = concat (map (\<lambda>x. fst (f x)) xs)"
  by (induction xs) (auto simp: run_bind_Inr_iff fst_run_bind)

lemma eth_dump_proofs_range:
  assumes "snd (eth_dump_run E ''proofs'' path startBlock (Some e)) = Inr ()"
  shows "fst (eth_dump_run E ''proofs'' path startBlock (Some e))
    = concat (map (\<lambda>b. fst (eth_dumpProofs E b path)) (dump_range (start_block startBlock e) e))"
  using assms by (cases "ed_initialize E") (auto simp: eth_dump_run_def run_simps run_bind_Inr_iff run_bind_effects run_each_effects)

end
