(* ===== verification/Prover_Admin.thy ===== *)
theory Prover_Admin
  imports Near_Prover Near_Bridge Robust Json_Log
begin

text \<open>
  Administration of the prover contract: the part of \<^verbatim>\<open>AdminControlled.sol\<close> that writes raw storage, and the scripts that use it,
  \<^verbatim>\<open>contracts/eth/nearprover/utils/\<close> (\<^verbatim>\<open>utils.js\<close>, \<^verbatim>\<open>upgrade_admin.js\<close>, \<^verbatim>\<open>upgrade_bridge_address.js\<close>,
  \<^verbatim>\<open>eth-ledger-signer.js\<close>, \<^verbatim>\<open>deploy_contracts.js\<close>) behind the tasks of \<^verbatim>\<open>hardhat.config.js\<close>.

  The storage of a contract is a map from slots to 256-bit words; the compiler puts \<^verbatim>\<open>admin\<close>, \<^verbatim>\<open>paused\<close> and
  \<^verbatim>\<open>bridge\<close> of \<^verbatim>\<open>NearProver\<close> in the slots 0, 1 and 2. The package ethers is the record \<open>ethers_lib\<close>, the node, the
  wallets and the keyboard are the record \<open>upgrade_env\<close>.
\<close>

unbundle bit_operations_syntax

section \<open>The contract's storage\<close>

type_synonym storage = "uint256 \<Rightarrow> uint256"

definition st_admin :: "storage \<Rightarrow> eth_address" where "st_admin st = ucast (st 0)"
definition st_paused :: "storage \<Rightarrow> uint256" where "st_paused st = st 1"
definition st_bridge :: "storage \<Rightarrow> eth_address" where "st_bridge st = ucast (st 2)"

definition prover_constructor :: "eth_address \<Rightarrow> eth_address \<Rightarrow> uint256 \<Rightarrow> storage" where
  "prover_constructor bridge admin pausedFlags = (\<lambda>_. 0)(0 := ucast admin, 1 := pausedFlags, 2 := ucast bridge)"

definition st_onlyAdmin :: "Near_Bridge.eth_tx \<Rightarrow> storage \<Rightarrow> sol_error + unit" where
  "st_onlyAdmin tx st = require (tx_sender tx = st_admin st) ''''"

definition adminPause :: "Near_Bridge.eth_tx \<Rightarrow> uint256 \<Rightarrow> storage \<Rightarrow> sol_error + storage" where
  "adminPause tx flags st = res_bind (nonpayable tx) (\<lambda>_. res_bind (st_onlyAdmin tx st) (\<lambda>_. Inr (st(1 := flags))))"

definition adminSstore :: "Near_Bridge.eth_tx \<Rightarrow> uint256 \<Rightarrow> uint256 \<Rightarrow> storage \<Rightarrow> sol_error + storage" where
  "adminSstore tx key val st = res_bind (nonpayable tx) (\<lambda>_. res_bind (st_onlyAdmin tx st) (\<lambda>_. Inr (st(key := val))))"

definition adminSstoreWithMask :: "Near_Bridge.eth_tx \<Rightarrow> uint256 \<Rightarrow> uint256 \<Rightarrow> uint256 \<Rightarrow> storage \<Rightarrow> sol_error + storage" where
  "adminSstoreWithMask tx key val msk st =
     res_bind (nonpayable tx) (\<lambda>_. res_bind (st_onlyAdmin tx st) (\<lambda>_.
     let oldval = st key in Inr (st(key := ((val XOR oldval) AND msk) XOR oldval))))"

text \<open>
  \<^verbatim>\<open>proveOutcome\<close> with its modifier \<^verbatim>\<open>pausable(PAUSED_VERIFY)\<close>; \<open>roots a\<close> is \<^verbatim>\<open>blockMerkleRoots\<close> of the contract at
  the address \<open>a\<close>.
\<close>

definition PAUSED_VERIFY :: uint256 where "PAUSED_VERIFY = 1"

definition prover_proveOutcome :: "(bytes \<Rightarrow> bytes) \<Rightarrow> (eth_address \<Rightarrow> nat \<Rightarrow> sol_error + bytes) \<Rightarrow> Near_Bridge.eth_tx \<Rightarrow> bytes \<Rightarrow> nat \<Rightarrow> storage \<Rightarrow> sol_error + bool" where
  "prover_proveOutcome sha roots tx proofData blockHeight st =
     res_bind (require (st_paused st AND PAUSED_VERIFY = 0 \<or> tx_sender tx = st_admin st) '''') (\<lambda>_.
     proveOutcome sha (roots (st_bridge st)) proofData blockHeight)"

section \<open>The upgrade scripts\<close>

text \<open>
  \<open>el_hex\<close> is \<^verbatim>\<open>BigNumber.from(w).toHexString()\<close>, \<open>el_address\<close> the text of an address that a contract returns, and \<open>el_uint\<close> the
  encoding of a text as an argument of type \<^verbatim>\<open>uint\<close>.
\<close>

record ethers_lib =
  el_hex :: "uint256 \<Rightarrow> string"
  el_address :: "eth_address \<Rightarrow> string"
  el_uint :: "string \<Rightarrow> uint256 option"

record admin_tx =
  at_slot :: uint256
  at_value :: uint256
  at_mask :: uint256
  at_gasLimit :: nat
  at_gasPrice :: nat
  at_from :: string
  at_nonce :: nat

datatype upgrade_effect = SendUpgrade admin_tx | Aborted

text \<open>
  The answers to the calls, in the order they are made: \<open>ue_admin i\<close> is the \<open>i\<close>-th answer of \<^verbatim>\<open>admin()\<close>, and \<open>ue_bridge\<close> likewise;
  \<open>ue_ledger\<close> and \<open>ue_wallet\<close> are the addresses of the two kinds of signer.
\<close>

record upgrade_env =
  ue_factory :: "unit res"
  ue_storage :: "nat \<Rightarrow> uint256 res"
  ue_admin :: "nat \<Rightarrow> string res"
  ue_bridge :: "nat \<Rightarrow> string res"
  ue_ledger :: "string \<Rightarrow> string res"
  ue_wallet :: "string res"
  ue_reply :: string
  ue_txCount :: "string \<Rightarrow> nat res"
  ue_sign :: "admin_tx \<Rightarrow> string res"
  ue_send :: "string \<Rightarrow> unit res"
  ue_wait :: "unit res"

definition to_upper :: "char \<Rightarrow> char" where
  "to_upper c = (let n = of_char c :: nat in
     if 97 \<le> n \<and> n \<le> 122 \<or> 224 \<le> n \<and> n \<le> 254 \<and> n \<noteq> 247 then char_of (n - 32) else c)"

definition chai_equal :: "string \<Rightarrow> string \<Rightarrow> unit res" where
  "chai_equal a b = (if a = b then Inr () else Inl (LibraryError ''AssertionError''))"

definition address_mask :: uint256 where
  "address_mask = 0xffffffffffffffffffffffffffffffffffffffff"

definition upgradeAddressAtSlotLegacy :: "ethers_lib \<Rightarrow> upgrade_env \<Rightarrow> string \<Rightarrow> string \<Rightarrow> nat \<Rightarrow> (upgrade_effect, unit) run" where
  "upgradeAddressAtSlotLegacy L E signer newAddress addressSlot =
     run_bind (run_ask (of_lib ''ethers'' (el_uint L newAddress))) (\<lambda>val.
     run_bind (run_ask (ue_txCount E signer)) (\<lambda>nonce.
     let tx = \<lparr>at_slot = word_of_nat addressSlot, at_value = val, at_mask = address_mask, at_gasLimit = 50000,
       at_gasPrice = 150000000000, at_from = signer, at_nonce = nonce\<rparr> in
     run_bind (run_ask (ue_sign E tx)) (\<lambda>signedTx.
     run_do (SendUpgrade tx) (ue_send E signedTx))))"

text \<open>The signer both scripts choose, by its address.\<close>

definition upgrade_signer :: "upgrade_env \<Rightarrow> string option \<Rightarrow> string res" where
  "upgrade_signer E ledgerKeyPath = (case ledgerKeyPath of Some p \<Rightarrow> ue_ledger E p | None \<Rightarrow> ue_wallet E)"

fun getSlotsData :: "upgrade_env \<Rightarrow> nat \<Rightarrow> nat \<Rightarrow> uint256 list res" where
  "getSlotsData E i 0 = Inr []"
| "getSlotsData E i (Suc left) = res_bind (ue_storage E i) (\<lambda>w. res_bind (getSlotsData E (Suc i) left) (\<lambda>ws. Inr (w # ws)))"

text \<open>The result says whether the operator confirmed.\<close>

definition upgradeAdminAddressTo :: "ethers_lib \<Rightarrow> upgrade_env \<Rightarrow> string \<Rightarrow> string \<Rightarrow> nat \<Rightarrow> string option \<Rightarrow> (upgrade_effect, bool) run" where
  "upgradeAdminAddressTo L E currentAdminAddress newAdminAddress adminAddressSlot ledgerKeyPath =
     run_bind (run_ask (ue_storage E adminAddressSlot)) (\<lambda>slotWord.
     let slotContent = el_hex L slotWord in
     run_bind (run_ask (chai_equal (map to_upper slotContent) (map to_upper currentAdminAddress))) (\<lambda>_.
     run_bind (run_ask (ue_factory E)) (\<lambda>_.
     run_bind (run_ask (getSlotsData E 0 5)) (\<lambda>_.
     run_bind (run_ask (ue_admin E 0)) (\<lambda>_.
     run_bind (run_ask (upgrade_signer E ledgerKeyPath)) (\<lambda>signer.
     run_bind (run_ask (ue_admin E 1)) (\<lambda>admin.
     run_bind (run_ask (chai_equal signer admin)) (\<lambda>_.
     if map to_upper (ue_reply E) \<noteq> ''CONFIRM'' then run_do Aborted (Inr False)
     else
       run_bind (upgradeAddressAtSlotLegacy L E signer newAdminAddress adminAddressSlot) (\<lambda>_.
       run_bind (run_ask (ue_wait E)) (\<lambda>_.
       run_bind (run_ask (ue_admin E 2)) (\<lambda>after.
       run_bind (run_ask (chai_equal (map to_lower after) (map to_lower newAdminAddress))) (\<lambda>_.
       run_ret True))))))))))))"

definition BRIDGE_ADDRESS_SLOT :: nat where "BRIDGE_ADDRESS_SLOT = 2"

definition upgradeProversBridgeAddressTo :: "ethers_lib \<Rightarrow> upgrade_env \<Rightarrow> string \<Rightarrow> string option \<Rightarrow> (upgrade_effect, unit) run" where
  "upgradeProversBridgeAddressTo L E newBridgeAddress ledgerKeyPath =
     run_bind (run_ask (ue_factory E)) (\<lambda>_.
     run_bind (run_ask (ue_bridge E 0)) (\<lambda>_.
     run_bind (run_ask (upgrade_signer E ledgerKeyPath)) (\<lambda>signer.
     run_bind (run_ask (ue_admin E 0)) (\<lambda>admin.
     run_bind (run_ask (chai_equal signer admin)) (\<lambda>_.
     run_bind (upgradeAddressAtSlotLegacy L E signer newBridgeAddress BRIDGE_ADDRESS_SLOT) (\<lambda>_.
     run_bind (run_ask (ue_wait E)) (\<lambda>_.
     run_bind (run_ask (ue_bridge E 1)) (\<lambda>after.
     run_ask (chai_equal (map to_lower after) (map to_lower newBridgeAddress))))))))))"

definition getProversBridgeAddress :: "upgrade_env \<Rightarrow> string res" where
  "getProversBridgeAddress E = res_bind (ue_factory E) (\<lambda>_. ue_bridge E 0)"

text \<open>The tasks of \<^verbatim>\<open>hardhat.config.js\<close>, with the parameters hardhat has parsed; a path of a ledger key is optional.\<close>

datatype prover_task =
    UpgradeProversBridgeAddressTo string "string option"
  | GetProversBridgeAddress
  | UpgradeAdminTo string string nat "string option"
  | GetSlotsData nat

fun run_prover_task :: "ethers_lib \<Rightarrow> upgrade_env \<Rightarrow> prover_task \<Rightarrow> (upgrade_effect, unit) run" where
  "run_prover_task L E (UpgradeProversBridgeAddressTo newBridge ledgerKeyPath) = upgradeProversBridgeAddressTo L E newBridge ledgerKeyPath"
| "run_prover_task L E GetProversBridgeAddress = run_bind (run_ask (getProversBridgeAddress E)) (\<lambda>_. run_ret ())"
| "run_prover_task L E (UpgradeAdminTo currentAdmin newAdmin slot ledgerKeyPath) =
     run_bind (upgradeAdminAddressTo L E currentAdmin newAdmin slot ledgerKeyPath) (\<lambda>_. run_ret ())"
| "run_prover_task L E (GetSlotsData n) = run_bind (run_ask (getSlotsData E 0 n)) (\<lambda>_. run_ret ())"

text \<open>
  \<^verbatim>\<open>deploy_contracts.js\<close>: the deployer becomes the administrator of a prover behind a mock of the bridge.
\<close>

datatype prover_deploy_effect = DeployMock | DeployProver eth_address eth_address uint256

record prover_deploy_env =
  de_signers :: "eth_address list res"
  de_balance :: "nat res"
  de_mock :: "eth_address res"
  de_prover :: "eth_address res"

definition deploy_main :: "prover_deploy_env \<Rightarrow> (prover_deploy_effect, unit) run" where
  "deploy_main E =
     run_bind (run_ask (de_signers E)) (\<lambda>signers.
     run_bind (run_ask (case signers of [] \<Rightarrow> Inl JsTypeError | a # _ \<Rightarrow> Inr a)) (\<lambda>deployer.
     run_bind (run_ask (de_balance E)) (\<lambda>_.
     run_bind (run_do DeployMock (de_mock E)) (\<lambda>mock.
     run_bind (run_do (DeployProver mock deployer 0) (de_prover E)) (\<lambda>_. run_ret ())))))"

definition deploy_contracts :: "prover_deploy_env \<Rightarrow> (prover_deploy_effect, unit) run" where
  "deploy_contracts E = run_bind (run_catch (deploy_main E) (\<lambda>_. run_ask (Inl (ProcessExit 1)))) (\<lambda>_. run_ask (Inl (ProcessExit 0)))"

section \<open>The Ledger signer\<close>

text \<open>
  A call of the device fails with an error that may have an \<^verbatim>\<open>id\<close>. The promise of \<^verbatim>\<open>_retry\<close> is never settled (\<open>None\<close>)
  when the device could not be opened, since the executor is an \<^verbatim>\<open>async\<close> function and its exception is lost. No caller gives a
  timeout. The second component counts the pauses of 100 ms.
\<close>

type_synonym 'a ledger_call = "nat \<Rightarrow> (string option \<times> js_error) + 'a"

fun ledger_attempts :: "nat \<Rightarrow> 'a ledger_call \<Rightarrow> nat \<Rightarrow> 'a res \<times> nat" where
  "ledger_attempts 0 callback i = (Inl (JsError ''timeout''), 0)"
| "ledger_attempts (Suc left) callback i = (case callback i of
     Inr r \<Rightarrow> (Inr r, 0)
   | Inl (eid, e) \<Rightarrow> if eid \<noteq> Some ''TransportLocked'' then (Inl e, 0)
       else (case ledger_attempts left callback (Suc i) of (r, w) \<Rightarrow> (r, Suc w)))"

definition ledger_retry :: "unit res \<Rightarrow> 'a ledger_call \<Rightarrow> 'a res option" where
  "ledger_retry opened callback = (case opened of Inl _ \<Rightarrow> None | Inr _ \<Rightarrow> Some (fst (ledger_attempts 50 callback 0)))"

record ledger_env =
  le_opened :: "unit res"
  le_getAddress :: "string ledger_call"
  le_signMessage :: "string \<Rightarrow> js_value ledger_call"
  le_signTransaction :: "string \<Rightarrow> js_value ledger_call"
  le_checksum :: "string \<Rightarrow> string res"
  le_toUtf8Bytes :: "string \<Rightarrow> bytes"
  le_hexlify :: "js_value \<Rightarrow> string res"
  le_joinSignature :: "js_value \<Rightarrow> string res"
  le_toNumber :: "js_value \<Rightarrow> js_value res"
  le_serialize :: "js_value \<Rightarrow> js_value option \<Rightarrow> string res"

definition defaultPath :: string where "defaultPath = ''m/44'/60'/0'/0/0''"

definition ledger_path :: "string option \<Rightarrow> string" where
  "ledger_path path = (case path of None \<Rightarrow> defaultPath | Some p \<Rightarrow> if p = '''' then defaultPath else p)"

definition settled :: "'a res option \<Rightarrow> ('a \<Rightarrow> 'b res option) \<Rightarrow> 'b res option" where
  "settled r f = (case r of None \<Rightarrow> None | Some (Inl e) \<Rightarrow> Some (Inl e) | Some (Inr x) \<Rightarrow> f x)"

definition ledger_getAddress :: "ledger_env \<Rightarrow> string res option" where
  "ledger_getAddress E = settled (ledger_retry (le_opened E) (le_getAddress E)) (\<lambda>a. Some (le_checksum E a))"

text \<open>\<^verbatim>\<open>'0x' + sig.r\<close> for the texts the device returns.\<close>

definition hex_field :: "js_value \<Rightarrow> string \<Rightarrow> js_value" where
  "hex_field sig k = JStr (''0x'' @ (case js_prop sig k of JStr s \<Rightarrow> s | _ \<Rightarrow> ''undefined''))"

definition signMessage :: "ledger_env \<Rightarrow> js_value \<Rightarrow> string res option" where
  "signMessage E message =
     settled (Some (le_hexlify E (case message of JStr s \<Rightarrow> JBytes (le_toUtf8Bytes E s) | _ \<Rightarrow> message))) (\<lambda>h.
     settled (ledger_retry (le_opened E) (le_signMessage E (drop 2 h))) (\<lambda>sig.
     Some (le_joinSignature E (JObj [(''v'', js_prop sig ''v''), (''r'', hex_field sig ''r''), (''s'', hex_field sig ''s'')]))))"

definition or_undefined :: "js_value \<Rightarrow> js_value" where
  "or_undefined v = (if truthy v then v else JUndefined)"

definition base_tx :: "ledger_env \<Rightarrow> js_value \<Rightarrow> js_value res" where
  "base_tx E tx =
     res_bind (if truthy (js_prop tx ''nonce'') then le_toNumber E (js_prop tx ''nonce'') else Inr JUndefined) (\<lambda>nonce.
     Inr (JObj [(''chainId'', or_undefined (js_prop tx ''chainId'')), (''data'', or_undefined (js_prop tx ''data'')),
       (''gasLimit'', or_undefined (js_prop tx ''gasLimit'')), (''gasPrice'', or_undefined (js_prop tx ''gasPrice'')),
       (''nonce'', nonce), (''maxFeePerGas'', or_undefined (js_prop tx ''maxFeePerGas'')),
       (''maxPriorityFeePerGas'', or_undefined (js_prop tx ''maxPriorityFeePerGas'')), (''type'', js_prop tx ''type''),
       (''to'', or_undefined (js_prop tx ''to'')), (''value'', or_undefined (js_prop tx ''value''))]))"

definition signTransaction :: "ledger_env \<Rightarrow> js_value \<Rightarrow> string res option" where
  "signTransaction E tx =
     settled (Some (base_tx E tx)) (\<lambda>baseTx.
     settled (Some (le_serialize E baseTx None)) (\<lambda>unsigned.
     settled (ledger_getAddress E) (\<lambda>_.
     settled (ledger_retry (le_opened E) (le_signTransaction E (drop 2 unsigned))) (\<lambda>sig.
     settled (Some (le_toNumber E (hex_field sig ''v''))) (\<lambda>v.
     Some (le_serialize E baseTx (Some (JObj [(''v'', v), (''r'', hex_field sig ''r''), (''s'', hex_field sig ''s'')]))))))))"

section \<open>What an upgrade does\<close>

lemma address_mask_eq: "address_mask = mask 160"
  by (simp add: address_mask_def mask_eq_exp_minus_1)

text \<open>The masked store replaces the address in the low 160 bits of a slot and keeps the rest.\<close>

lemma masked_store:
  fixes a :: eth_address and w :: uint256
  defines "w' \<equiv> ((ucast a XOR w) AND address_mask) XOR w"
  shows "(ucast w' :: eth_address) = a" and "drop_bit 160 w' = drop_bit 160 w"
proof -
  have "bit w' n \<longleftrightarrow> (if n < 160 then bit a n else bit w n)" for n
    by (auto simp: w'_def address_mask_eq bit_simps dest: bit_imp_le_length)
  then show "(ucast w' :: eth_address) = a" "drop_bit 160 w' = drop_bit 160 w"
    by (auto intro!: bit_word_eqI simp: bit_simps)
qed

text \<open>The contract executes what a script sends, with the signer as the sender; a transaction that reverts changes nothing.\<close>

fun mined :: "eth_address \<Rightarrow> upgrade_effect list \<Rightarrow> storage \<Rightarrow> storage" where
  "mined me [] st = st"
| "mined me (SendUpgrade tx # es) st = mined me es
     (case adminSstoreWithMask \<lparr>tx_sender = me, tx_value = 0, tx_now = 0, tx_accepts = True\<rparr> (at_slot tx) (at_value tx) (at_mask tx) st
      of Inr st' \<Rightarrow> st' | Inl _ \<Rightarrow> st)"
| "mined me (Aborted # es) st = mined me es st"

text \<open>What ethers documents of addresses: their text can be given as a number, in any case of letters.\<close>

definition ethers_law :: "ethers_lib \<Rightarrow> bool" where
  "ethers_law L \<longleftrightarrow> (\<forall>a. el_uint L (el_address L a) = Some (ucast a))
     \<and> (\<forall>s t. map to_lower s = map to_lower t \<longrightarrow> el_uint L s = el_uint L t)"

lemma ethers_law_text: "ethers_law L \<Longrightarrow> map to_lower s = map to_lower (el_address L a) \<Longrightarrow> el_uint L s = Some (ucast a)"
  unfolding ethers_law_def by metis

text \<open>A node and a wallet that carry out what they are asked to.\<close>

definition env_works :: "upgrade_env \<Rightarrow> bool" where
  "env_works E \<longleftrightarrow> ue_factory E = Inr () \<and> (\<forall>a. \<exists>n. ue_txCount E a = Inr n)
     \<and> (\<forall>tx. \<exists>s. ue_sign E tx = Inr s \<and> ue_send E s = Inr ()) \<and> ue_wait E = Inr ()"

text \<open>The store of both scripts: one transaction, which the contract accepts from its administrator.\<close>

lemma upgrade_slot_run:
  assumes "ethers_law L" "map to_lower new = map to_lower (el_address L a)" "env_works E"
  shows "\<exists>tx. upgradeAddressAtSlotLegacy L E signer new slot = ([SendUpgrade tx], Inr ())
    \<and> mined (st_admin st) [SendUpgrade tx] st
      = st(word_of_nat slot := ((ucast a XOR st (word_of_nat slot)) AND address_mask) XOR st (word_of_nat slot))"
proof -
  obtain n where n: "ue_txCount E signer = Inr n" using assms(3) unfolding env_works_def by blast
  let ?tx = "\<lparr>at_slot = word_of_nat slot, at_value = ucast a, at_mask = address_mask, at_gasLimit = 50000,
       at_gasPrice = 150000000000, at_from = signer, at_nonce = n\<rparr>"
  obtain s where s: "ue_sign E ?tx = Inr s" "ue_send E s = Inr ()" using assms(3) unfolding env_works_def by blast
  have "upgradeAddressAtSlotLegacy L E signer new slot = ([SendUpgrade ?tx], Inr ())"
    using n s by (simp add: upgradeAddressAtSlotLegacy_def ethers_law_text [OF assms(1,2)] run_simps run_do_def)
  moreover have "mined (st_admin st) [SendUpgrade ?tx] st
      = st(word_of_nat slot := ((ucast a XOR st (word_of_nat slot)) AND address_mask) XOR st (word_of_nat slot))"
    by (simp add: adminSstoreWithMask_def nonpayable_def st_onlyAdmin_def Let_def)
  ultimately show ?thesis by blast
qed

text \<open>
  C35. The script that moves the prover to another light client does that and nothing else: run by the administrator against a node
  that carries out its transaction, it ends without an error, and afterwards \<^verbatim>\<open>proveOutcome\<close> checks proofs against the roots of the
  contract at the new address, while the administrator, the pause flags, every other slot and the other bits of the slot are as before.
\<close>

theorem prover_bridge_upgraded:
  assumes "ethers_law L" "env_works E" "map to_lower new = map to_lower (el_address L a)"
    and "upgrade_signer E key = Inr (el_address L (st_admin st))" "ue_admin E 0 = Inr (el_address L (st_admin st))"
    and "ue_bridge E 0 = Inr old" and st': "st' = mined (st_admin st) (fst (upgradeProversBridgeAddressTo L E new key)) st"
    and "ue_bridge E 1 = Inr (el_address L (st_bridge st'))"
  shows "snd (upgradeProversBridgeAddressTo L E new key) = Inr ()
    \<and> prover_proveOutcome sha roots tx proofData blockHeight st'
      = res_bind (require (st_paused st AND PAUSED_VERIFY = 0 \<or> tx_sender tx = st_admin st) '''') (\<lambda>_.
          proveOutcome sha (roots a) proofData blockHeight)
    \<and> (\<forall>k. k \<noteq> 2 \<longrightarrow> st' k = st k) \<and> drop_bit 160 (st' 2) = drop_bit 160 (st 2)"
proof (intro conjI)
  obtain t where t: "upgradeAddressAtSlotLegacy L E (el_address L (st_admin st)) new BRIDGE_ADDRESS_SLOT = ([SendUpgrade t], Inr ())"
      "mined (st_admin st) [SendUpgrade t] st = st(2 := ((ucast a XOR st 2) AND address_mask) XOR st 2)"
    using upgrade_slot_run [OF assms(1,3,2), of _ BRIDGE_ADDRESS_SLOT st] by (auto simp: BRIDGE_ADDRESS_SLOT_def)
  have run: "upgradeProversBridgeAddressTo L E new key
      = run_bind ([SendUpgrade t], Inr ()) (\<lambda>_. run_ask (chai_equal (map to_lower (el_address L (st_bridge st'))) (map to_lower new)))"
    using assms(2,4-6,8) t(1) by (simp add: upgradeProversBridgeAddressTo_def env_works_def run_simps chai_equal_def)
  have st2: "st' = st(2 := ((ucast a XOR st 2) AND address_mask) XOR st 2)"
  proof -
    have "fst (upgradeProversBridgeAddressTo L E new key) = [SendUpgrade t]" by (subst run) (simp add: run_simps)
    with st' t(2) show ?thesis by metis
  qed
  then have bridge: "st_bridge st' = a" by (simp add: st_bridge_def masked_store(1))
  show "snd (upgradeProversBridgeAddressTo L E new key) = Inr ()"
    using run assms(3) bridge by (simp add: run_simps chai_equal_def)
  show "prover_proveOutcome sha roots tx proofData blockHeight st'
      = res_bind (require (st_paused st AND PAUSED_VERIFY = 0 \<or> tx_sender tx = st_admin st) '''') (\<lambda>_.
          proveOutcome sha (roots a) proofData blockHeight)"
    unfolding prover_proveOutcome_def bridge by (simp add: st2 st_paused_def st_admin_def)
  show "\<forall>k. k \<noteq> 2 \<longrightarrow> st' k = st k" by (simp add: st2)
  show "drop_bit 160 (st' 2) = drop_bit 160 (st 2)" unfolding st2 fun_upd_same by (rule masked_store(2))
qed

text \<open>Neither script sends anything unless the signer is the administrator, and the change of administrator also needs the operator's word.\<close>

lemma bridge_upgrade_needs_admin:
  assumes "SendUpgrade t \<in> set (fst (upgradeProversBridgeAddressTo L E new key))"
  shows "\<exists>x. upgrade_signer E key = Inr x \<and> ue_admin E 0 = Inr x"
  using assms by (auto simp: upgradeProversBridgeAddressTo_def set_run_bind chai_equal_def split: if_splits)

lemma admin_upgrade_needs_admin:
  assumes "SendUpgrade t \<in> set (fst (upgradeAdminAddressTo L E cur new slot key))"
  shows "\<exists>x w. upgrade_signer E key = Inr x \<and> ue_admin E 1 = Inr x \<and> map to_upper (ue_reply E) = ''CONFIRM''
    \<and> ue_storage E slot = Inr w \<and> map to_upper (el_hex L w) = map to_upper cur"
  using assms by (auto simp: upgradeAdminAddressTo_def set_run_bind chai_equal_def Let_def split: if_splits)

text \<open>The change of administrator: with the slot of \<^verbatim>\<open>admin\<close> the new address becomes the administrator.\<close>

lemma admin_upgraded:
  assumes "ethers_law L" "env_works E" "map to_lower new = map to_lower (el_address L a)"
    and "\<forall>k<5. ue_storage E k = Inr (st (word_of_nat k))" "map to_upper (el_hex L (st 0)) = map to_upper cur"
    and "upgrade_signer E key = Inr (el_address L (st_admin st))" "\<forall>i<2. ue_admin E i = Inr (el_address L (st_admin st))"
    and "map to_upper (ue_reply E) = ''CONFIRM''"
    and st': "st' = mined (st_admin st) (fst (upgradeAdminAddressTo L E cur new 0 key)) st"
    and "ue_admin E 2 = Inr (el_address L (st_admin st'))"
  shows "snd (upgradeAdminAddressTo L E cur new 0 key) = Inr True" "st_admin st' = a"
    "\<And>k. k \<noteq> 0 \<Longrightarrow> st' k = st k" "drop_bit 160 (st' 0) = drop_bit 160 (st 0)"
proof -
  obtain t where t: "upgradeAddressAtSlotLegacy L E (el_address L (st_admin st)) new 0 = ([SendUpgrade t], Inr ())"
      "mined (st_admin st) [SendUpgrade t] st = st(0 := ((ucast a XOR st 0) AND address_mask) XOR st 0)"
    using upgrade_slot_run [OF assms(1,3,2), of _ 0 st] by auto
  have slots: "getSlotsData E 0 5 = Inr [st 0, st 1, st 2, st 3, st 4]"
    using assms(4) by (simp add: eval_nat_numeral)
  have run: "upgradeAdminAddressTo L E cur new 0 key
      = run_bind ([SendUpgrade t], Inr ()) (\<lambda>_. run_bind (run_ask (chai_equal (map to_lower (el_address L (st_admin st'))) (map to_lower new))) (\<lambda>_. run_ret True))"
    using assms(2,4-8,10) t(1) slots by (simp add: upgradeAdminAddressTo_def env_works_def run_simps chai_equal_def)
  have st2: "st' = st(0 := ((ucast a XOR st 0) AND address_mask) XOR st 0)"
  proof -
    have "fst (upgradeAdminAddressTo L E cur new 0 key) = [SendUpgrade t]" by (subst run) (cases "chai_equal (map to_lower (el_address L (st_admin st'))) (map to_lower new)"; simp add: run_simps)
    with st' t(2) show ?thesis by metis
  qed
  show admin: "st_admin st' = a" by (simp add: st2 st_admin_def masked_store(1))
  show "snd (upgradeAdminAddressTo L E cur new 0 key) = Inr True"
    using run assms(3) admin by (simp add: run_simps chai_equal_def)
  show "\<And>k. k \<noteq> 0 \<Longrightarrow> st' k = st k" by (simp add: st2)
  show "drop_bit 160 (st' 0) = drop_bit 160 (st 0)" unfolding st2 fun_upd_same by (rule masked_store(2))
qed

text \<open>No task writes to the contract without the key of its administrator.\<close>

lemma tasks_need_admin:
  assumes "SendUpgrade t \<in> set (fst (run_prover_task L E task))"
  shows "\<exists>key x i. upgrade_signer E key = Inr x \<and> ue_admin E i = Inr x"
proof (cases task)
  case (UpgradeProversBridgeAddressTo new key)
  with assms bridge_upgrade_needs_admin [of t L E new key] show ?thesis by auto
next
  case (UpgradeAdminTo cur new slot key)
  with assms admin_upgrade_needs_admin [of t L E cur new slot key] show ?thesis by (auto simp: set_run_bind)
qed (use assms in \<open>auto simp: set_run_bind\<close>)

section \<open>Retries of the Ledger signer\<close>

text \<open>
  With the device opened, \<^verbatim>\<open>_retry\<close> asks while the transport is locked, 50 times at most, and returns the first other
  answer; without it no call of the signer is ever answered.
\<close>

lemma ledger_attempts_decides:
  assumes "\<forall>j<k. \<exists>e. callback (i + j) = Inl (Some ''TransportLocked'', e)" "k < left"
    "\<forall>e. callback (i + k) \<noteq> Inl (Some ''TransportLocked'', e)"
  shows "ledger_attempts left callback i = (case callback (i + k) of Inr r \<Rightarrow> Inr r | Inl (_, e) \<Rightarrow> Inl e, k)"
  using assms
proof (induction left arbitrary: i k)
  case (Suc left)
  show ?case
  proof (cases k)
    case 0
    then show ?thesis using Suc.prems(3) by (auto split: sum.splits)
  next
    case (Suc l)
    have "ledger_attempts left callback (Suc i) = (case callback (Suc i + l) of Inr r \<Rightarrow> Inr r | Inl (_, e) \<Rightarrow> Inl e, l)"
      using Suc.prems Suc by (intro Suc.IH) (auto dest: spec [of _ "Suc _"])
    moreover obtain e where "callback i = Inl (Some ''TransportLocked'', e)" using Suc.prems(1) Suc by force
    ultimately show ?thesis by (simp add: Suc)
  qed
qed simp

lemma ledger_attempts_timeout:
  "\<forall>j<n. \<exists>e. callback (i + j) = Inl (Some ''TransportLocked'', e) \<Longrightarrow> ledger_attempts n callback i = (Inl (JsError ''timeout''), n)"
proof (induction n arbitrary: i)
  case (Suc n)
  have "ledger_attempts n callback (Suc i) = (Inl (JsError ''timeout''), n)"
    using Suc.prems by (intro Suc.IH) (auto dest: spec [of _ "Suc _"])
  moreover obtain e where "callback i = Inl (Some ''TransportLocked'', e)" using Suc.prems by force
  ultimately show ?case by simp
qed simp

lemma ledger_hangs: "le_opened E = Inl e \<Longrightarrow> ledger_getAddress E = None"
  by (simp add: ledger_getAddress_def ledger_retry_def settled_def)

section \<open>A concrete upgrade\<close>

definition demo_ethers :: ethers_lib where
  "demo_ethers = \<lparr>el_hex = (\<lambda>w. decimal (unat w)), el_address = (\<lambda>a. decimal (unat a)),
     el_uint = (\<lambda>s. Some (word_of_nat (dec_value (map to_lower s))))\<rparr>"

lemma to_lower_digit: "is_digit c \<Longrightarrow> to_lower c = c"
  by (auto simp: is_digit_def to_lower_def)

lemma demo_ethers_law: "ethers_law demo_ethers"
proof -
  have "map to_lower (decimal n) = decimal n" for n
    using dec_digits [of n] by (intro map_idI) (auto simp: to_lower_digit)
  then show ?thesis by (simp add: ethers_law_def demo_ethers_def dec_value_dec)
qed

text \<open>The administrator 7 moves the prover from the light client 10 to 21.\<close>

definition demo_storage :: storage where
  "demo_storage = prover_constructor 10 7 0"

definition demo_upgrade_env :: upgrade_env where
  "demo_upgrade_env = \<lparr>ue_factory = Inr (), ue_storage = (\<lambda>k. Inr (demo_storage (word_of_nat k))), ue_admin = (\<lambda>_. Inr ''7''),
     ue_bridge = (\<lambda>i. Inr (if i = 0 then ''10'' else ''21'')), ue_ledger = (\<lambda>_. Inl (LibraryError ''ledger'')), ue_wallet = Inr ''7'',
     ue_reply = ''confirm'', ue_txCount = (\<lambda>_. Inr 3), ue_sign = (\<lambda>_. Inr ''signed''), ue_send = (\<lambda>_. Inr ()), ue_wait = Inr ()\<rparr>"

lemma demo_texts:
  "decimal 7 = ''7''" "decimal 21 = ''21''" "dec_value ''21'' = 21" "to_lower CHR ''2'' = CHR ''2''" "to_lower CHR ''1'' = CHR ''1''"
  by code_simp+

lemma demo_st_admin: "st_admin demo_storage = 7"
  by (simp add: st_admin_def demo_storage_def prover_constructor_def)

definition demo_moved :: storage where
  "demo_moved = mined 7 (fst (upgradeProversBridgeAddressTo demo_ethers demo_upgrade_env ''21'' None)) demo_storage"

lemma demo_moved_bridge: "st_bridge demo_moved = 21"
proof -
  have "demo_moved 2 = 21"
    by (simp add: demo_moved_def upgradeProversBridgeAddressTo_def upgradeAddressAtSlotLegacy_def demo_upgrade_env_def demo_ethers_def
        upgrade_signer_def chai_equal_def BRIDGE_ADDRESS_SLOT_def run_simps demo_texts adminSstoreWithMask_def nonpayable_def
        st_onlyAdmin_def demo_st_admin address_mask_def demo_storage_def prover_constructor_def st_admin_def)
  then show ?thesis by (simp add: st_bridge_def)
qed

lemma prover_bridge_upgraded_witness:
  "snd (upgradeProversBridgeAddressTo demo_ethers demo_upgrade_env ''21'' None) = Inr ()
   \<and> prover_proveOutcome (\<lambda>x. x) (\<lambda>a _. Inl (Revert ''unknown'')) \<lparr>tx_sender = 1, tx_value = 0, tx_now = 0, tx_accepts = True\<rparr> [] 5 demo_moved
     = res_bind (require (st_paused demo_storage AND PAUSED_VERIFY = 0 \<or> (1 :: eth_address) = st_admin demo_storage) '''') (\<lambda>_.
         proveOutcome (\<lambda>x. x) (\<lambda>_. Inl (Revert ''unknown'')) [] 5)
   \<and> demo_moved 0 = demo_storage 0"
proof -
  let ?tx = "\<lparr>tx_sender = 1, tx_value = 0, tx_now = 0, tx_accepts = True\<rparr> :: Near_Bridge.eth_tx"
  have E: "env_works demo_upgrade_env" by (simp add: env_works_def demo_upgrade_env_def)
  have admin: "upgrade_signer demo_upgrade_env None = Inr (el_address demo_ethers (st_admin demo_storage))"
      "ue_admin demo_upgrade_env 0 = Inr (el_address demo_ethers (st_admin demo_storage))"
      "ue_bridge demo_upgrade_env 0 = Inr ''10''"
    by (simp_all add: upgrade_signer_def demo_upgrade_env_def demo_ethers_def demo_st_admin demo_texts)
  have new: "map to_lower ''21'' = map to_lower (el_address demo_ethers 21)"
    by (simp add: demo_ethers_def demo_texts)
  have moved: "demo_moved = mined (st_admin demo_storage) (fst (upgradeProversBridgeAddressTo demo_ethers demo_upgrade_env ''21'' None)) demo_storage"
    by (simp add: demo_moved_def demo_st_admin)
  have after: "ue_bridge demo_upgrade_env 1 = Inr (el_address demo_ethers (st_bridge demo_moved))"
    by (simp add: demo_upgrade_env_def demo_ethers_def demo_moved_bridge demo_texts)
  note main = prover_bridge_upgraded [OF demo_ethers_law E new admin moved after]
  show ?thesis
    using main [of "\<lambda>x. x" "\<lambda>a _. Inl (Revert ''unknown'')" ?tx "[]" 5] by simp
qed

end
