(* ===== verification/Testing_Adapter.thy ===== *)
theory Testing_Adapter
  imports Transfer_To_Near
begin

text \<open>
  The adapter for the end-to-end tests, \<^verbatim>\<open>testing/adapter/index.js\<close>. The tests run one of its functions in a process of its own
  and read what it prints; the file states the agreement all of them follow: a function that changes something prints \<^verbatim>\<open>OK\<close> in
  the first line, and every function ends with \<^verbatim>\<open>exit(0)\<close>.

  The record \<open>adapter_env\<close> holds the outcomes of the packages, of the node and of reading files, an exception being given by its
  \<^verbatim>\<open>toString()\<close>. The locale \<open>adapter_change\<close> is the agreement for one function; the four changing functions are interpretations of it.
\<close>

section \<open>Environment and frame of the functions\<close>

datatype adapter_effect =
    PrintLine string
  | PrintEvent js_value
  | SendCall string "js_value list" string "nat option"

record adapter_env =
  ad_connect :: "unit res"
  ad_close :: "unit res"
  ad_readJson :: "string \<Rightarrow> string + js_value"
  ad_contract :: "js_value \<Rightarrow> string \<Rightarrow> string + unit"
  ad_number :: "string \<Rightarrow> js_value"
  ad_send :: "string \<Rightarrow> js_value list \<Rightarrow> string + js_value"
  ad_view :: "string \<Rightarrow> js_value list \<Rightarrow> string + string"
  ad_account :: "string \<Rightarrow> string + string"
  ad_gasPrice :: "string + nat"
  ad_parseProof :: "string \<Rightarrow> string + full_outcome_proof"
  ad_lib :: bridge_lib
  ad_errorText :: "js_error \<Rightarrow> string"
  ad_clientHeight :: "string + nat"
  ad_clientHash :: "nat \<Rightarrow> string + bytes"
  ad_bs58 :: "bytes \<Rightarrow> string"
  ad_nearConnect :: "string + unit"
  ad_nearBalance :: "string \<Rightarrow> string + string"

type_synonym adapter_run = "(adapter_effect, unit) run"

text \<open>\<open>try\<close> to do it, a line for a failure, the end of the process with the code 0.\<close>

fun failed_line :: "js_error \<Rightarrow> string" where
  "failed_line (LibraryError text) = ''Failed '' @ text"
| "failed_line _ = ''Failed TypeError''"

definition or_failed :: "adapter_run \<Rightarrow> adapter_run" where
  "or_failed body = run_catch body (\<lambda>e. run_do (PrintLine (failed_line e)) (Inr ()))"

definition web3_adapter :: "(adapter_env \<Rightarrow> adapter_run) \<Rightarrow> adapter_env \<Rightarrow> adapter_run" where
  "web3_adapter body E =
     run_bind (run_ask (ad_connect E)) (\<lambda>_.
     run_bind (or_failed (body E)) (\<lambda>_.
     run_bind (run_ask (ad_close E)) (\<lambda>_.
     run_ask (Inl (ProcessExit 0)))))"

text \<open>\<^verbatim>\<open>new web3.eth.Contract(JSON.parse(fs.readFileSync(path)), address)\<close>\<close>

definition open_contract :: "adapter_env \<Rightarrow> string \<Rightarrow> string \<Rightarrow> adapter_run" where
  "open_contract E abiPath address =
     run_bind (run_ask (msg_res (ad_readJson E abiPath))) (\<lambda>abi. run_ask (msg_res (ad_contract E abi address)))"

definition send_call :: "adapter_env \<Rightarrow> string \<Rightarrow> js_value list \<Rightarrow> string \<Rightarrow> nat option \<Rightarrow> (adapter_effect, js_value) run" where
  "send_call E meth args sender gasPrice = run_do (SendCall meth args sender gasPrice) (msg_res (ad_send E meth args))"

section \<open>Functions that change something\<close>

definition mintErc20_body :: "string \<Rightarrow> string \<Rightarrow> string \<Rightarrow> string \<Rightarrow> adapter_env \<Rightarrow> adapter_run" where
  "mintErc20_body ethAccountAddress amount ethErc20Address ethErc20AbiPath E =
     run_bind (open_contract E ethErc20AbiPath (remove0x ethErc20Address)) (\<lambda>_.
     run_bind (send_call E ''mint'' [JStr ethAccountAddress, ad_number E amount] ethAccountAddress None) (\<lambda>_.
     run_do (PrintLine ''OK'') (Inr ())))"

definition mintErc20 :: "string \<Rightarrow> string \<Rightarrow> string \<Rightarrow> string \<Rightarrow> adapter_env \<Rightarrow> adapter_run" where
  "mintErc20 ethAccountAddress amount ethErc20Address ethErc20AbiPath =
     web3_adapter (mintErc20_body ethAccountAddress amount ethErc20Address ethErc20AbiPath)"

definition ethToNearApprove_body :: "string \<Rightarrow> string \<Rightarrow> string \<Rightarrow> string \<Rightarrow> string \<Rightarrow> adapter_env \<Rightarrow> adapter_run" where
  "ethToNearApprove_body ethAccountAddress amount ethErc20Address ethErc20AbiPath ethLockerAddress E =
     run_bind (open_contract E ethErc20AbiPath (remove0x ethErc20Address)) (\<lambda>_.
     run_bind (send_call E ''approve'' [JStr ethLockerAddress, ad_number E amount] ethAccountAddress None) (\<lambda>_.
     run_do (PrintLine ''OK'') (Inr ())))"

definition ethToNearApprove :: "string \<Rightarrow> string \<Rightarrow> string \<Rightarrow> string \<Rightarrow> string \<Rightarrow> adapter_env \<Rightarrow> adapter_run" where
  "ethToNearApprove ethAccountAddress amount ethErc20Address ethErc20AbiPath ethLockerAddress =
     web3_adapter (ethToNearApprove_body ethAccountAddress amount ethErc20Address ethErc20AbiPath ethLockerAddress)"

text \<open>\<^verbatim>\<open>transaction.events.Locked\<close> may raise; its error is a \<^verbatim>\<open>TypeError\<close>.\<close>

definition ethToNearLock_body :: "string \<Rightarrow> string \<Rightarrow> string \<Rightarrow> string \<Rightarrow> string \<Rightarrow> string \<Rightarrow> adapter_env \<Rightarrow> adapter_run" where
  "ethToNearLock_body ethAccountAddress amount nearAccountName ethErc20Address ethLockerAbiPath ethLockerAddress E =
     run_bind (open_contract E ethLockerAbiPath ethLockerAddress) (\<lambda>_.
     run_bind (send_call E ''lockToken'' [JStr ethErc20Address, ad_number E amount, JStr nearAccountName] ethAccountAddress None) (\<lambda>transaction.
     run_bind (run_ask (js_get transaction ''events'')) (\<lambda>events.
     run_bind (run_ask (js_get events ''Locked'')) (\<lambda>lockedEvent.
     run_bind (run_do (PrintLine ''OK'') (Inr ())) (\<lambda>_.
     run_do (PrintEvent (json_tree True lockedEvent)) (Inr ()))))))"

definition ethToNearLock :: "string \<Rightarrow> string \<Rightarrow> string \<Rightarrow> string \<Rightarrow> string \<Rightarrow> string \<Rightarrow> adapter_env \<Rightarrow> adapter_run" where
  "ethToNearLock ethAccountAddress amount nearAccountName ethErc20Address ethLockerAbiPath ethLockerAddress =
     web3_adapter (ethToNearLock_body ethAccountAddress amount nearAccountName ethErc20Address ethLockerAbiPath ethLockerAddress)"

text \<open>An exception inside the encoder is only printed, by its text.\<close>

definition as_text :: "(js_error \<Rightarrow> string) \<Rightarrow> 'a res \<Rightarrow> string + 'a" where
  "as_text f r = (case r of Inl e \<Rightarrow> Inl (f e) | Inr x \<Rightarrow> Inr x)"

definition nearToEthUnlock_body :: "string \<Rightarrow> string \<Rightarrow> string \<Rightarrow> string \<Rightarrow> string \<Rightarrow> nat \<Rightarrow> adapter_env \<Rightarrow> adapter_run" where
  "nearToEthUnlock_body blockHeight proofText ethMasterSk ethLockerAddress ethLockerAbiPath multiplier E =
     run_bind (run_ask (msg_res (ad_account E (normalizeEthKey ethMasterSk)))) (\<lambda>ethMasterAccount.
     run_bind (open_contract E ethLockerAbiPath ethLockerAddress) (\<lambda>_.
     run_bind (run_ask (msg_res (ad_parseProof E proofText))) (\<lambda>parsed.
     run_bind (run_ask (msg_res (as_text (ad_errorText E) (borshifyOutcomeProof (ad_lib E) parsed)))) (\<lambda>borshProof.
     run_bind (run_ask (msg_res (ad_gasPrice E))) (\<lambda>price.
     run_bind (send_call E ''unlockToken'' [JBytes borshProof, ad_number E blockHeight] ethMasterAccount (Some (price * multiplier))) (\<lambda>_.
     run_do (PrintLine ''OK'') (Inr ())))))))"

definition nearToEthUnlock :: "string \<Rightarrow> string \<Rightarrow> string \<Rightarrow> string \<Rightarrow> string \<Rightarrow> nat \<Rightarrow> adapter_env \<Rightarrow> adapter_run" where
  "nearToEthUnlock blockHeight proofText ethMasterSk ethLockerAddress ethLockerAbiPath multiplier =
     web3_adapter (nearToEthUnlock_body blockHeight proofText ethMasterSk ethLockerAddress ethLockerAbiPath multiplier)"

section \<open>Functions that look something up\<close>

definition getAddressBySecretKey :: "string \<Rightarrow> adapter_env \<Rightarrow> adapter_run" where
  "getAddressBySecretKey ethSecretKey = web3_adapter (\<lambda>E.
     run_bind (run_ask (msg_res (ad_account E (normalizeEthKey ethSecretKey)))) (\<lambda>address.
     run_do (PrintLine address) (Inr ())))"

definition getErc20Balance :: "string \<Rightarrow> string \<Rightarrow> string \<Rightarrow> adapter_env \<Rightarrow> adapter_run" where
  "getErc20Balance ethAccountAddress ethErc20Address ethErc20AbiPath = web3_adapter (\<lambda>E.
     run_bind (open_contract E ethErc20AbiPath (remove0x ethErc20Address)) (\<lambda>_.
     run_bind (run_ask (msg_res (ad_view E ''balanceOf'' [JStr (remove0x ethAccountAddress)]))) (\<lambda>balance.
     run_do (PrintLine balance) (Inr ()))))"

definition getClientBlockHeightHash :: "string \<Rightarrow> string \<Rightarrow> adapter_env \<Rightarrow> adapter_run" where
  "getClientBlockHeightHash ethClientAddress ethClientArtifactPath = web3_adapter (\<lambda>E.
     run_bind (run_ask (msg_res (ad_readJson E ethClientArtifactPath))) (\<lambda>artifact.
     run_bind (run_ask (js_get artifact ''abi'')) (\<lambda>abi.
     run_bind (run_ask (msg_res (ad_contract E abi ethClientAddress))) (\<lambda>_.
     run_bind (run_ask (msg_res (ad_clientHeight E))) (\<lambda>currentHeight.
     run_bind (run_ask (msg_res (ad_clientHash E currentHeight))) (\<lambda>h.
     run_do (PrintLine (decimal currentHeight @ '' '' @ ad_bs58 E h)) (Inr ())))))))"

definition getBridgeOnNearBalance :: "string \<Rightarrow> adapter_env \<Rightarrow> adapter_run" where
  "getBridgeOnNearBalance nearReceiverAccount E =
     run_bind (or_failed
       (run_bind (run_ask (msg_res (ad_nearConnect E))) (\<lambda>_.
        run_bind (run_ask (msg_res (ad_nearBalance E nearReceiverAccount))) (\<lambda>balance.
        run_do (PrintLine (''[Rainbow-Bridge on Near] Balance of '' @ nearReceiverAccount @ '' is '' @ balance)) (Inr ()))))) (\<lambda>_.
     run_ask (Inl (ProcessExit 0)))"

section \<open>The agreement\<close>

fun first_line :: "adapter_effect list \<Rightarrow> string option" where
  "first_line [] = None"
| "first_line (PrintLine s # es) = Some s"
| "first_line (PrintEvent v # es) = Some ''event''"
| "first_line (SendCall m as s p # es) = first_line es"

text \<open>
  What a changing function has to do inside its \<^verbatim>\<open>try\<close>: it sends one transaction; it prints \<^verbatim>\<open>OK\<close> first, and only after the
  transaction went through; when it raises it has printed nothing and does not end the process.
\<close>

locale adapter_change =
  fixes body :: "adapter_env \<Rightarrow> adapter_run"
  assumes body_ok: "snd (body E) = Inr () \<Longrightarrow>
      first_line (fst (body E)) = Some ''OK'' \<and> (\<exists>m as s p es r. fst (body E) = SendCall m as s p # es \<and> ad_send E m as = Inr r)"
    and body_failed: "snd (body E) = Inl e \<Longrightarrow> first_line (fst (body E)) = None \<and> (\<forall>n. e \<noteq> ProcessExit n)"
begin

lemma first_line_append: "first_line es = None \<Longrightarrow> first_line (es @ fs) = first_line fs"
  by (induction es rule: first_line.induct) auto

lemma failed_line_not_OK: "failed_line e \<noteq> ''OK''"
  by (cases e) auto

lemma or_failed_line:
  "snd (or_failed (body E)) = Inr () \<and> (first_line (fst (or_failed (body E))) = Some ''OK'' \<longleftrightarrow> snd (body E) = Inr ())
   \<and> (snd (body E) = Inr () \<longrightarrow> fst (or_failed (body E)) = fst (body E))"
proof (cases "snd (body E)")
  case (Inr u)
  then have "or_failed (body E) = (fst (body E), Inr ())"
    by (cases "body E") (simp add: or_failed_def run_catch_def)
  with Inr show ?thesis using body_ok by simp
next
  case (Inl e)
  note failed = body_failed [OF Inl]
  then have "or_failed (body E) = (fst (body E) @ [PrintLine (failed_line e)], Inr ())"
    using Inl run_catch_simps(3) [of e "fst (body E)" "\<lambda>e. run_do (PrintLine (failed_line e)) (Inr ())"]
    by (cases "body E") (auto simp: or_failed_def)
  then show ?thesis using failed Inl by (simp add: first_line_append failed_line_not_OK)
qed

text \<open>The function ends the process with the code 0, and its first line is \<^verbatim>\<open>OK\<close> just when its transaction went through.\<close>

lemma follows_agreement:
  assumes "ad_connect E = Inr ()" "ad_close E = Inr ()"
  shows "snd (web3_adapter body E) = Inl (ProcessExit 0)
    \<and> (first_line (fst (web3_adapter body E)) = Some ''OK'' \<longleftrightarrow> snd (body E) = Inr ())
    \<and> (first_line (fst (web3_adapter body E)) = Some ''OK'' \<longrightarrow>
        (\<exists>m as s p es r. fst (web3_adapter body E) = SendCall m as s p # es \<and> ad_send E m as = Inr r))"
proof -
  have *: "web3_adapter body E = (fst (or_failed (body E)), Inl (ProcessExit 0))"
    using assms or_failed_line [of E] by (cases "or_failed (body E)") (simp add: web3_adapter_def run_simps)
  show ?thesis
  proof (cases "snd (body E) = Inr ()")
    case True
    then show ?thesis using or_failed_line [of E] body_ok [OF True] unfolding * fst_conv snd_conv by metis
  next
    case False
    then show ?thesis using or_failed_line [of E] unfolding * by simp
  qed
qed

end

lemma open_contract_silent [simp]: "fst (open_contract E p a) = []"
  by (cases "ad_readJson E p") (auto simp: open_contract_def msg_res_def run_simps)

lemma msg_res_failed: "msg_res r = Inl e \<Longrightarrow> e \<noteq> ProcessExit n"
  by (auto simp: msg_res_def split: sum.splits)

lemma js_get_failed: "js_get v k = Inl e \<Longrightarrow> e \<noteq> ProcessExit n"
  by (cases v) auto

lemma open_contract_failed: "snd (open_contract E p a) = Inl e \<Longrightarrow> e \<noteq> ProcessExit n"
  by (cases "ad_readJson E p") (auto simp: open_contract_def msg_res_def run_simps split: sum.splits)

text \<open>The four functions have one shape: what they prepare is silent, then comes the transaction, then the report.\<close>

lemma change_shape:
  assumes "body E = run_bind prep (\<lambda>x. run_bind (send_call E meth (args x) (sender x) (price x)) report)"
    and "fst prep = []" "\<And>e n. snd prep = Inl e \<Longrightarrow> e \<noteq> ProcessExit n"
    and "\<And>r. snd (report r) = Inr () \<Longrightarrow> first_line (fst (report r)) = Some ''OK''"
    and "\<And>r e n. snd (report r) = Inl e \<Longrightarrow> first_line (fst (report r)) = None \<and> e \<noteq> ProcessExit n"
  shows "(snd (body E) = Inr () \<longrightarrow> first_line (fst (body E)) = Some ''OK''
      \<and> (\<exists>m as s p es r. fst (body E) = SendCall m as s p # es \<and> ad_send E m as = Inr r))
    \<and> (snd (body E) = Inl e \<longrightarrow> first_line (fst (body E)) = None \<and> (\<forall>n. e \<noteq> ProcessExit n))"
proof (cases "snd prep")
  case (Inl e')
  then have "body E = ([], Inl e')" using assms(1,2) by (cases prep) (simp add: run_simps)
  then show ?thesis using assms(3) [OF Inl] by auto
next
  case prep: (Inr x)
  have b: "body E = run_bind (send_call E meth (args x) (sender x) (price x)) report"
    using assms(1,2) prep by (cases prep) (simp add: run_simps)
  show ?thesis
  proof (cases "ad_send E meth (args x)")
    case (Inl m)
    then have "body E = ([SendCall meth (args x) (sender x) (price x)], Inl (LibraryError m))"
      by (simp add: b send_call_def msg_res_def run_simps)
    then show ?thesis by auto
  next
    case (Inr r)
    then have "body E = (SendCall meth (args x) (sender x) (price x) # fst (report r), snd (report r))"
      by (simp add: b send_call_def msg_res_def run_simps)
    then show ?thesis using Inr assms(4,5) [of r] by auto
  qed
qed

interpretation mint: adapter_change "mintErc20_body acct amount erc20 abi"
  using change_shape [where body = "mintErc20_body acct amount erc20 abi" and report = "\<lambda>_. run_do (PrintLine ''OK'') (Inr ())",
      OF mintErc20_body_def open_contract_silent open_contract_failed]
  by unfold_locales auto

interpretation approve: adapter_change "ethToNearApprove_body acct amount erc20 abi locker"
  using change_shape [where body = "ethToNearApprove_body acct amount erc20 abi locker" and report = "\<lambda>_. run_do (PrintLine ''OK'') (Inr ())",
      OF ethToNearApprove_body_def open_contract_silent open_contract_failed]
  by unfold_locales auto

definition lock_report :: "js_value \<Rightarrow> adapter_run" where
  "lock_report transaction =
     run_bind (run_ask (js_get transaction ''events'')) (\<lambda>events.
     run_bind (run_ask (js_get events ''Locked'')) (\<lambda>lockedEvent.
     run_bind (run_do (PrintLine ''OK'') (Inr ())) (\<lambda>_.
     run_do (PrintEvent (json_tree True lockedEvent)) (Inr ()))))"

lemma lock_report_ok: "snd (lock_report r) = Inr () \<Longrightarrow> first_line (fst (lock_report r)) = Some ''OK''"
  by (auto simp: lock_report_def run_bind_Inr_iff run_bind_effects)

lemma lock_report_failed: "snd (lock_report r) = Inl e \<Longrightarrow> first_line (fst (lock_report r)) = None \<and> e \<noteq> ProcessExit n"
  by (auto simp: lock_report_def run_bind_Inl_iff run_bind_effects dest: js_get_failed)

interpretation lock: adapter_change "ethToNearLock_body acct amount near erc20 abi locker"
  using change_shape [where body = "ethToNearLock_body acct amount near erc20 abi locker" and report = lock_report,
      OF ethToNearLock_body_def [folded lock_report_def] open_contract_silent open_contract_failed lock_report_ok lock_report_failed]
  by unfold_locales auto

definition unlock_prep :: "string \<Rightarrow> string \<Rightarrow> string \<Rightarrow> string \<Rightarrow> adapter_env \<Rightarrow> (adapter_effect, string \<times> bytes \<times> nat) run" where
  "unlock_prep proofText ethMasterSk ethLockerAddress ethLockerAbiPath E =
     run_bind (run_ask (msg_res (ad_account E (normalizeEthKey ethMasterSk)))) (\<lambda>ethMasterAccount.
     run_bind (open_contract E ethLockerAbiPath ethLockerAddress) (\<lambda>_.
     run_bind (run_ask (msg_res (ad_parseProof E proofText))) (\<lambda>parsed.
     run_bind (run_ask (msg_res (as_text (ad_errorText E) (borshifyOutcomeProof (ad_lib E) parsed)))) (\<lambda>borshProof.
     run_bind (run_ask (msg_res (ad_gasPrice E))) (\<lambda>price.
     run_ret (ethMasterAccount, borshProof, price))))))"

lemma unlock_prep_silent: "fst (unlock_prep pt sk locker abi E) = []"
  by (auto simp: unlock_prep_def run_bind_effects split: sum.splits)

lemma unlock_prep_failed: "snd (unlock_prep pt sk locker abi E) = Inl e \<Longrightarrow> e \<noteq> ProcessExit n"
  by (auto simp: unlock_prep_def run_bind_Inl_iff dest: msg_res_failed open_contract_failed)

lemma unlock_body_shape: "nearToEthUnlock_body hgt pt sk locker abi mult E = run_bind (unlock_prep pt sk locker abi E) (\<lambda>(acct, prf, price).
    run_bind (send_call E ''unlockToken'' [JBytes prf, ad_number E hgt] acct (Some (price * mult))) (\<lambda>_. run_do (PrintLine ''OK'') (Inr ())))"
  by (simp add: nearToEthUnlock_body_def unlock_prep_def run_bind_assoc run_simps(3))

interpretation unlock: adapter_change "nearToEthUnlock_body hgt pt sk locker abi mult"
  using change_shape [where body = "nearToEthUnlock_body hgt pt sk locker abi mult" and report = "\<lambda>_. run_do (PrintLine ''OK'') (Inr ())",
      OF unlock_body_shape [unfolded case_prod_beta] unlock_prep_silent unlock_prep_failed]
  by unfold_locales auto


text \<open>
  The closing is outside of the \<^verbatim>\<open>try\<close>: over HTTP, where a provider has no \<^verbatim>\<open>connection\<close>, the function raises a TypeError instead of ending
  the process.
\<close>

lemma adapter_without_connection:
  "ad_connect E = Inr () \<Longrightarrow> ad_close E = Inl JsTypeError \<Longrightarrow> snd (mintErc20 acct amount erc20 abi E) = Inl JsTypeError"
  using mint.or_failed_line [of acct amount erc20 abi E]
  by (cases "or_failed (mintErc20_body acct amount erc20 abi E)") (simp add: mintErc20_def web3_adapter_def run_simps)

definition demo_adapter :: adapter_env where
  "demo_adapter = \<lparr>ad_connect = Inr (), ad_close = Inr (), ad_readJson = (\<lambda>_. Inr (JArr [])), ad_contract = (\<lambda>_ _. Inr ()),
     ad_number = (\<lambda>_. JInt 5), ad_send = (\<lambda>m as. if m = ''mint'' then Inr (JObj []) else Inl ''reverted''), ad_view = (\<lambda>_ _. Inr ''0''),
     ad_account = (\<lambda>_. Inr ''0x01''), ad_gasPrice = Inr 1, ad_parseProof = (\<lambda>_. Inl ''bad''), ad_lib = demo_lib, ad_errorText = (\<lambda>_. ''error''),
     ad_clientHeight = Inr 1, ad_clientHash = (\<lambda>_. Inr []), ad_bs58 = (\<lambda>_. ''1''), ad_nearConnect = Inr (), ad_nearBalance = (\<lambda>_. Inr ''0'')\<rparr>"


end
