(* ===== verification/Address_Watcher.thy ===== *)
theory Address_Watcher
  imports Watchdog Cli_Services "HOL-Library.Multiset"
begin

text \<open>
  The address watcher, \<^verbatim>\<open>utils/address-watcher.js\<close>, with the accounts \<^verbatim>\<open>cli/commands/start/address-watcher.js\<close> gives it: it shows
  the balances of accounts on both chains as gauges of Prometheus.

  In every round all accounts are asked at once, and an answer sets the gauges of its account when it comes; \<open>order\<close> is
  the order in which the answers of a round come, any permutation of the accounts. The gauges are a map from the names of the metrics.
  The theorem shows that the order does not matter and that an account that cannot be read keeps its last values.
\<close>

section \<open>Accounts and gauges\<close>

record watched =
  wa_near :: bool
  wa_id :: string
  wa_name :: string
  wa_description :: string

definition watcher_prefix :: string where
  "watcher_prefix = ''near_bridge_address_watcher_''"

definition balance_gauge :: "watched \<Rightarrow> string" where
  "balance_gauge a = metric_name watcher_prefix (wa_name a @ (if wa_near a then ''_balance_nano_near'' else ''_balance_gwei''))"

definition storage_gauge :: "watched \<Rightarrow> string" where
  "storage_gauge a = metric_name watcher_prefix (wa_name a @ ''_storage_bytes'')"

definition account_gauges :: "watched \<Rightarrow> string list" where
  "account_gauges a = (if wa_near a then [balance_gauge a, storage_gauge a] else [balance_gauge a])"

text \<open>The package prom-client refuses a second metric of the same name.\<close>

fun register_gauges :: "string list \<Rightarrow> string list \<Rightarrow> string list res" where
  "register_gauges known [] = Inr known"
| "register_gauges known (g # gs) = (if g \<in> set known then Inl (LibraryError ''prom-client'') else register_gauges (known @ [g]) gs)"

definition watcher_initialize :: "unit res \<Rightarrow> watched list \<Rightarrow> watched list \<Rightarrow> string list res" where
  "watcher_initialize connecting nearAccounts ethereumAccounts =
     res_bind connecting (\<lambda>_. register_gauges [] (concat (map account_gauges (nearAccounts @ ethereumAccounts))))"

text \<open>The accounts of the command; \<open>None\<close> for the list of a file stands for an empty path.\<close>

definition command_accounts :: "string \<Rightarrow> string \<Rightarrow> string res \<Rightarrow> (watched list \<times> watched list) res option \<Rightarrow> (watched list \<times> watched list) res" where
  "command_accounts nearClientAccount nearMasterAccount ethMaster monitorList =
     res_bind ethMaster (\<lambda>address.
     res_bind (case monitorList of None \<Rightarrow> Inr ([], []) | Some r \<Rightarrow> r) (\<lambda>(near, ethereum).
     Inr ([\<lparr>wa_near = True, wa_id = nearClientAccount, wa_name = ''near_client_account'', wa_description = ''eth on near client account''\<rparr>,
           \<lparr>wa_near = True, wa_id = nearMasterAccount, wa_name = ''near_relayer_account'', wa_description = ''near relayer account''\<rparr>] @ near,
          [\<lparr>wa_near = False, wa_id = address, wa_name = ''ethereum_master_account'', wa_description = ''ethereum master sk''\<rparr>] @ ethereum)))"

section \<open>A round\<close>

text \<open>\<^verbatim>\<open>toNumber\<close> of bn.js asserts that the number has at most 53 bits.\<close>

definition bn_toNumber :: "nat \<Rightarrow> nat res" where
  "bn_toNumber n = (if n < 2 ^ 53 then Inr n else Inl (LibraryError ''Number can only safely store up to 53 bits''))"

definition nearYocto2Nano :: nat where "nearYocto2Nano = 10 ^ 15"
definition ethWei2Gwei :: nat where "ethWei2Gwei = 10 ^ 9"

text \<open>
  The answer for an account is its amount (in yocto near or wei) and, on NEAR, its storage. An exception is logged. The two gauges of an account on
  NEAR are set one right after the other, when both numbers are there.
\<close>

definition account_updates :: "watched \<Rightarrow> (nat \<times> nat) res \<Rightarrow> (string \<times> nat) list" where
  "account_updates a answer = (case
     res_bind answer (\<lambda>(amount, storage).
       if wa_near a
       then res_bind (bn_toNumber (amount div nearYocto2Nano)) (\<lambda>balanceNanoNear.
            res_bind (bn_toNumber storage) (\<lambda>storageBytes.
            Inr [(balance_gauge a, balanceNanoNear), (storage_gauge a, storageBytes)]))
       else res_bind (bn_toNumber (amount div ethWei2Gwei)) (\<lambda>balanceGwei.
            Inr [(balance_gauge a, balanceGwei)]))
     of Inl _ \<Rightarrow> [] | Inr us \<Rightarrow> us)"

type_synonym gauges = "string \<rightharpoonup> nat"

definition set_gauges :: "(string \<times> nat) list \<Rightarrow> gauges \<Rightarrow> gauges" where
  "set_gauges us g = fold (\<lambda>(k, v) g. g(k \<mapsto> v)) us g"

definition watcher_round :: "(watched \<Rightarrow> (nat \<times> nat) res) \<Rightarrow> watched list \<Rightarrow> gauges \<Rightarrow> gauges" where
  "watcher_round answer order g = fold (\<lambda>a. set_gauges (account_updates a (answer a))) order g"

text \<open>The loop, for the answers of the first rounds; the pause of a second between rounds changes nothing.\<close>

fun watcher_run :: "(nat \<Rightarrow> watched \<Rightarrow> (nat \<times> nat) res) \<Rightarrow> (nat \<Rightarrow> watched list) \<Rightarrow> nat \<Rightarrow> gauges \<Rightarrow> gauges" where
  "watcher_run answers orders 0 g = g"
| "watcher_run answers orders (Suc n) g = watcher_round (answers n) (orders n) (watcher_run answers orders n g)"

section \<open>Gauges belong to one account\<close>

lemma mset_concat_map: "mset (concat (map f xs)) = (\<Sum>a\<in>#mset xs. mset (f a))"
  by (induction xs) auto

lemma register_gauges_Inr: "register_gauges known gs = Inr ks \<Longrightarrow> ks = known @ gs \<and> distinct gs \<and> set gs \<inter> set known = {}"
  by (induction known gs rule: register_gauges.induct) (auto split: if_splits)

lemma account_updates_gauges: "fst ` set (account_updates a r) \<subseteq> set (account_gauges a)"
  by (cases r) (auto simp: account_updates_def account_gauges_def bn_toNumber_def split: if_splits)

lemma set_gauges_other: "k \<notin> fst ` set us \<Longrightarrow> set_gauges us g k = g k"
  unfolding set_gauges_def by (induction us arbitrary: g) auto

lemma set_gauges_local: "g k = g' k \<Longrightarrow> set_gauges us g k = set_gauges us g' k"
  unfolding set_gauges_def
proof (induction us arbitrary: g g')
  case (Cons u us)
  obtain l v where u: "u = (l, v)" by fastforce
  have "(g(l \<mapsto> v)) k = (g'(l \<mapsto> v)) k" using Cons.prems by simp
  from Cons.IH [of "g(l \<mapsto> v)" "g'(l \<mapsto> v)", OF this] show ?case unfolding u by simp
qed simp

lemma watcher_round_other: "k \<notin> (\<Union>a\<in>set order. set (account_gauges a)) \<Longrightarrow> watcher_round answer order g k = g k"
proof (induction order arbitrary: g)
  case (Cons a order)
  then have "k \<notin> fst ` set (account_updates a (answer a))" using account_updates_gauges by fastforce
  with Cons show ?case by (simp add: watcher_round_def set_gauges_other)
qed (simp add: watcher_round_def)

lemma watcher_round_own:
  assumes "distinct (concat (map account_gauges order))" "a \<in> set order" "k \<in> set (account_gauges a)"
  shows "watcher_round answer order g k = set_gauges (account_updates a (answer a)) g k"
  using assms
proof (induction order arbitrary: g)
  case (Cons b order)
  let ?g = "set_gauges (account_updates b (answer b)) g"
  have step: "watcher_round answer (b # order) g = watcher_round answer order ?g" by (simp add: watcher_round_def)
  show ?case
  proof (cases "a = b")
    case True
    then have "k \<notin> (\<Union>a\<in>set order. set (account_gauges a))" using Cons.prems by auto
    then show ?thesis using step True by (simp add: watcher_round_other)
  next
    case False
    then have a: "a \<in> set order" using Cons.prems by simp
    then have "k \<notin> set (account_gauges b)" using Cons.prems by auto
    then have "?g k = g k" using account_updates_gauges by (intro set_gauges_other) blast
    then show ?thesis using step Cons.IH [of ?g] Cons.prems a set_gauges_local by (metis concat.simps(2) distinct_append list.simps(9))
  qed
qed simp

text \<open>
  C37. A round shows exactly what was read: once the watcher could register its gauges, after a round, in whatever order the answers came, the gauges of
  an account that was read are its balance in whole nano near or gwei, and its storage, and those of an account that could not be read, or
  whose numbers do not fit, are unchanged.
\<close>

theorem watcher_round_shows:
  assumes "watcher_initialize connecting nearAccounts ethereumAccounts = Inr names"
    and "mset order = mset (nearAccounts @ ethereumAccounts)" "a \<in> set order" "k \<in> set (account_gauges a)"
  shows "watcher_round answer order g k = (case answer a of
      Inl _ \<Rightarrow> g k
    | Inr (amount, storage) \<Rightarrow>
        if wa_near a then
          if amount div 10 ^ 15 < 2 ^ 53 \<and> storage < 2 ^ 53
          then Some (if k = balance_gauge a then amount div 10 ^ 15 else storage) else g k
        else if amount div 10 ^ 9 < 2 ^ 53 then Some (amount div 10 ^ 9) else g k)"
proof -
  have "register_gauges [] (concat (map account_gauges (nearAccounts @ ethereumAccounts))) = Inr names"
    using assms(1) unfolding watcher_initialize_def res_bind_eq_Inr_iff by blast
  then have "distinct (concat (map account_gauges (nearAccounts @ ethereumAccounts)))"
    using register_gauges_Inr by blast
  moreover have "mset (concat (map account_gauges order)) = mset (concat (map account_gauges (nearAccounts @ ethereumAccounts)))"
    unfolding mset_concat_map assms(2) ..
  ultimately have d: "distinct (concat (map account_gauges order))"
    by (metis mset_eq_imp_distinct_iff)
  have ne: "balance_gauge a \<noteq> storage_gauge a" if "wa_near a"
    using that by (simp add: balance_gauge_def storage_gauge_def metric_name_def)
  show ?thesis
    unfolding watcher_round_own [OF d assms(3,4)] set_gauges_def
    using assms(4) ne
    by (cases "answer a") (auto simp: account_updates_def account_gauges_def bn_toNumber_def nearYocto2Nano_def ethWei2Gwei_def)
qed

section \<open>A concrete round\<close>

definition demo_accounts :: "watched list \<times> watched list" where
  "demo_accounts = (case command_accounts ''client.near'' ''relayer.near'' (Inr ''0x01'') None of Inr p \<Rightarrow> p | Inl _ \<Rightarrow> ([], []))"

definition demo_answer :: "watched \<Rightarrow> (nat \<times> nat) res" where
  "demo_answer a = (if wa_near a then Inr (7 * 10 ^ 15 + 3, 100) else Inl (LibraryError ''offline''))"

lemma demo_watcher_initialize: "\<exists>names. watcher_initialize (Inr ()) (fst demo_accounts) (snd demo_accounts) = Inr names"
  by (simp add: watcher_initialize_def demo_accounts_def command_accounts_def account_gauges_def balance_gauge_def storage_gauge_def
      metric_name_def watcher_prefix_def)

lemma watcher_round_shows_witness:
  "watcher_round demo_answer (rev (fst demo_accounts @ snd demo_accounts)) Map.empty
     ''near_bridge_address_watcher_near_client_account_balance_nano_near'' = Some 7"
proof -
  let ?a = "hd (fst demo_accounts)"
  obtain names where names: "watcher_initialize (Inr ()) (fst demo_accounts) (snd demo_accounts) = Inr names"
    using demo_watcher_initialize by blast
  have k: "''near_bridge_address_watcher_near_client_account_balance_nano_near'' = balance_gauge ?a" "wa_near ?a"
    by (simp_all add: demo_accounts_def command_accounts_def balance_gauge_def metric_name_def watcher_prefix_def)
  have a: "?a \<in> set (rev (fst demo_accounts @ snd demo_accounts))" by (simp add: demo_accounts_def command_accounts_def)
  have m: "mset (rev (fst demo_accounts @ snd demo_accounts)) = mset (fst demo_accounts @ snd demo_accounts)" by simp
  have g: "balance_gauge ?a \<in> set (account_gauges ?a)" by (simp add: account_gauges_def)
  show ?thesis
    unfolding k(1) watcher_round_shows [OF names m a g, of demo_answer Map.empty] using k(2) by (simp add: demo_answer_def)
qed

end
