(* ===== verification/Cli_Local.thy ===== *)
theory Cli_Local
  imports Cli_Services Near2Eth_Relay Accounts
begin

text \<open>
  The commands around a local installation: \<^verbatim>\<open>clean\<close>, \<^verbatim>\<open>prepare\<close>, the start of the local nodes
  (\<^verbatim>\<open>cli/commands/start/ganache.js\<close>, \<^verbatim>\<open>near.js\<close>), the two \<^verbatim>\<open>DANGER\<close> commands, and the set-up of connections in
  \<^verbatim>\<open>utils/utils.js\<close>. Programs that are run are effects with their command line; their outcome, like that of pm2, of reading files and
  of the Ethereum node, is an argument.
\<close>

section \<open>Scripts and shells\<close>

datatype local_effect =
    Shell string
  | ShellEnv string "(string \<times> js_value) list"
  | KillDaemon
  | Disconnect
  | WriteJson string js_value
  | DeployErc20 string nat nat
  | Printed string

text \<open>\<^verbatim>\<open>getScript\<close>; \<^verbatim>\<open>__dirname\<close> is an absolute path, on which \<^verbatim>\<open>path.resolve\<close> does nothing more.\<close>

definition getScript :: "string \<Rightarrow> string \<Rightarrow> string" where
  "getScript utils_dirname name = path_join [utils_dirname, ''scripts/'' @ name @ ''.sh'']"

text \<open>
  \<^verbatim>\<open>clean\<close>: the error of connecting to pm2 is only logged, as is that of \<^verbatim>\<open>nearup\<close>; an error of killing the daemon ends the process.
\<close>

definition CleanCommand :: "unit res \<Rightarrow> (string \<Rightarrow> unit res) \<Rightarrow> (local_effect, unit) run" where
  "CleanCommand killed shell =
     run_bind (run_do KillDaemon (Inr ())) (\<lambda>_.
     run_bind (run_ask (case killed of Inl _ \<Rightarrow> Inl (ProcessExit 1) | Inr _ \<Rightarrow> Inr ())) (\<lambda>_.
     run_bind (run_do Disconnect (Inr ())) (\<lambda>_.
     run_bind (run_catch (run_do (Shell ''nearup stop'') (shell ''nearup stop'')) (\<lambda>_. run_ret ())) (\<lambda>_.
     run_bind (run_do (Shell ''rm -rf ~/.rainbow ~/.near/localnet'') (shell ''rm -rf ~/.rainbow ~/.near/localnet'')) (\<lambda>_.
     run_bind (run_do (Shell ''rm -f /tmp/near2ethtransfer.out /tmp/eth2neartransfer.out'')
       (shell ''rm -f /tmp/near2ethtransfer.out /tmp/eth2neartransfer.out'')) (\<lambda>_.
     run_ask (Inl (ProcessExit 0))))))))"

text \<open>\<^verbatim>\<open>prepare\<close>: the environment of the script is a copy of the process's one with one more variable; \<open>resolve\<close> is \<^verbatim>\<open>path.resolve\<close>.\<close>

definition PrepareCommand :: "string \<Rightarrow> (string \<Rightarrow> string) \<Rightarrow> (string \<times> js_value) list \<Rightarrow> js_value \<Rightarrow> (local_effect, unit) run" where
  "PrepareCommand utils_dirname resolve process_env coreSrc =
     run_do (ShellEnv (''bash '' @ getScript utils_dirname ''prepare'')
       (assoc_set (fold (\<lambda>(k, v) env. assoc_set env k v) process_env []) ''LOCAL_CORE_SRC''
         (case coreSrc of JStr s \<Rightarrow> if s = '''' then coreSrc else JStr (resolve s) | _ \<Rightarrow> coreSrc))) (Inr ())"

section \<open>Local nodes\<close>

definition ganache_config :: "string \<Rightarrow> pm2_config" where
  "ganache_config utils_dirname = \<lparr>pm_name = ''ganache'', pm_script = getScript utils_dirname ''start_ganache'', pm_interpreter = '''',
     pm_error_file = ''~/.rainbow/logs/ganache/err.log'', pm_out_file = ''~/.rainbow/logs/ganache/out.log'', pm_args = [], pm_wait_ready = False\<rparr>"

text \<open>The values are returned at once, whatever becomes of the process.\<close>

definition StartGanacheNodeCommand :: "string \<Rightarrow> bool \<Rightarrow> string list option \<Rightarrow> (service_effect, unit) run \<times> (string \<times> js_value) list" where
  "StartGanacheNodeCommand utils_dirname running_pm2 described =
     (if \<not> running_pm2 then run_ret () else spawnProcess described (ganache_config utils_dirname), ganache_values)"

definition NEAR_PORT :: nat where "NEAR_PORT = 3030"
definition GANACHE_PORT :: nat where "GANACHE_PORT = 9545"

definition getLocalNearNodeURL :: "nat \<Rightarrow> string" where "getLocalNearNodeURL port = ''http://localhost:'' @ decimal port"
definition getLocalGanacheNodeURL :: "nat \<Rightarrow> string" where "getLocalGanacheNodeURL port = ''http://localhost:'' @ decimal port"

definition NEAR_BINARY_PATH :: "string \<Rightarrow> string" where
  "NEAR_BINARY_PATH HOME = path_join [HOME, ''.rainbow/core/target/debug'']"

text \<open>
  The callback of the request: \<open>up\<close> says whether something answers at the port, and \<open>config\<close> is the outcome of reading the
  configuration the node has written.
\<close>

definition local_near_callback :: "string \<Rightarrow> string \<Rightarrow> bool \<Rightarrow> (string \<Rightarrow> unit res) \<Rightarrow> (string \<times> js_value) list res \<Rightarrow> (local_effect, unit) run" where
  "local_near_callback HOME archival up shell config =
     (let initConfig = path_join [NEAR_BINARY_PATH HOME, ''neard''] @ '' --home '' @ path_join [HOME, ''/.near/localnet''] @ '' testnet  --v 1'';
          startNode = ''nearup run localnet --num-nodes 1 --binary-path '' @ NEAR_BINARY_PATH HOME
      in if up then run_ret ()
         else run_bind (run_do (Shell initConfig) (shell initConfig)) (\<lambda>_.
           run_bind (if archival = ''true''
             then run_bind (run_ask config) (\<lambda>kvs.
               run_do (WriteJson (path_join [HOME, ''.near/localnet/node0/config.json'']) (JObj (assoc_set kvs ''archive'' (JBool True)))) (Inr ()))
             else run_ret ()) (\<lambda>_.
           run_do (Shell startNode) (shell startNode))))"

definition StartLocalNearNodeCommand :: "string \<Rightarrow> string \<Rightarrow> bool \<Rightarrow> (string \<Rightarrow> unit res) \<Rightarrow> (string \<times> js_value) list res \<Rightarrow> (local_effect, unit) run \<times> (string \<times> js_value) list" where
  "StartLocalNearNodeCommand HOME archival up shell config = (local_near_callback HOME archival up shell config, near_node_values)"

section \<open>Commands for testing the challenge\<close>

text \<open>The relay with \<^verbatim>\<open>submitInvalidBlock\<close>, as \<^verbatim>\<open>DANGERsubmitInvalidNearBlock\<close> and \<^verbatim>\<open>run\<close> set it.\<close>

definition DANGERsubmitInvalidNearBlock :: "bridge_lib \<Rightarrow> n2e_options \<Rightarrow> n2e_env list \<Rightarrow> (n2e_effect, int list) run" where
  "DANGERsubmitInvalidNearBlock L opts Es = runInternal L (opts\<lparr>submitInvalidBlock := True\<rparr>) Es"

definition near2eth_run :: "bridge_lib \<Rightarrow> n2e_options \<Rightarrow> n2e_env list \<Rightarrow> (n2e_effect, int list) run" where
  "near2eth_run L opts Es = runInternal L (opts\<lparr>submitInvalidBlock := False\<rparr>) Es"

definition DangerSubmitInvalidNearBlock :: "nat \<Rightarrow> bridge_lib \<Rightarrow> n2e_options \<Rightarrow> n2e_init_env \<Rightarrow> n2e_env list \<Rightarrow> (n2e_effect, int list) run" where
  "DangerSubmitInvalidNearBlock fuel L opts I Es =
     run_bind (n2e_initialize fuel L (ethGasMultiplier opts) I) (\<lambda>done.
     if done then DANGERsubmitInvalidNearBlock L opts Es else run_ret [])"

text \<open>
  Deploying the test token: \<open>account\<close> is the address for the secret key, \<open>abi\<close> and \<open>bin\<close> the outcomes of reading the two files, and \<open>deployed\<close> that of the
  transaction, with the address of the contract.
\<close>

definition DangerDeployMyERC20 :: "(string \<Rightarrow> string res) \<Rightarrow> unit res \<Rightarrow> string res \<Rightarrow> nat res \<Rightarrow> string res \<Rightarrow> string \<Rightarrow> nat \<Rightarrow> (local_effect, unit) run" where
  "DangerDeployMyERC20 account abi bin gasPrice deployed ethMasterSk mult =
     run_bind (run_ask (account (normalizeEthKey ethMasterSk))) (\<lambda>ethMasterAccount.
     run_bind (run_ask abi) (\<lambda>_.
     run_bind (run_ask bin) (\<lambda>code.
     run_bind (run_ask gasPrice) (\<lambda>price.
     run_bind (run_do (DeployErc20 (''0x'' @ code) 3000000 (price * mult)) deployed) (\<lambda>address.
     run_do (Printed (normalizeEthKey address)) (Inr ()))))))"

section \<open>Connections\<close>

text \<open>The key stores of a connection to NEAR, in the order in which they are searched; \<open>account\<close> is the content of the key file.\<close>

datatype local_keys = FileKeys string | MemoryKey string string string

definition createLocalKeyStore :: "string \<Rightarrow> string \<Rightarrow> string option \<Rightarrow> (string \<times> string) res \<Rightarrow> local_keys list res" where
  "createLocalKeyStore homedir networkId keyPath account =
     (let stores = [FileKeys (path_join [homedir, ''.near-credentials'']), FileKeys ''./neardev''] in
      case keyPath of
        None \<Rightarrow> Inr stores
      | Some p \<Rightarrow> if p = '''' then Inr stores
          else res_bind account (\<lambda>(account_id, secret_key). Inr (stores @ [MemoryKey networkId account_id secret_key])))"

record setup_config =
  sc_networkId :: string
  sc_nearNodeUrl :: string
  sc_ethNodeUrl :: string
  sc_keyPath :: "string option"
  sc_ethFromSecretKey :: string
  sc_ethFrom :: "string option"

text \<open>A connection of web3: the node, the default account and the addresses of its wallet.\<close>

record web3_conn =
  w3_node :: string
  w3_defaultAccount :: "string option"
  w3_wallet :: "string list"

definition getWeb3 :: "setup_config \<Rightarrow> web3_conn" where
  "getWeb3 cfg = \<lparr>w3_node = sc_ethNodeUrl cfg, w3_defaultAccount = None, w3_wallet = []\<rparr>"

text \<open>\<open>account\<close> is \<^verbatim>\<open>privateKeyToAccount\<close>, by the address of the account.\<close>

definition addSecretKey :: "(string \<Rightarrow> string res) \<Rightarrow> web3_conn \<Rightarrow> string \<Rightarrow> (string \<times> web3_conn) res" where
  "addSecretKey account web3 secretKey = res_bind (account (normalizeHex secretKey)) (\<lambda>address.
     Inr (address, web3\<lparr>w3_wallet := w3_wallet web3 @ [address]\<rparr>))"

text \<open>The object of \<^verbatim>\<open>getEthContract\<close>; \<open>parse\<close> is \<^verbatim>\<open>JSON.parse\<close>.\<close>

record eth_contract_object =
  eo_abi :: js_value
  eo_address :: string
  eo_from :: "string option"
  eo_bin :: string

definition getEthContract :: "(string \<Rightarrow> string res) \<Rightarrow> (string \<Rightarrow> js_value res) \<Rightarrow> web3_conn \<Rightarrow> string \<Rightarrow> string \<Rightarrow> eth_contract_object res" where
  "getEthContract readFileSync parse web3 pth address =
     res_bind (readFileSync (pth @ ''.full.bin'')) (\<lambda>bin.
     res_bind (readFileSync (pth @ ''.full.abi'')) (\<lambda>abi.
     res_bind (parse abi) (\<lambda>json.
     Inr \<lparr>eo_abi = json, eo_address = address, eo_from = w3_defaultAccount web3, eo_bin = bin\<rparr>)))"

definition setupNear :: "string \<Rightarrow> (string \<times> string) res \<Rightarrow> (string \<Rightarrow> string \<Rightarrow> local_keys list \<Rightarrow> 'n res) \<Rightarrow> setup_config \<Rightarrow> ('n \<times> setup_config) res" where
  "setupNear homedir keyFile connect cfg =
     res_bind (createLocalKeyStore homedir (sc_networkId cfg) (sc_keyPath cfg) keyFile) (\<lambda>stores.
     let cfg' = cfg\<lparr>sc_keyPath := None\<rparr> in
     res_bind (connect (sc_networkId cfg') (sc_nearNodeUrl cfg') stores) (\<lambda>near. Inr (near, cfg')))"

definition setupEth :: "(string \<Rightarrow> string res) \<Rightarrow> setup_config \<Rightarrow> (web3_conn \<times> setup_config) res" where
  "setupEth account cfg = (let web3 = getWeb3 cfg in
     res_bind (addSecretKey account web3 (sc_ethFromSecretKey cfg)) (\<lambda>(address, web3').
     Inr (web3'\<lparr>w3_defaultAccount := Some address\<rparr>, cfg\<lparr>sc_ethFrom := Some address\<rparr>)))"

definition setupEthNear :: "string \<Rightarrow> (string \<times> string) res \<Rightarrow> (string \<Rightarrow> string \<Rightarrow> local_keys list \<Rightarrow> 'n res) \<Rightarrow> (string \<Rightarrow> string res)
    \<Rightarrow> setup_config \<Rightarrow> (('n \<times> web3_conn) \<times> setup_config) res" where
  "setupEthNear homedir keyFile connect account cfg =
     res_bind (setupNear homedir keyFile connect cfg) (\<lambda>(near, cfg').
     res_bind (setupEth account cfg') (\<lambda>(web3, cfg''). Inr ((near, web3), cfg'')))"

section \<open>Properties\<close>

text \<open>\<^verbatim>\<open>clean\<close> removes the files only after the daemon was killed, and ends with the code 0 exactly when both removals worked.\<close>

lemma clean_order:
  assumes "Shell ''rm -rf ~/.rainbow ~/.near/localnet'' \<in> set (fst (CleanCommand killed shell))"
  shows "killed = Inr () \<and> take 3 (fst (CleanCommand killed shell)) = [KillDaemon, Disconnect, Shell ''nearup stop'']"
  using assms by (cases killed; cases "shell ''nearup stop''")
    (auto simp: CleanCommand_def run_bind_def run_ret_def run_ask_def run_do_def run_catch_def split: sum.splits js_error.splits)

text \<open>
  A contract object made on a connection of \<^verbatim>\<open>setupEthNear\<close> sends from the account of the configured key, which is in the wallet of the connection and
  recorded in the configuration.
\<close>

lemma contract_sends_from_key:
  assumes "setupEthNear homedir keyFile connect account cfg = Inr ((near, web3), cfg')"
    and "getEthContract readFileSync parse web3 pth address = Inr ob"
  shows "\<exists>a. account (normalizeHex (sc_ethFromSecretKey cfg)) = Inr a \<and> eo_from ob = Some a \<and> a \<in> set (w3_wallet web3) \<and> sc_ethFrom cfg' = Some a
    \<and> w3_node web3 = sc_ethNodeUrl cfg"
  using assms
  by (auto simp: setupEthNear_def setupNear_def setupEth_def addSecretKey_def getWeb3_def getEthContract_def res_bind_eq_Inr_iff Let_def)

text \<open>The values a local node is stored with are the addresses of the ports.\<close>

lemma local_urls:
  "map_of ganache_values ''ethNodeUrl'' = Some (JStr (getLocalGanacheNodeURL GANACHE_PORT))"
  "map_of near_node_values ''nearNodeUrl'' = Some (JStr (getLocalNearNodeURL NEAR_PORT))"
proof -
  have "decimal 9545 = ''9545''" "decimal 3030 = ''3030''" by (simp_all add: decimal.simps digit_chars)
  then show "map_of ganache_values ''ethNodeUrl'' = Some (JStr (getLocalGanacheNodeURL GANACHE_PORT))"
    "map_of near_node_values ''nearNodeUrl'' = Some (JStr (getLocalNearNodeURL NEAR_PORT))"
    by (simp_all add: ganache_values_def near_node_values_def getLocalGanacheNodeURL_def getLocalNearNodeURL_def GANACHE_PORT_def NEAR_PORT_def)
qed

end
