(* ===== verification/Service_Setup.thy ===== *)
theory Service_Setup
  imports Transfer_To_Near Watchdog Accounts
begin

text \<open>
  What the services and the transfer commands do before their first round or step: keys, connections and contract objects, in the order of
  the code (\<^verbatim>\<open>near2eth/watchdog/index.js\<close>, \<^verbatim>\<open>near2eth/near2eth-block-relay/index.js\<close>, \<^verbatim>\<open>testing/transfer-eth-erc20/\<close>),
  and the two transfer commands as a whole. The packages web3 and near-api-js, and the files, are the records \<open>eth_setup\<close> and \<open>near_setup\<close>.
  The lemmas show that a command whose set-up fails sends nothing, so the theorems on the steps are theorems on the commands.
\<close>

section \<open>Connections\<close>

text \<open>
  \<open>es_account\<close> is the address of \<^verbatim>\<open>privateKeyToAccount\<close>, \<open>es_json\<close> a parsed file, \<open>es_contract\<close> the constructor of a contract object, with the
  options \<^verbatim>\<open>from\<close> if they are given.
\<close>

record eth_setup =
  es_account :: "string \<Rightarrow> string res"
  es_json :: "string \<Rightarrow> js_value res"
  es_contract :: "js_value \<Rightarrow> string \<Rightarrow> string option \<Rightarrow> unit res"

record near_setup =
  ns_keyPair :: "string \<Rightarrow> string res"
  ns_connect :: "string \<Rightarrow> string \<Rightarrow> unit res"
  ns_fetchState :: "string \<Rightarrow> string + string"
  ns_accessKeys :: "string \<Rightarrow> string list res"
  ns_accessKeyInit :: "string \<Rightarrow> unit res"

text \<open>The master account: the key is normalized and added to the wallet.\<close>

definition master_account :: "eth_setup \<Rightarrow> string \<Rightarrow> string res" where
  "master_account S secretKey = es_account S (normalizeEthKey secretKey)"

text \<open>A contract from an artifact (its property \<^verbatim>\<open>abi\<close>) and one from a bare ABI file.\<close>

definition artifact_contract :: "eth_setup \<Rightarrow> string \<Rightarrow> string \<Rightarrow> string option \<Rightarrow> unit res" where
  "artifact_contract S path address sender =
     res_bind (es_json S path) (\<lambda>artifact.
     res_bind (js_get artifact ''abi'') (\<lambda>abi. es_contract S abi address sender))"

definition abi_contract :: "eth_setup \<Rightarrow> string \<Rightarrow> string \<Rightarrow> string option \<Rightarrow> unit res" where
  "abi_contract S path address sender = res_bind (es_json S path) (\<lambda>abi. es_contract S abi address sender)"

section \<open>Services\<close>

definition watchdog_initialize :: "eth_setup \<Rightarrow> string \<Rightarrow> string \<Rightarrow> string \<Rightarrow> string res" where
  "watchdog_initialize S ethMasterSk ethClientArtifactPath ethClientAddress =
     res_bind (master_account S ethMasterSk) (\<lambda>ethMasterAccount.
     res_bind (artifact_contract S ethClientArtifactPath ethClientAddress (Some ethMasterAccount)) (\<lambda>_.
     Inr ethMasterAccount))"

definition n2e_connect :: "eth_setup \<Rightarrow> near_setup \<Rightarrow> string \<Rightarrow> string \<Rightarrow> string \<Rightarrow> string \<Rightarrow> string \<Rightarrow> string res" where
  "n2e_connect S N nearNodeUrl nearNetworkId ethMasterSk ethClientArtifactPath ethClientAddress =
     res_bind (master_account S ethMasterSk) (\<lambda>ethMasterAccount.
     res_bind (ns_connect N nearNodeUrl nearNetworkId) (\<lambda>_.
     res_bind (artifact_contract S ethClientArtifactPath ethClientAddress (Some ethMasterAccount)) (\<lambda>_.
     Inr ethMasterAccount)))"

text \<open>\<^verbatim>\<open>Near2EthRelay.initialize\<close>: the connections, then the contract if it is not initialized yet.\<close>

definition Near2EthRelay_initialize :: "nat \<Rightarrow> bridge_lib \<Rightarrow> eth_setup \<Rightarrow> near_setup \<Rightarrow> string \<Rightarrow> string \<Rightarrow> string \<Rightarrow> string \<Rightarrow> string \<Rightarrow> nat \<Rightarrow> n2e_init_env \<Rightarrow> (n2e_effect, bool) run" where
  "Near2EthRelay_initialize fuel L S N nearNodeUrl nearNetworkId ethMasterSk ethClientArtifactPath ethClientAddress mult I =
     run_bind (run_ask (n2e_connect S N nearNodeUrl nearNetworkId ethMasterSk ethClientArtifactPath ethClientAddress)) (\<lambda>_.
     n2e_initialize fuel L mult I)"

section \<open>Transfers\<close>

text \<open>An account on NEAR with its key in the key store, verified against the keys the account has.\<close>

definition near_account :: "near_setup \<Rightarrow> string \<Rightarrow> string \<Rightarrow> string \<Rightarrow> string \<Rightarrow> unit res" where
  "near_account N nearNodeUrl nearNetworkId account secretKey =
     res_bind (ns_keyPair N secretKey) (\<lambda>publicKey.
     res_bind (ns_connect N nearNodeUrl nearNetworkId) (\<lambda>_.
     res_bind (verifyAccount (ns_fetchState N account) (Some publicKey) (ns_accessKeys N account)) (\<lambda>_. Inr ())))"

record from_params =
  fp_nearNodeUrl :: string
  fp_nearNetworkId :: string
  fp_nearSenderAccount :: string
  fp_nearSenderSk :: string
  fp_nearErc20Account :: string
  fp_ethMasterSk :: string
  fp_ethClientArtifactPath :: string
  fp_ethClientAddress :: string
  fp_ethProverArtifactPath :: string
  fp_ethProverAddress :: string
  fp_ethLockerAbiPath :: string
  fp_ethLockerAddress :: string

definition from_setup :: "eth_setup \<Rightarrow> near_setup \<Rightarrow> from_params \<Rightarrow> string res" where
  "from_setup S N p =
     res_bind (near_account N (fp_nearNodeUrl p) (fp_nearNetworkId p) (fp_nearSenderAccount p) (fp_nearSenderSk p)) (\<lambda>_.
     res_bind (ns_accessKeyInit N (fp_nearSenderAccount p)) (\<lambda>_.
     res_bind (master_account S (fp_ethMasterSk p)) (\<lambda>ethMasterAccount.
     res_bind (artifact_contract S (fp_ethClientArtifactPath p) (fp_ethClientAddress p) (Some ethMasterAccount)) (\<lambda>_.
     res_bind (artifact_contract S (fp_ethProverArtifactPath p) (fp_ethProverAddress p) (Some ethMasterAccount)) (\<lambda>_.
     res_bind (abi_contract S (fp_ethLockerAbiPath p) (fp_ethLockerAddress p) (Some ethMasterAccount)) (\<lambda>_.
     Inr ethMasterAccount))))))"

text \<open>
  The command, up to the \<^verbatim>\<open>exit(0)\<close> at its end: a run of the steps that still waits when the fuel is used up has not reached it.
\<close>

definition TransferEthERC20FromNear :: "nat \<Rightarrow> bridge_lib \<Rightarrow> eth_setup \<Rightarrow> near_setup \<Rightarrow> from_params \<Rightarrow> from_env \<Rightarrow> string \<Rightarrow> string \<Rightarrow> from_log \<Rightarrow> (from_effect, from_log) run" where
  "TransferEthERC20FromNear fuel L S N p E amount ethReceiverAddress log0 =
     run_bind (run_ask (from_setup S N p)) (\<lambda>_. from_execute fuel L E amount ethReceiverAddress log0)"

record to_params =
  tn_nearNodeUrl :: string
  tn_nearNetworkId :: string
  tn_nearMasterAccount :: string
  tn_nearMasterSk :: string
  tn_ethSenderSk :: string
  tn_ethErc20AbiPath :: string
  tn_ethLockerAbiPath :: string

definition to_setup :: "eth_setup \<Rightarrow> near_setup \<Rightarrow> to_params \<Rightarrow> to_args \<Rightarrow> string res" where
  "to_setup S N p a =
     res_bind (master_account S (tn_ethSenderSk p)) (\<lambda>ethSenderAccount.
     res_bind (abi_contract S (tn_ethErc20AbiPath p) (ta_ethErc20Address a) None) (\<lambda>_.
     res_bind (near_account N (tn_nearNodeUrl p) (tn_nearNetworkId p) (tn_nearMasterAccount p) (tn_nearMasterSk p)) (\<lambda>_.
     res_bind (ns_accessKeyInit N (tn_nearMasterAccount p)) (\<lambda>_.
     res_bind (abi_contract S (tn_ethLockerAbiPath p) (ta_ethLockerAddress a) None) (\<lambda>_.
     Inr ethSenderAccount)))))"

definition TransferETHERC20ToNear :: "nat \<Rightarrow> extract_lib \<Rightarrow> eth_chain \<Rightarrow> eth_setup \<Rightarrow> near_setup \<Rightarrow> to_params \<Rightarrow> to_env \<Rightarrow> to_args \<Rightarrow> log_file \<Rightarrow> (to_effect, bool) run" where
  "TransferETHERC20ToNear fuel L C S N p E a file0 =
     run_bind (run_ask (to_setup S N p a)) (\<lambda>_. to_execute fuel L C E a file0)"

section \<open>Effects need the set-up\<close>

text \<open>A verified account exists, and the key of the command is one of its keys.\<close>

lemma near_account_verified:
  assumes "near_account N url net account sk = Inr u"
  shows "\<exists>code pk keys. ns_fetchState N account = Inr code \<and> ns_keyPair N sk = Inr pk \<and> ns_accessKeys N account = Inr keys \<and> pk \<in> set keys"
proof -
  obtain pk v where pk: "ns_keyPair N sk = Inr pk"
    and v: "verifyAccount (ns_fetchState N account) (Some pk) (ns_accessKeys N account) = Inr v"
    using assms by (auto simp: near_account_def res_bind_eq_Inr_iff)
  then show ?thesis
    by (cases "ns_fetchState N account"; cases "ns_accessKeys N account")
      (auto simp: verifyAccount_def accountExists_def accountHasTheKey_def res_bind_eq_Inr_iff split: if_splits list.splits)
qed

lemma from_command_effects:
  assumes "x \<in> set (fst (TransferEthERC20FromNear fuel L S N p E amount receiver log0))"
  shows "x \<in> set (fst (from_execute fuel L E amount receiver log0))
    \<and> (\<exists>pk keys. ns_keyPair N (fp_nearSenderSk p) = Inr pk \<and> ns_accessKeys N (fp_nearSenderAccount p) = Inr keys \<and> pk \<in> set keys)"
proof -
  obtain acct where s: "from_setup S N p = Inr acct" and x: "x \<in> set (fst (from_execute fuel L E amount receiver log0))"
    using assms by (cases "from_setup S N p") (auto simp: TransferEthERC20FromNear_def run_simps)
  from s obtain u where "near_account N (fp_nearNodeUrl p) (fp_nearNetworkId p) (fp_nearSenderAccount p) (fp_nearSenderSk p) = Inr u"
    unfolding from_setup_def res_bind_eq_Inr_iff by blast
  from near_account_verified [OF this] x show ?thesis by blast
qed

lemma to_command_effects:
  assumes "x \<in> set (fst (TransferETHERC20ToNear fuel L C S N p E a file0))"
  shows "x \<in> set (fst (to_execute fuel L C E a file0))
    \<and> (\<exists>pk keys. ns_keyPair N (tn_nearMasterSk p) = Inr pk \<and> ns_accessKeys N (tn_nearMasterAccount p) = Inr keys \<and> pk \<in> set keys)"
proof -
  obtain acct where s: "to_setup S N p a = Inr acct" and x: "x \<in> set (fst (to_execute fuel L C E a file0))"
    using assms by (cases "to_setup S N p a") (auto simp: TransferETHERC20ToNear_def run_simps)
  from s obtain u where "near_account N (tn_nearNodeUrl p) (tn_nearNetworkId p) (tn_nearMasterAccount p) (tn_nearMasterSk p) = Inr u"
    unfolding to_setup_def res_bind_eq_Inr_iff by blast
  from near_account_verified [OF this] x show ?thesis by blast
qed

lemma relay_setup_effects:
  assumes "x \<in> set (fst (Near2EthRelay_initialize fuel L S N url net sk path address mult I))"
  shows "x \<in> set (fst (n2e_initialize fuel L mult I)) \<and> (\<exists>account. master_account S sk = Inr account)"
  using assms by (cases "n2e_connect S N url net sk path address")
    (auto simp: Near2EthRelay_initialize_def run_simps n2e_connect_def res_bind_eq_Inr_iff)

end
