(* ===== verification/Bridge_Admin.thy ===== *)
theory Bridge_Admin
  imports Bridge_Safety
begin

text \<open>
  What the administrator of the light client can do besides pausing and funding it (\<^verbatim>\<open>AdminControlled.sol\<close>). These operations are not
  steps of \<open>bridge_step\<close>: the theorems about runs of the contract hold as long as the administrator does not use them, and the lemmas here say who can use them
  and which of the invariants they keep.

  Where the compiler puts a field in the raw storage is the argument \<open>layout\<close>, and the code of a contract that \<^verbatim>\<open>adminDelegatecall\<close> runs on the storage of
  this one is the argument \<open>code\<close>, with \<open>None\<close> for a call that fails.
\<close>

unbundle bit_operations_syntax

record storage_layout =
  sload :: "uint256 \<Rightarrow> nearbridge \<Rightarrow> uint256"
  sstore :: "uint256 \<Rightarrow> uint256 \<Rightarrow> nearbridge \<Rightarrow> nearbridge"

definition bridge_adminSstore :: "storage_layout \<Rightarrow> eth_tx \<Rightarrow> uint256 \<Rightarrow> uint256 \<Rightarrow> nearbridge \<Rightarrow> sol_error + nearbridge" where
  "bridge_adminSstore layout tx key val s =
     res_bind (nonpayable tx) (\<lambda>_. res_bind (onlyAdmin tx s) (\<lambda>_. Inr (sstore layout key val s)))"

definition bridge_adminSstoreWithMask :: "storage_layout \<Rightarrow> eth_tx \<Rightarrow> uint256 \<Rightarrow> uint256 \<Rightarrow> uint256 \<Rightarrow> nearbridge \<Rightarrow> sol_error + nearbridge" where
  "bridge_adminSstoreWithMask layout tx key val msk s =
     res_bind (nonpayable tx) (\<lambda>_. res_bind (onlyAdmin tx s) (\<lambda>_.
     let oldval = sload layout key s in Inr (sstore layout key (((val XOR oldval) AND msk) XOR oldval) s)))"

definition bridge_adminSendEth :: "eth_tx \<Rightarrow> eth_address \<Rightarrow> uint256 \<Rightarrow> nearbridge \<Rightarrow> sol_error + nearbridge" where
  "bridge_adminSendEth tx destination amount s =
     res_bind (nonpayable tx) (\<lambda>_. res_bind (onlyAdmin tx s) (\<lambda>_. transfer tx (unat amount) s))"

definition bridge_adminDelegatecall :: "(eth_address \<Rightarrow> bytes \<Rightarrow> nearbridge \<Rightarrow> (bytes \<times> nearbridge) option) \<Rightarrow> eth_tx \<Rightarrow> eth_address \<Rightarrow> bytes \<Rightarrow> nearbridge \<Rightarrow> sol_error + bytes \<times> nearbridge" where
  "bridge_adminDelegatecall code tx target data s = res_bind (onlyAdmin tx s) (\<lambda>_.
     case code target data (s\<lparr>nb_ether := nb_ether s + unat (tx_value tx)\<rparr>) of
       None \<Rightarrow> Inl (Revert '''')
     | Some r \<Rightarrow> Inr r)"

text \<open>Nobody but the administrator can run them.\<close>

lemma only_admin_runs:
  assumes "tx_sender tx \<noteq> nb_admin s" "tx_value tx = 0"
  shows "bridge_adminSstore layout tx key val s = Inl (Revert '''')" "bridge_adminSstoreWithMask layout tx key val msk s = Inl (Revert '''')"
    "bridge_adminSendEth tx destination amount s = Inl (Revert '''')" "bridge_adminDelegatecall code tx target data s = Inl (Revert '''')"
  using assms
  by (simp_all add: bridge_adminSstore_def bridge_adminSstoreWithMask_def bridge_adminSendEth_def bridge_adminDelegatecall_def
      nonpayable_def onlyAdmin_def require_def)

text \<open>A full mask is a plain store, and an empty mask stores the old value.\<close>

lemma sstore_masks:
  "bridge_adminSstoreWithMask layout tx key val (- 1) s = bridge_adminSstore layout tx key val s"
  "bridge_adminSstoreWithMask layout tx key val 0 s = bridge_adminSstore layout tx key (sload layout key s) s"
  by (simp_all add: bridge_adminSstoreWithMask_def bridge_adminSstore_def Let_def xor.assoc)

text \<open>
  Sending ether away leaves the chain and the arrays alone; the stakes stay covered exactly if only ether beyond the stakes is sent.
\<close>

lemma sendEth_keeps:
  assumes "bridge_adminSendEth tx destination amount s = Inr s'"
  shows "same_chain s s' \<and> chain_ok t s' = chain_ok t s \<and> shape_ok t s' = shape_ok t s"
proof -
  have "s' = s\<lparr>nb_ether := nb_ether s - unat amount\<rparr>"
    using assms by (auto simp: bridge_adminSendEth_def transfer_def res_bind_eq_Inr_iff)
  then show ?thesis by (simp add: same_chain_def chain_ok_def shape_ok_def untrusted_epoch_def next_epoch_index_def)
qed

lemma sendEth_solvent:
  assumes "bridge_adminSendEth tx destination amount s = Inr s'" "stakes_ok t s"
  shows "stakes_ok t s' \<longleftrightarrow> (\<Sum>a\<in>UNIV. unat (nb_balanceOf s a)) + unat amount \<le> nb_ether s"
proof -
  have "unat amount \<le> nb_ether s" "s' = s\<lparr>nb_ether := nb_ether s - unat amount\<rparr>"
    using assms(1) by (auto simp: bridge_adminSendEth_def transfer_def res_bind_eq_Inr_iff)
  then show ?thesis using assms(2) by (auto simp: stakes_ok_def)
qed

end
