(* ===== verification/Bridge_Outcomes.thy ===== *)
theory Bridge_Outcomes
  imports Bridge_Composition Transfer_From_Near Near_Prover
begin

text \<open>
  The way of a NEAR block and of an outcome under it to Ethereum, over all the components it passes: the relay's encoding of the block,
  the light client contract, the encoding of the proof, the prover contract and the transfer that unlocks tokens.
\<close>

section \<open>A submitted block after its challenge period\<close>

lemma reach_time: "bridge_reach sha ed c \<Longrightarrow> fst c < 2 ^ 64"
  by (cases rule: bridge_reach.cases) (auto elim: bridge_stepE)

lemma addBlock_decoded:
  assumes "lib_ok L" "block_ok L b" "borshify L b = Inr bs" "addLightClientBlock sha tx bs s = Inr s1"
  shows "add_block tx (block_view L sha b) s = Inr s1"
  using assms(4) block_decodes [OF assms(1-3), of sha]
  by (auto simp: addLightClientBlock_def sol_done_def res_bind_eq_Inr_iff)

lemma added_block_pending:
  assumes "lib_ok L" "block_ok L b" "borshify L b = Inr bs" "addLightClientBlock sha tx bs s = Inr s1"
  shows "nb_untrustedHeight s1 = word_of_nat (num_value (height (lcb_inner_lite b)))
    \<and> nb_untrustedMerkleRoot s1 = the_hash L (block_merkle_root (lcb_inner_lite b)) \<and> nb_lastValidAt s1 = tx_now tx + nb_lockDuration s"
proof -
  obtain sc ne u eps where "commit_previous (tx_now tx) (sil_timestamp (slb_inner_lite (block_view L sha b))) s = Inr sc"
    "\<exists>sg. s1 = set_untrusted tx (block_view L sha b) ne sg eps sc"
    using addBlock_decoded [OF assms] unfolding add_block_def Let_def res_bind_eq_Inr_iff require_Inr by blast
  moreover from this(1) have "nb_lockDuration sc = nb_lockDuration s" by (auto dest!: commit_frame)
  ultimately show ?thesis by (auto simp: inner_lite_view_def)
qed

text \<open>The end of the challenge period does not wrap around: the durations of a deployed contract are far apart.\<close>

lemma challenge_end:
  assumes "shape_ok t s" "t < 2 ^ 64" "0 < t"
  shows "t + nb_lockDuration s \<noteq> 0"
proof -
  have "unat (nb_lockDuration s) * 1000000000 < 2 ^ 256"
    using assms(1) unsigned_less [of "nb_replaceDuration s", where ?'a = nat] by (auto simp: shape_ok_def)
  moreover have "unat t < 2 ^ 64" using assms(2) by (simp add: word_less_nat_alt)
  ultimately have "unat t + unat (nb_lockDuration s) < 2 ^ 256" by simp
  then have "unat (t + nb_lockDuration s) = unat t + unat (nb_lockDuration s)" by (simp add: unat_word_ariths)
  moreover have "unat t \<noteq> 0" using assms(3) by (simp add: word_less_nat_alt)
  ultimately show ?thesis by (metis add_is_0 unat_0)
qed

lemma confirmed_root:
  assumes "lib_ok L" "block_ok L b" "borshify L b = Inr bs" and add: "addLightClientBlock sha tx bs s = Inr s1"
    and reach: "bridge_reach sha ed (tx_now tx, s)" "0 < tx_now tx"
    and kept: "(bridge_step sha ed)\<^sup>*\<^sup>* (tx_now tx, s1) (t, s2)" "same_chain s1 s2" "nb_lastValidAt s1 \<le> t"
    and later: "(bridge_step sha ed)\<^sup>*\<^sup>* (t, s2) (tx_now tx', s')" "nb_paused s' AND 16 = 0"
  shows "blockMerkleRoots tx' s' (word_of_nat (num_value (height (lcb_inner_lite b)))) = Inr (the_hash L (block_merkle_root (lcb_inner_lite b)))"
proof -
  let ?h = "word_of_nat (num_value (height (lcb_inner_lite b))) :: 64 word"
  note p = added_block_pending [OF assms(1-3) add]
  have time: "tx_now tx < 2 ^ 64" using reach_time [OF reach(1)] by simp
  have "shape_ok (tx_now tx) s" using shape.reach_holds [OF reach(1)] by simp
  from challenge_end [OF this time reach(2)] p have "nb_lastValidAt s1 \<noteq> 0" by simp
  then have s2: "nb_lastValidAt s2 \<le> t" "nb_lastValidAt s2 \<noteq> 0" "nb_untrustedHeight s2 = ?h"
    "nb_untrustedMerkleRoot s2 = the_hash L (block_merkle_root (lcb_inner_lite b))"
    using kept(2,3) p by (simp_all add: same_chain_def)
  have "bridge_reach sha ed (tx_now tx, s1)"
    using bridge_step.call [of "tx_now tx" tx sha ed "AddLightClientBlock bs" s s1] reach(1) add time by (auto intro: bridge_reach.stepped)
  with kept(1) have "bridge_reach sha ed (t, s2)" by (induction rule: rtranclp_induct) (auto intro: bridge_reach.stepped)
  then have inv: "chain_ok t s2" using chain.reach_holds by fastforce
  then have "confirmed t s2 (nb_blockMerkleRoots s2) (nb_untrustedMerkleRoot s2) ?h = the_hash L (block_merkle_root (lcb_inner_lite b))"
    using s2 by (auto simp: confirmed_def chain_ok_def)
  moreover have "height_settled t s2 ?h" using s2 by (simp add: height_settled_def)
  ultimately show ?thesis
    using settled_steps [OF later(1), of nb_blockMerkleRoots nb_untrustedMerkleRoot ?h] inv later(2)
    by (simp add: chain_view_def blockMerkleRoots_def pausable_def)
qed

section \<open>From the block to the outcome\<close>


definition demo_proved :: full_outcome_proof where
  "demo_proved = (demo_proof [])\<lparr>fp_block_header_lite := (fp_block_header_lite (demo_proof []))\<lparr>
     hl_inner_lite := demo_header\<lparr>outcome_root := one_hash\<rparr>\<rparr>\<rparr>"

lemma demo_proved_ok: "proof_ok demo_lib demo_proved" "directed (fp_block_proof demo_proved)"
  using demo_proof_ok demo_proof_directed demo_one_hash(1)
  by (simp_all add: proof_ok_def demo_proved_def Let_def inner_lite_ok_def demo_proof_def)

lemma demo_proved_roots:
  "outcome_root_of demo_lib demo_sha (fp_outcome_proof demo_proved) = the_hash demo_lib (outcome_root (hl_inner_lite (fp_block_header_lite demo_proved)))"
  "computeMerkleRoot demo_lib demo_sha demo_proved = Inr (the_hash demo_lib (block_merkle_root (lcb_inner_lite demo_next_block)))"
  using computeMerkleRoot_agrees [OF demo_lib_ok demo_proved_ok, of demo_sha]
  by (simp_all add: outcome_root_of_def demo_sha_def demo_proved_def demo_proof_def demo_one_hash(2) demo_next_block_def proof_view_def path_view_def)



section \<open>From the outcome to the tokens\<close>

text \<open>What \<^verbatim>\<open>proveOutcome(proof, height).call()\<close> gives the transfer: nothing it looks at, or the error web3 makes of the revert.\<close>

definition prover_call :: "(string \<Rightarrow> string) \<Rightarrow> (bytes \<Rightarrow> bytes) \<Rightarrow> Near_Bridge.eth_tx \<Rightarrow> nearbridge \<Rightarrow> bytes \<Rightarrow> nat \<Rightarrow> unit res" where
  "prover_call describe sha tx s ps h =
     res_bind (web3_result describe (proveOutcome sha (\<lambda>k. blockMerkleRoots tx s (word_of_nat k)) ps h)) (\<lambda>_. Inr ())"

lemma web3_result_Inr: "web3_result describe r = Inr x \<longleftrightarrow> r = Inr x"
  by (auto simp: web3_result_def split: sum.splits sol_error.splits)

lemma proveOutcome_True: "proveOutcome sha roots ps h = Inr x \<Longrightarrow> x = True"
  by (auto simp: proveOutcome_def res_bind_eq_Inr_iff Let_def split: if_splits prod.splits)

text \<open>
  C10. Tokens are unlocked on Ethereum only for an outcome of NEAR under the light client: whatever its log says has been done, a transfer that
  sends the unlocking transaction against the prover and the light client of this development sends the encoding of a proof that NEAR gave or that
  its log holds, whose Merkle root, as \<^verbatim>\<open>computeMerkleRoot\<close> computes it, is the root the light client has at the height in the transaction, and whose
  outcome leads to the outcome root of its header.
\<close>

theorem unlocked_outcome_under_client:
  assumes sent: "UnlockTokens ps hgt \<in> set (fst (from_execute fuel L E amount ethReceiverAddress log0))"
    and contract: "fe_proveOutcome E = prover_call describe sha tx s"
    and near: "lib_ok L" "\<And>pr. log0 = LogGetProof pr hgt \<or> (\<exists>idt rid ch. fe_proof E idt rid ch = Inr pr)
      \<Longrightarrow> proof_ok L pr \<and> directed (fp_block_proof pr)"
  shows "\<exists>pr root. (log0 = LogGetProof pr hgt \<or> (\<exists>idt rid ch. fe_proof E idt rid ch = Inr pr)) \<and> borshifyOutcomeProof L pr = Inr ps
    \<and> computeMerkleRoot L sha pr = Inr root \<and> blockMerkleRoots tx s (word_of_nat hgt) = Inr root
    \<and> outcome_root_of L sha (fp_outcome_proof pr) = the_hash L (outcome_root (hl_inner_lite (fp_block_header_lite pr)))"
proof -
  from unlock_proved [OF sent] obtain pr where pr: "borshifyOutcomeProof L pr = Inr ps" "fe_proveOutcome E ps hgt = Inr ()"
    "log0 = LogGetProof pr hgt \<or> (\<exists>idt rid ch. fe_proof E idt rid ch = Inr pr)" by blast
  let ?roots = "\<lambda>k. blockMerkleRoots tx s (word_of_nat k)"
  have acc: "proveOutcome sha ?roots ps hgt = Inr True"
    using pr(2) by (auto simp: contract prover_call_def res_bind_eq_Inr_iff web3_result_Inr dest: proveOutcome_True)
  obtain root where root: "computeMerkleRoot L sha pr = Inr root" "proveOutcome sha ?roots ps hgt =
       (if outcome_root_of L sha (fp_outcome_proof pr) \<noteq> the_hash L (outcome_root (hl_inner_lite (fp_block_header_lite pr)))
        then Inl (Revert ''NearProver: outcome merkle proof is not valid'')
        else res_bind (?roots hgt) (\<lambda>expected. if root \<noteq> expected then Inl (Revert ''NearProver: block proof is not valid'')
        else Inr True))"
    using proveOutcome_encoded [OF near(1), of pr sha] near(2) [OF pr(3)] pr(1) by auto
  then have "outcome_root_of L sha (fp_outcome_proof pr) = the_hash L (outcome_root (hl_inner_lite (fp_block_header_lite pr)))"
    "?roots hgt = Inr root"
    using acc by (cases "?roots hgt"; auto split: if_splits)+
  with root(1) pr(1,3) show ?thesis by blast
qed

definition demo_prover_env :: "nearbridge \<Rightarrow> from_env" where
  "demo_prover_env s = demo_from_env\<lparr>fe_proveOutcome := prover_call id demo_sha (demo_tx 3 0 200) s, fe_proof := (\<lambda>idt rid ch. Inl JsTypeError)\<rparr>"

theorem unlocked_outcome_under_client_witness:
  "\<exists>s ps root. borshifyOutcomeProof demo_lib demo_proved = Inr ps
    \<and> UnlockTokens ps 12640119 \<in> set (fst (from_execute 0 demo_lib (demo_prover_env s) ''100'' ''0xab'' (LogGetProof demo_proved 12640119)))
    \<and> computeMerkleRoot demo_lib demo_sha demo_proved = Inr root \<and> blockMerkleRoots (demo_tx 3 0 200) s 12640119 = Inr root"
proof -
  obtain s0 bs s where s: "bridge_reach demo_sha no_signature (100, s0)" "borshify demo_lib demo_next_block = Inr bs"
    "addLightClientBlock demo_sha (demo_tx 7 0 100) bs s0 = Inr s" "nb_lastValidAt s = 110" "nb_paused s = 0"
    using demo_pending by blast
  have "(bridge_step demo_sha no_signature)\<^sup>*\<^sup>* (tx_now (demo_tx 7 0 100), s) (tx_now (demo_tx 3 0 200), s)"
    by (intro r_into_rtranclp) (simp add: bridge_step.pass)
  from confirmed_root [OF demo_lib_ok demo_next_block_ok s(2,3) _ _ this, of "demo_tx 3 0 200" s] s
  have root: "blockMerkleRoots (demo_tx 3 0 200) s 12640119 = Inr (the_hash demo_lib (block_merkle_root (lcb_inner_lite demo_next_block)))"
    by (simp add: same_chain_def demo_next_block_def)
  obtain ps where ps: "borshifyOutcomeProof demo_lib demo_proved = Inr ps"
    "proveOutcome demo_sha (\<lambda>k. blockMerkleRoots (demo_tx 3 0 200) s (word_of_nat k)) ps 12640119 = Inr True"
    using proveOutcome_encoded [OF demo_lib_ok demo_proved_ok, of demo_sha] demo_proved_roots root by auto
  then have sent: "UnlockTokens ps 12640119 \<in> set (fst (from_execute 0 demo_lib (demo_prover_env s) ''100'' ''0xab'' (LogGetProof demo_proved 12640119)))"
    by (simp add: from_execute_def unlock_def demo_prover_env_def demo_from_env_def prover_call_def web3_result_def run_simps)
  show ?thesis
    using unlocked_outcome_under_client [OF sent, of id demo_sha "demo_tx 3 0 200" s] demo_lib_ok demo_proved_ok sent ps(1)
    by (auto simp: demo_prover_env_def)
qed

end
