(* ===== verification/Merkle_Binding.thy ===== *)
theory Merkle_Binding
  imports Near_Prover
begin

text \<open>
  What an accepted proof binds: the prover contract accepts, at one height of the light client and one position of the two Merkle
  trees, only one outcome, unless two different byte strings with the same SHA-256 hash are among the strings it hashed.

  The locale \<open>reader\<close> is the contract of a decoder that depends on nothing but the bytes it consumes; the decoders of
  \<^verbatim>\<open>ProofDecoder.sol\<close> are composed of readers.
\<close>

section \<open>Decoders that depend on the bytes they consume\<close>

definition consumed :: "cursor \<Rightarrow> cursor \<Rightarrow> bytes" where
  "consumed c c' = take (coff c' - coff c) (drop (coff c) (cbuf c))"

locale reader =
  fixes dec :: "cursor \<Rightarrow> sol_error + 'x \<times> cursor"
  assumes reads: "dec c = Inr (x, c') \<Longrightarrow> \<exists>bs. c' = advance (length bs) c \<and> upcoming c bs
    \<and> (\<forall>d. upcoming d bs \<longrightarrow> coff d + length bs \<le> length (cbuf d) \<longrightarrow> dec d = Inr (x, advance (length bs) d))"
begin

lemma consumes:
  assumes "dec c = Inr (x, c')"
  shows "upcoming c (consumed c c') \<and> c' = advance (length (consumed c c')) c"
proof -
  obtain bs where "c' = advance (length bs) c" "upcoming c bs" using reads [OF assms] by blast
  then show ?thesis using upcoming_take [of c bs] by (simp add: consumed_def)
qed

text \<open>Two runs that consume the same bytes give the same value.\<close>

lemma same_bytes:
  assumes "dec c = Inr (x, c')" "dec d = Inr (y, d')" "consumed c c' = consumed d d'" "coff d' \<le> length (cbuf d)"
  shows "x = y"
proof -
  obtain bs where bs: "c' = advance (length bs) c" "upcoming c bs"
    "\<And>e. upcoming e bs \<Longrightarrow> coff e + length bs \<le> length (cbuf e) \<Longrightarrow> dec e = Inr (x, advance (length bs) e)"
    using reads [OF assms(1)] by blast
  then have "consumed c c' = bs" using upcoming_take [of c bs] by (simp add: consumed_def)
  then have "upcoming d bs" "d' = advance (length bs) d" using consumes [OF assms(2)] assms(3) by simp_all
  with bs(3) [of d] assms(2,4) show ?thesis by simp
qed

end

named_theorems reader_intros \<open>readers built from readers\<close>

lemma reader_return [reader_intros]: "reader (\<lambda>c. Inr (x, c))"
  by unfold_locales (auto intro: exI [of _ "[]"])

lemma reader_fail [reader_intros]: "reader (\<lambda>c. Inl e)"
  by unfold_locales simp

lemma reader_bind [reader_intros]:
  assumes "reader dec" "\<And>x. reader (f x)"
  shows "reader (\<lambda>c. res_bind (dec c) (\<lambda>(x, c1). f x c1))"
proof
  fix c y c'
  assume "res_bind (dec c) (\<lambda>(x, c1). f x c1) = Inr (y, c')"
  then obtain x c1 where d: "dec c = Inr (x, c1)" "f x c1 = Inr (y, c')" by (auto simp: res_bind_eq_Inr_iff)
  obtain bs where bs: "c1 = advance (length bs) c" "upcoming c bs"
    "\<And>e. upcoming e bs \<Longrightarrow> coff e + length bs \<le> length (cbuf e) \<Longrightarrow> dec e = Inr (x, advance (length bs) e)"
    using reader.reads [OF assms(1) d(1)] by blast
  obtain cs where cs: "c' = advance (length cs) c1" "upcoming c1 cs"
    "\<And>e. upcoming e cs \<Longrightarrow> coff e + length cs \<le> length (cbuf e) \<Longrightarrow> f x e = Inr (y, advance (length cs) e)"
    using reader.reads [OF assms(2) d(2)] by blast
  show "\<exists>bs. c' = advance (length bs) c \<and> upcoming c bs
    \<and> (\<forall>d. upcoming d bs \<longrightarrow> coff d + length bs \<le> length (cbuf d) \<longrightarrow> res_bind (dec d) (\<lambda>(x, c1). f x c1) = Inr (y, advance (length bs) d))"
    using bs cs by (intro exI [of _ "bs @ cs"]) (auto simp: upcoming_append)
qed

lemma reader_if [reader_intros]: "reader f \<Longrightarrow> reader g \<Longrightarrow> reader (\<lambda>c. if b then f c else g c)"
  by (cases b) simp_all

lemma reader_decode_n [reader_intros]: "reader dec \<Longrightarrow> reader (decode_n dec n)"
proof (induction n)
  case 0
  have "decode_n dec 0 = (\<lambda>c. Inr ([], c))" by (rule ext) simp
  then show ?case by (simp only:) (rule reader_return)
next
  case (Suc n)
  have "decode_n dec (Suc n) = (\<lambda>c. res_bind (dec c) (\<lambda>(x, c1). res_bind (decode_n dec n c1) (\<lambda>(xs, c2). Inr (x # xs, c2))))"
    by (rule ext) simp
  moreover have "reader dec" "reader (decode_n dec n)" using Suc by simp_all
  ultimately show ?case by (simp only:) (intro reader_intros)
qed

lemma reader_sol_read [reader_intros]: "reader (sol_read n)"
proof
  fix c x c'
  assume "sol_read n c = Inr (x, c')"
  then have x: "coff c + n \<le> length (cbuf c)" "x = take n (drop (coff c) (cbuf c))" "c' = advance n c"
    by (auto simp: sol_read_def requireSpace_def split: if_splits)
  then have "length x = n" by simp
  with x show "\<exists>bs. c' = advance (length bs) c \<and> upcoming c bs
    \<and> (\<forall>d. upcoming d bs \<longrightarrow> coff d + length bs \<le> length (cbuf d) \<longrightarrow> sol_read n d = Inr (x, advance (length bs) d))"
    by (intro exI [of _ x]) (auto simp: upcoming_def remaining_def sol_read_def requireSpace_def)
qed

lemma reader_words [reader_intros]:
  "reader decodeU8" "reader decodeU32" "reader decodeU64" "reader decodeU128" "reader decodeBytes32"
  unfolding decodeU8_def [abs_def] decodeU32_def [abs_def] decodeU64_def [abs_def] decodeU128_def [abs_def] decodeBytes32_def [abs_def]
  by (intro reader_intros)+

lemma decodeBytes_alt: "decodeBytes c = res_bind (decodeU32 c) (\<lambda>(len, c1). sol_read (unat len) c1)"
  by (simp add: decodeBytes_def sol_read_def)

lemma reader_decodeBytes [reader_intros]: "reader decodeBytes"
  unfolding decodeBytes_alt [abs_def] by (intro reader_intros)

lemma reader_status [reader_intros]: "reader decodeExecutionStatus"
  unfolding decodeExecutionStatus_def [abs_def] Let_def by (intro reader_intros)

lemma reader_path [reader_intros]: "reader decodeMerklePathItem" "reader decodeMerklePath"
proof -
  show item: "reader decodeMerklePathItem" unfolding decodeMerklePathItem_def [abs_def] by (intro reader_intros)
  show "reader decodeMerklePath" unfolding decodeMerklePath_def [abs_def] by (intro reader_intros item)
qed

lemma reader_buf: "reader dec \<Longrightarrow> dec c = Inr (x, c') \<Longrightarrow> cbuf c' = cbuf c"
  using reader.consumes [of dec c x c'] by (metis advance_simps(1))

section \<open>The parts of a proof\<close>

text \<open>What \<^verbatim>\<open>decodeExecutionOutcome\<close> reads after the logs, which is the first string it hashes.\<close>

definition outcome_body :: "cursor \<Rightarrow> sol_error + (bytes list \<times> 64 word \<times> 128 word \<times> bytes \<times> sol_execution_status) \<times> cursor" where
  "outcome_body c = res_bind (decodeU32 c) (\<lambda>(nrec, c3).
     res_bind (decode_n decodeBytes32 (unat nrec) c3) (\<lambda>(rids, c4).
     res_bind (decodeU64 c4) (\<lambda>(gas, c5).
     res_bind (decodeU128 c5) (\<lambda>(tok, c6).
     res_bind (decodeBytes c6) (\<lambda>(ex, c7).
     res_bind (decodeExecutionStatus c7) (\<lambda>(st, c8). Inr ((rids, gas, tok, ex, st), c8)))))))"

interpretation outcome_body: reader outcome_body
  unfolding outcome_body_def [abs_def] by (intro reader_intros)

lemma status_in_range: "decodeExecutionStatus c = Inr (st, c') \<Longrightarrow> coff c' \<le> length (cbuf c')"
  by (auto simp: decodeExecutionStatus_def decodeBytes_alt decodeBytes32_def decodeU8_def decodeU32_def sol_read_def requireSpace_def
      res_bind_eq_Inr_iff Let_def split: if_splits)

lemma outcome_body_in_range: "outcome_body c = Inr (x, c') \<Longrightarrow> coff c' \<le> length (cbuf c)"
proof -
  assume o: "outcome_body c = Inr (x, c')"
  then obtain st c7 where "decodeExecutionStatus c7 = Inr (st, c')" by (auto simp: outcome_body_def res_bind_eq_Inr_iff)
  from status_in_range [OF this] reader_buf [OF outcome_body.reader_axioms o] show ?thesis by simp
qed

lemma outcome_sections:
  assumes "decodeExecutionOutcome sha c = Inr (oc, c')"
  shows "\<exists>n c1 c2. decode_n decodeBytes n c1 = Inr (so_logs oc, c2) \<and> cbuf c1 = cbuf c \<and> cbuf c2 = cbuf c \<and> cbuf c' = cbuf c
    \<and> outcome_body c2 = Inr ((so_receipt_ids oc, so_gas_burnt oc, so_tokens_burnt oc, so_executor_id oc, so_status oc), c')
    \<and> so_merkelization_hashes oc = sha (consumed c2 c') # map sha (so_logs oc)"
proof -
  obtain n c1 lgs c2 body where d: "decodeU32 c = Inr (n, c1)" "decode_n decodeBytes (unat n) c1 = Inr (lgs, c2)" "outcome_body c2 = Inr (body, c')"
    and oc: "oc = (case body of (rids, gas, tok, ex, st) \<Rightarrow> \<lparr>so_logs = lgs, so_receipt_ids = rids, so_gas_burnt = gas, so_tokens_burnt = tok,
       so_executor_id = ex, so_status = st, so_merkelization_hashes = sha (consumed c2 c') # map sha lgs\<rparr>)"
    using assms by (auto simp: decodeExecutionOutcome_def outcome_body_def consumed_def res_bind_eq_Inr_iff)
  have "cbuf c1 = cbuf c" "cbuf c2 = cbuf c" "cbuf c' = cbuf c"
    using reader_buf [OF reader_words(2) d(1)] reader_buf [OF reader_decode_n [OF reader_decodeBytes] d(2)]
      reader_buf [OF outcome_body.reader_axioms d(3)] by simp_all
  with d oc show ?thesis by (auto split: prod.splits)
qed

lemma decode_n_all:
  assumes "\<And>c x c'. cbuf c = b \<Longrightarrow> dec c = Inr (x, c') \<Longrightarrow> P x \<and> cbuf c' = b"
  shows "decode_n dec n c = Inr (xs, c') \<Longrightarrow> cbuf c = b \<Longrightarrow> \<forall>x\<in>set xs. P x"
proof (induction n arbitrary: c xs)
  case (Suc n)
  then obtain x c1 ys where "dec c = Inr (x, c1)" "decode_n dec n c1 = Inr (ys, c')" "xs = x # ys" by (auto simp: res_bind_eq_Inr_iff)
  with Suc.IH [of c1 ys] assms [OF Suc.prems(2)] show ?case by auto
qed simp

definition slices :: "bytes \<Rightarrow> bytes set" where
  "slices bs = {take n (drop k bs) | n k. True}"

lemma logs_slices:
  assumes "decode_n decodeBytes n c = Inr (lgs, c')"
  shows "\<forall>l\<in>set lgs. l \<in> slices (cbuf c)"
proof (rule decode_n_all [OF _ assms refl])
  fix d x d'
  assume "cbuf d = cbuf c" "decodeBytes d = Inr (x, d')"
  then show "x \<in> slices (cbuf c) \<and> cbuf d' = cbuf c"
    using reader_buf [OF reader_decodeBytes, of d x d']
    by (auto simp: decodeBytes_alt sol_read_def slices_def decodeU32_def res_bind_eq_Inr_iff)
qed

definition nodes32 :: "(bytes \<times> byte) list \<Rightarrow> bool" where
  "nodes32 ps \<longleftrightarrow> (\<forall>(h, d)\<in>set ps. length h = 32)"

lemma sol_read_length: "sol_read n c = Inr (x, c') \<Longrightarrow> length x = n"
  by (auto simp: sol_read_def requireSpace_def split: if_splits)

lemma path_nodes32: "decodeMerklePath c = Inr (ps, c') \<Longrightarrow> nodes32 ps"
proof -
  assume "decodeMerklePath c = Inr (ps, c')"
  then obtain n c1 where items: "decode_n decodeMerklePathItem n c1 = Inr (ps, c')" by (auto simp: decodeMerklePath_def res_bind_eq_Inr_iff)
  show ?thesis
    unfolding nodes32_def
  proof (rule decode_n_all [OF _ items refl])
    fix d x d'
    assume "cbuf d = cbuf c1" "decodeMerklePathItem d = Inr (x, d')"
    then show "(case x of (h, d) \<Rightarrow> length h = 32) \<and> cbuf d' = cbuf c1"
      using reader_buf [OF reader_path(1), of d x d']
      by (auto simp: decodeMerklePathItem_def decodeBytes32_def res_bind_eq_Inr_iff dest: sol_read_length split: if_splits)
  qed
qed

lemma inner_lite_parts:
  assumes "decodeBlockHeaderInnerLite sha c = Inr (il, c')"
  shows "\<exists>raw \<in> slices (cbuf c). sil_hash il = sha raw \<and> sil_outcome_root il = take 32 (drop 104 raw)"
proof -
  let ?raw = "take 208 (drop (coff c) (cbuf c))"
  have "sil_hash il = sha ?raw" "sil_outcome_root il = take 32 (drop 104 ?raw)"
    using assms by (auto simp: decodeBlockHeaderInnerLite_def peekSha256_def decodeU64_def decodeBytes32_def sol_read_def requireSpace_def
        res_bind_eq_Inr_iff drop_take add.commute split: if_splits)
  moreover have "?raw \<in> slices (cbuf c)" by (auto simp: slices_def)
  ultimately show ?thesis by blast
qed


section \<open>Binding\<close>

fun path_inputs :: "(bytes \<Rightarrow> bytes) \<Rightarrow> bytes \<Rightarrow> (bytes \<times> byte) list \<Rightarrow> bytes list" where
  "path_inputs sha node [] = []"
| "path_inputs sha node ((h, d) # ps) = (let x = (if d = 0 then h @ node else node @ h) in x # path_inputs sha (sha x) ps)"

definition no_collision :: "(bytes \<Rightarrow> bytes) \<Rightarrow> bytes set \<Rightarrow> bytes set \<Rightarrow> bool" where
  "no_collision sha A B \<longleftrightarrow> (\<forall>x\<in>A. \<forall>y\<in>B. sha x = sha y \<longrightarrow> x = y)"

lemma no_collisionD: "no_collision sha A B \<Longrightarrow> sha x = sha y \<Longrightarrow> x \<in> A \<Longrightarrow> y \<in> B \<Longrightarrow> x = y"
  by (simp add: no_collision_def)

lemma path_binding:
  assumes "sol_computeRoot sha a ps = sol_computeRoot sha b qs" "map snd ps = map snd qs" "nodes32 ps" "nodes32 qs"
    and "no_collision sha A B" "set (path_inputs sha a ps) \<subseteq> A" "set (path_inputs sha b qs) \<subseteq> B"
    and "length a = length b"
    and len: "\<And>x. length (sha x) = 32"
  shows "a = b"
  using assms(1-8)
proof (induction ps arbitrary: a b qs)
  case (Cons p ps)
  obtain h d where p: "p = (h, d)" by (cases p)
  with Cons.prems(2) obtain k qs' where qs: "qs = (k, d) # qs'" by (cases qs) auto
  let ?x = "if d = 0 then h @ a else a @ h" and ?y = "if d = 0 then k @ b else b @ k"
  have "sha ?x = sha ?y"
  proof (rule Cons.IH [of "sha ?x" "sha ?y" qs'])
    show "sol_computeRoot sha (sha ?x) ps = sol_computeRoot sha (sha ?y) qs'"
      using Cons.prems(1) unfolding p qs by (cases "d = 0") simp_all
  qed (use Cons.prems in \<open>simp_all add: p qs nodes32_def len Let_def\<close>)
  moreover have "?x \<in> A" "?y \<in> B" using Cons.prems(6,7) unfolding p qs by (simp_all add: Let_def)
  ultimately have "?x = ?y" by (rule no_collisionD [OF Cons.prems(5)])
  moreover have "length h = length k" using Cons.prems(3,4) by (simp add: p qs nodes32_def)
  ultimately show ?case using Cons.prems(8) by (cases "d = 0") simp_all
qed simp

lemma concat_binding:
  assumes "concat xs = concat ys" "\<forall>x\<in>set xs \<union> set ys. length x = 32"
  shows "xs = ys"
  using assms
proof (induction xs arbitrary: ys)
  case Nil
  then show ?case by (cases ys) auto
next
  case (Cons x xs)
  then obtain y ys' where "ys = y # ys'" by (cases ys) auto
  with Cons show ?case by auto
qed

lemma map_binding:
  assumes "map sha xs = map sha ys" "no_collision sha A B" "set xs \<subseteq> A" "set ys \<subseteq> B"
  shows "xs = ys"
  using assms by (induction xs arbitrary: ys) (auto intro: no_collisionD)

text \<open>
  The strings the prover hashes for a proof: parts of the bytes themselves, and the nodes, header parts and the leaf that it puts together.
\<close>

definition hashed_strings :: "(bytes \<Rightarrow> bytes) \<Rightarrow> bytes \<Rightarrow> sol_full_outcome_proof \<Rightarrow> bytes set" where
  "hashed_strings sha bs p = (let hdr = sp_block_header_lite p; op = sp_outcome_proof p; oi = sop_outcome_with_id op;
       ids = so_merkelization_hashes (soi_outcome oi);
       hash1 = sol_computeRoot sha (soi_hash oi) (sop_proof op);
       lite = sil_hash (shl_inner_lite hdr) @ shl_inner_rest_hash hdr
     in slices bs \<union> {lite, sha lite @ shl_prev_block_hash hdr, hash1, le_bytes 4 (1 + length ids) @ soi_id oi @ concat ids}
        \<union> set (path_inputs sha (shl_hash hdr) (sp_block_proof p)) \<union> set (path_inputs sha (sha hash1) (sp_outcome_root_proof p))
        \<union> set (path_inputs sha (soi_hash oi) (sop_proof op)))"

text \<open>What a decoded proof consists of.\<close>

definition decoded_header :: "(bytes \<Rightarrow> bytes) \<Rightarrow> bytes \<Rightarrow> sol_block_header_light \<Rightarrow> bytes \<Rightarrow> bool" where
  "decoded_header sha bs hdr raw \<longleftrightarrow> raw \<in> slices bs \<and> sil_hash (shl_inner_lite hdr) = sha raw
     \<and> sil_outcome_root (shl_inner_lite hdr) = take 32 (drop 104 raw)
     \<and> shl_hash hdr = sha (sha (sil_hash (shl_inner_lite hdr) @ shl_inner_rest_hash hdr) @ shl_prev_block_hash hdr)
     \<and> length (shl_inner_rest_hash hdr) = 32 \<and> length (shl_prev_block_hash hdr) = 32"

definition decoded_outcome :: "(bytes \<Rightarrow> bytes) \<Rightarrow> bytes \<Rightarrow> sol_outcome_with_id \<Rightarrow> cursor \<Rightarrow> cursor \<Rightarrow> bool" where
  "decoded_outcome sha bs oi c c' \<longleftrightarrow> (let oc = soi_outcome oi in length (soi_id oi) = 32 \<and> cbuf c = bs \<and> set (so_logs oc) \<subseteq> slices bs
     \<and> outcome_body c = Inr ((so_receipt_ids oc, so_gas_burnt oc, so_tokens_burnt oc, so_executor_id oc, so_status oc), c')
     \<and> so_merkelization_hashes oc = sha (consumed c c') # map sha (so_logs oc)
     \<and> soi_hash oi = sha (le_bytes 4 (1 + length (so_merkelization_hashes oc)) @ soi_id oi @ concat (so_merkelization_hashes oc)))"

lemma header_decoded:
  assumes "decodeBlockHeaderLight sha c = Inr (hdr, c')"
  shows "\<exists>raw. decoded_header sha (cbuf c) hdr raw"
proof -
  obtain prev c1 rest c2 il where d: "sol_read 32 c = Inr (prev, c1)" "sol_read 32 c1 = Inr (rest, c2)"
    "decodeBlockHeaderInnerLite sha c2 = Inr (il, c')"
    "hdr = \<lparr>shl_prev_block_hash = prev, shl_inner_rest_hash = rest, shl_inner_lite = il, shl_hash = sha (sha (sil_hash il @ rest) @ prev)\<rparr>"
    using assms by (auto simp: decodeBlockHeaderLight_def decodeBytes32_def res_bind_eq_Inr_iff)
  have "cbuf c2 = cbuf c" using reader_buf [OF reader_sol_read d(1)] reader_buf [OF reader_sol_read d(2)] by simp
  with inner_lite_parts [OF d(3)] sol_read_length [OF d(1)] sol_read_length [OF d(2)] d(4) show ?thesis
    by (auto simp: decoded_header_def)
qed

lemma outcome_decoded:
  assumes "decodeExecutionOutcomeWithId sha c = Inr (oi, c')"
  shows "\<exists>d. decoded_outcome sha (cbuf c) oi d c' \<and> cbuf c' = cbuf c"
proof -
  obtain oid c1 oc where d: "sol_read 32 c = Inr (oid, c1)" "decodeExecutionOutcome sha c1 = Inr (oc, c')"
    "oi = \<lparr>soi_id = oid, soi_outcome = oc, soi_hash = sha (le_bytes 4 (1 + length (so_merkelization_hashes oc)) @ oid @ concat (so_merkelization_hashes oc))\<rparr>"
    using assms by (auto simp: decodeExecutionOutcomeWithId_def decodeBytes32_def Let_def res_bind_eq_Inr_iff)
  note b = reader_buf [OF reader_sol_read d(1)]
  obtain n c2 c3 where o: "decode_n decodeBytes n c2 = Inr (so_logs oc, c3)" "cbuf c2 = cbuf c1" "cbuf c3 = cbuf c1" "cbuf c' = cbuf c1"
    "outcome_body c3 = Inr ((so_receipt_ids oc, so_gas_burnt oc, so_tokens_burnt oc, so_executor_id oc, so_status oc), c')"
    "so_merkelization_hashes oc = sha (consumed c3 c') # map sha (so_logs oc)"
    using outcome_sections [OF d(2)] by blast
  with logs_slices [OF o(1)] sol_read_length [OF d(1)] b d(3) show ?thesis
    by (intro exI [of _ c3]) (auto simp: decoded_outcome_def)
qed

lemma proof_decoded:
  assumes "decodeFullOutcomeProof sha c = Inr (p, c')"
  shows "\<exists>raw d d'. decoded_header sha (cbuf c) (sp_block_header_lite p) raw
    \<and> decoded_outcome sha (cbuf c) (sop_outcome_with_id (sp_outcome_proof p)) d d'
    \<and> nodes32 (sp_block_proof p) \<and> nodes32 (sp_outcome_root_proof p) \<and> nodes32 (sop_proof (sp_outcome_proof p))"
proof -
  obtain pth c1 bh c2 oi c3 rp c4 hdr c5 bp where d: "decodeMerklePath c = Inr (pth, c1)" "sol_read 32 c1 = Inr (bh, c2)"
    "decodeExecutionOutcomeWithId sha c2 = Inr (oi, c3)" "decodeMerklePath c3 = Inr (rp, c4)" "decodeBlockHeaderLight sha c4 = Inr (hdr, c5)"
    "decodeMerklePath c5 = Inr (bp, c')" and p: "p = \<lparr>sp_outcome_proof = \<lparr>sop_proof = pth, sop_block_hash = bh, sop_outcome_with_id = oi\<rparr>,
       sp_outcome_root_proof = rp, sp_block_header_lite = hdr, sp_block_proof = bp\<rparr>"
    using assms by (auto simp: decodeFullOutcomeProof_def decodeExecutionOutcomeWithIdAndProof_def decodeBytes32_def res_bind_eq_Inr_iff)
  have b2: "cbuf c2 = cbuf c" using reader_buf [OF reader_path(2) d(1)] reader_buf [OF reader_sol_read d(2)] by simp
  obtain e where o: "decoded_outcome sha (cbuf c) oi e c3" "cbuf c3 = cbuf c" using outcome_decoded [OF d(3)] b2 by auto
  have "cbuf c4 = cbuf c" using reader_buf [OF reader_path(2) d(4)] o(2) by simp
  then obtain raw where "decoded_header sha (cbuf c) hdr raw" using header_decoded [OF d(5)] by auto
  with o(1) path_nodes32 [OF d(1)] path_nodes32 [OF d(4)] path_nodes32 [OF d(6)] show ?thesis by (auto simp: p)
qed

lemma header_binding:
  assumes "decoded_header sha bs hdr raw" "decoded_header sha bs' hdr' raw'" "shl_hash hdr = shl_hash hdr'" "no_collision sha A B"
    and A: "slices bs \<subseteq> A" "sil_hash (shl_inner_lite hdr) @ shl_inner_rest_hash hdr \<in> A"
      "sha (sil_hash (shl_inner_lite hdr) @ shl_inner_rest_hash hdr) @ shl_prev_block_hash hdr \<in> A"
    and B: "slices bs' \<subseteq> B" "sil_hash (shl_inner_lite hdr') @ shl_inner_rest_hash hdr' \<in> B"
      "sha (sil_hash (shl_inner_lite hdr') @ shl_inner_rest_hash hdr') @ shl_prev_block_hash hdr' \<in> B"
    and len: "\<And>x. length (sha x) = 32"
  shows "sil_outcome_root (shl_inner_lite hdr) = sil_outcome_root (shl_inner_lite hdr')"
proof -
  note d = assms(1,2) [unfolded decoded_header_def] and inj = no_collisionD [OF assms(4)]
  let ?x = "sil_hash (shl_inner_lite hdr) @ shl_inner_rest_hash hdr" and ?y = "sil_hash (shl_inner_lite hdr') @ shl_inner_rest_hash hdr'"
  have "sha ?x @ shl_prev_block_hash hdr = sha ?y @ shl_prev_block_hash hdr'"
    using d assms(3) by (intro inj [OF _ A(3) B(3)]) simp
  then have "?x = ?y" by (intro inj [OF _ A(2) B(2)]) (simp add: len)
  then have "sha raw = sha raw'" using d by (simp add: len)
  moreover have "raw \<in> A" "raw' \<in> B" using d A(1) B(1) by auto
  ultimately have "raw = raw'" by (rule inj)
  then show ?thesis using d by simp
qed

lemma consumed_slice: "consumed c c' \<in> slices (cbuf c)"
  by (auto simp: consumed_def slices_def)

lemma outcome_binding:
  assumes "decoded_outcome sha bs oi c c'" "decoded_outcome sha bs' oi' d d'" "soi_hash oi = soi_hash oi'" "no_collision sha A B"
    and A: "slices bs \<subseteq> A" "le_bytes 4 (1 + length (so_merkelization_hashes (soi_outcome oi))) @ soi_id oi @ concat (so_merkelization_hashes (soi_outcome oi)) \<in> A"
    and B: "slices bs' \<subseteq> B" "le_bytes 4 (1 + length (so_merkelization_hashes (soi_outcome oi'))) @ soi_id oi' @ concat (so_merkelization_hashes (soi_outcome oi')) \<in> B"
    and len: "\<And>x. length (sha x) = 32"
  shows "oi = oi'"
proof -
  note o = assms(1,2) [unfolded decoded_outcome_def Let_def] and inj = no_collisionD [OF assms(4)]
  let ?hs = "so_merkelization_hashes (soi_outcome oi)" and ?hs' = "so_merkelization_hashes (soi_outcome oi')"
  have "le_bytes 4 (1 + length ?hs) @ soi_id oi @ concat ?hs = le_bytes 4 (1 + length ?hs') @ soi_id oi' @ concat ?hs'"
    using o assms(3) by (intro inj [OF _ A(2) B(2)]) simp
  then have eq: "soi_id oi = soi_id oi'" "concat ?hs = concat ?hs'" using o by simp_all
  have "?hs = ?hs'" using eq(2) by (rule concat_binding) (use o len in auto)
  then have hs: "sha (consumed c c') = sha (consumed d d')" "map sha (so_logs (soi_outcome oi)) = map sha (so_logs (soi_outcome oi'))"
    using o by simp_all
  have "consumed c c' \<in> A" "consumed d d' \<in> B" using consumed_slice o A(1) B(1) by blast+
  with hs(1) have "consumed c c' = consumed d d'" by (rule inj)
  moreover have "coff d' \<le> length (cbuf d)" using o outcome_body_in_range by blast
  ultimately have body: "(so_receipt_ids (soi_outcome oi), so_gas_burnt (soi_outcome oi), so_tokens_burnt (soi_outcome oi), so_executor_id (soi_outcome oi), so_status (soi_outcome oi))
      = (so_receipt_ids (soi_outcome oi'), so_gas_burnt (soi_outcome oi'), so_tokens_burnt (soi_outcome oi'), so_executor_id (soi_outcome oi'), so_status (soi_outcome oi'))"
    using o outcome_body.same_bytes [of c _ c' d _ d'] by blast
  have "so_logs (soi_outcome oi) = so_logs (soi_outcome oi')"
    using map_binding [OF hs(2) assms(4)] o A(1) B(1) by blast
  with body \<open>?hs = ?hs'\<close> have "soi_outcome oi = soi_outcome oi'" by (intro sol_execution_outcome.equality) simp_all
  with eq(1) assms(3) show ?thesis by (intro sol_outcome_with_id.equality) simp_all
qed

section \<open>One outcome at a position\<close>

lemma accepted_roots:
  assumes "proveOutcome sha roots ps h = Inr True" "decodeFullOutcomeProof sha \<lparr>cbuf = ps, coff = 0\<rparr> = Inr (p, c)"
  shows "sol_computeRoot sha (sha (sol_computeRoot sha (soi_hash (sop_outcome_with_id (sp_outcome_proof p))) (sop_proof (sp_outcome_proof p))))
      (sp_outcome_root_proof p) = sil_outcome_root (shl_inner_lite (sp_block_header_lite p))"
    "roots h = Inr (sol_computeRoot sha (shl_hash (sp_block_header_lite p)) (sp_block_proof p))"
  using assms by (auto simp: proveOutcome_def res_bind_eq_Inr_iff Let_def split: if_splits)

text \<open>
  C5. The light client's root fixes the outcome: if the prover accepts two proofs at the same height, with the same positions in the Merkle
  trees (the directions of the three paths), then both prove the same outcome, with the same receipt, logs, gas, tokens, executor and status,
  or two different strings with the same SHA-256 hash are among the strings that were hashed for the two proofs.
\<close>

theorem accepted_outcome_unique:
  assumes sha32: "\<And>x. length (sha x) = 32"
    and accepted: "proveOutcome sha roots ps h = Inr True" "proveOutcome sha roots qs h = Inr True"
    and decoded: "decodeFullOutcomeProof sha \<lparr>cbuf = ps, coff = 0\<rparr> = Inr (p, c)" "decodeFullOutcomeProof sha \<lparr>cbuf = qs, coff = 0\<rparr> = Inr (q, d)"
    and position: "map snd (sp_block_proof p) = map snd (sp_block_proof q)" "map snd (sp_outcome_root_proof p) = map snd (sp_outcome_root_proof q)"
      "map snd (sop_proof (sp_outcome_proof p)) = map snd (sop_proof (sp_outcome_proof q))"
  shows "sop_outcome_with_id (sp_outcome_proof p) = sop_outcome_with_id (sp_outcome_proof q)
    \<or> (\<exists>x\<in>hashed_strings sha ps p. \<exists>y\<in>hashed_strings sha qs q. x \<noteq> y \<and> sha x = sha y)"
proof (rule disjCI)
  let ?A = "hashed_strings sha ps p" and ?B = "hashed_strings sha qs q"
  assume "\<not> (\<exists>x\<in>?A. \<exists>y\<in>?B. x \<noteq> y \<and> sha x = sha y)"
  then have nc: "no_collision sha ?A ?B" by (auto simp: no_collision_def)
  obtain raw c1 c2 where p: "decoded_header sha ps (sp_block_header_lite p) raw" "decoded_outcome sha ps (sop_outcome_with_id (sp_outcome_proof p)) c1 c2"
    "nodes32 (sp_block_proof p)" "nodes32 (sp_outcome_root_proof p)" "nodes32 (sop_proof (sp_outcome_proof p))"
    using proof_decoded [OF decoded(1)] by auto
  obtain raw' d1 d2 where q: "decoded_header sha qs (sp_block_header_lite q) raw'" "decoded_outcome sha qs (sop_outcome_with_id (sp_outcome_proof q)) d1 d2"
    "nodes32 (sp_block_proof q)" "nodes32 (sp_outcome_root_proof q)" "nodes32 (sop_proof (sp_outcome_proof q))"
    using proof_decoded [OF decoded(2)] by auto
  note r = accepted_roots [OF accepted(1) decoded(1)] and s = accepted_roots [OF accepted(2) decoded(2)]
  have len: "length (shl_hash (sp_block_header_lite p)) = length (shl_hash (sp_block_header_lite q))"
    "length (soi_hash (sop_outcome_with_id (sp_outcome_proof p))) = length (soi_hash (sop_outcome_with_id (sp_outcome_proof q)))"
    using p(1,2) q(1,2) by (simp_all add: decoded_header_def decoded_outcome_def Let_def sha32)
  note bind = path_binding [OF _ _ _ _ nc _ _ _ sha32] and inj = no_collisionD [OF nc]
  have "shl_hash (sp_block_header_lite p) = shl_hash (sp_block_header_lite q)"
    by (rule bind [OF _ position(1) p(3) q(3) _ _ len(1)]) (use r(2) s(2) in \<open>auto simp: hashed_strings_def Let_def\<close>)
  from header_binding [OF p(1) q(1) this nc _ _ _ _ _ _ sha32]
  have root: "sil_outcome_root (shl_inner_lite (sp_block_header_lite p)) = sil_outcome_root (shl_inner_lite (sp_block_header_lite q))"
    by (auto simp: hashed_strings_def Let_def)
  let ?h = "\<lambda>p. sol_computeRoot sha (soi_hash (sop_outcome_with_id (sp_outcome_proof p))) (sop_proof (sp_outcome_proof p))"
  have "sha (?h p) = sha (?h q)"
    by (rule bind [OF _ position(2) p(4) q(4)]) (use r(1) s(1) root in \<open>auto simp: hashed_strings_def Let_def sha32\<close>)
  then have "?h p = ?h q" by (rule inj) (auto simp: hashed_strings_def Let_def)
  then have "soi_hash (sop_outcome_with_id (sp_outcome_proof p)) = soi_hash (sop_outcome_with_id (sp_outcome_proof q))"
    by (rule bind [OF _ position(3) p(5) q(5) _ _ len(2)]) (auto simp: hashed_strings_def Let_def)
  from outcome_binding [OF p(2) q(2) this nc _ _ _ _ sha32]
  show "sop_outcome_with_id (sp_outcome_proof p) = sop_outcome_with_id (sp_outcome_proof q)"
    by (auto simp: hashed_strings_def Let_def)
qed


definition demo_other :: full_outcome_proof where
  "demo_other = (demo_proof [])\<lparr>fp_outcome_proof := (fp_outcome_proof (demo_proof []))\<lparr>op_outcome :=
     (op_outcome (fp_outcome_proof (demo_proof [])))\<lparr>gas_burnt := Num 5\<rparr>\<rparr>\<rparr>"

lemma demo_other_ok: "proof_ok demo_lib demo_other" "directed (fp_block_proof demo_other)"
  using demo_proof_ok demo_proof_directed
  by (simp_all add: demo_other_def proof_ok_def outcome_ok_def num_ok_def Let_def)

lemma demo_accepts:
  assumes "proof_ok demo_lib p" "directed (fp_block_proof p)" "fp_block_header_lite p = fp_block_header_lite (demo_proof [])"
    and "op_proof (fp_outcome_proof p) = op_proof (fp_outcome_proof (demo_proof []))" "fp_block_proof p = fp_block_proof (demo_proof [])"
  shows "\<exists>bs c. borshifyOutcomeProof demo_lib p = Inr bs
    \<and> decodeFullOutcomeProof (\<lambda>x. replicate 32 0) \<lparr>cbuf = bs, coff = 0\<rparr> = Inr (proof_view demo_lib (\<lambda>x. replicate 32 0) p, c)
    \<and> proveOutcome (\<lambda>x. replicate 32 0) (\<lambda>h. Inr (replicate 32 0)) bs 7 = Inr True"
proof -
  let ?sha = "\<lambda>x :: bytes. replicate 32 (0 :: byte)"
  have hash: "the_hash demo_lib zero_hash = replicate 32 0" by code_simp
  obtain bs where bs: "borshifyOutcomeProof demo_lib p = Inr bs"
    "decodeFullOutcomeProof ?sha \<lparr>cbuf = bs, coff = 0\<rparr> = Inr (proof_view demo_lib ?sha p, \<lparr>cbuf = bs, coff = length bs\<rparr>)"
    using full_proof.whole_message [of demo_lib p ?sha] demo_lib_ok assms(1) by blast
  moreover have "proveOutcome ?sha (\<lambda>h. Inr (replicate 32 0)) bs 7 = Inr True"
    using bs(2) assms(3-5)
    by (simp add: proveOutcome_def sol_done_def proof_view_def outcome_proof_view_def header_view_def inner_lite_view_def demo_proof_def
        demo_header_def path_view_def hash Let_def)
  ultimately show ?thesis by blast
qed

theorem accepted_outcome_unique_witness:
  "\<exists>ps qs. borshifyOutcomeProof demo_lib (demo_proof []) = Inr ps \<and> borshifyOutcomeProof demo_lib demo_other = Inr qs
    \<and> (\<exists>x\<in>hashed_strings (\<lambda>x. replicate 32 0) ps (proof_view demo_lib (\<lambda>x. replicate 32 0) (demo_proof [])).
        \<exists>y\<in>hashed_strings (\<lambda>x. replicate 32 0) qs (proof_view demo_lib (\<lambda>x. replicate 32 0) demo_other). x \<noteq> y)"
proof -
  let ?sha = "\<lambda>x :: bytes. replicate 32 (0 :: byte)"
  obtain ps c where ps: "borshifyOutcomeProof demo_lib (demo_proof []) = Inr ps"
    "decodeFullOutcomeProof ?sha \<lparr>cbuf = ps, coff = 0\<rparr> = Inr (proof_view demo_lib ?sha (demo_proof []), c)"
    "proveOutcome ?sha (\<lambda>h. Inr (replicate 32 0)) ps 7 = Inr True"
    using demo_accepts [OF demo_proof_ok demo_proof_directed] by blast
  obtain qs d where qs: "borshifyOutcomeProof demo_lib demo_other = Inr qs"
    "decodeFullOutcomeProof ?sha \<lparr>cbuf = qs, coff = 0\<rparr> = Inr (proof_view demo_lib ?sha demo_other, d)"
    "proveOutcome ?sha (\<lambda>h. Inr (replicate 32 0)) qs 7 = Inr True"
    using demo_accepts [OF demo_other_ok] by (auto simp: demo_other_def)
  have "so_gas_burnt (soi_outcome (sop_outcome_with_id (sp_outcome_proof (proof_view demo_lib ?sha demo_other))))
      \<noteq> so_gas_burnt (soi_outcome (sop_outcome_with_id (sp_outcome_proof (proof_view demo_lib ?sha (demo_proof [])))))"
    by (simp add: proof_view_def outcome_proof_view_def outcome_view_def demo_other_def demo_proof_def Let_def)
  with accepted_outcome_unique [OF _ ps(3) qs(3) ps(2) qs(2)] ps(1) qs(1) show ?thesis
    by (fastforce simp: proof_view_def outcome_proof_view_def demo_other_def Let_def)
qed

end
