(* ===== verification/Relay_Progress.thy ===== *)
theory Relay_Progress
  imports Eth2Near_Relay
begin

text \<open>
  Progress of the Ethereum-to-NEAR relay: as long as requests are answered and the client contract takes what it is sent, the rounds of
  \<^verbatim>\<open>run\<close> bring the contract to the head of the main chain, and submit every block in between exactly once.
\<close>

section \<open>A round that goes well\<close>

text \<open>
  The contract is at block \<open>c\<close> and on the main chain, whose head is \<open>h\<close>; the node answers for the blocks the search may ask for, and the blocks
  of the batch can be read, proved and sent.
\<close>

definition healthy_round :: "nat \<Rightarrow> nat \<Rightarrow> relay_lib \<Rightarrow> relay \<Rightarrow> int \<Rightarrow> int \<Rightarrow> relay_env \<Rightarrow> bool" where
  "healthy_round fuel depth L R h c E \<longleftrightarrow> re_clientHead E = Inr c \<and> re_chainHead E = Inr h
     \<and> (\<forall>v\<le>c. round_predicate fuel E v \<longleftrightarrow> 0 \<le> v)
     \<and> (\<forall>v. - rl_totalSubmitBlock R \<le> v \<and> v \<le> c \<longrightarrow> predicate fuel (re_attempts E v) 0 \<noteq> None)
     \<and> (\<forall>i. c < i \<and> i \<le> end_block R c h \<longrightarrow> (\<exists>a. submitBlock depth L R (getParseBlock L (re_node E i)) = Inr a))
     \<and> (\<forall>acts. re_send E acts = Inr ())"

text \<open>The head of the contract after the round: the last block of the batch.\<close>

definition next_head :: "relay \<Rightarrow> int \<Rightarrow> int \<Rightarrow> int" where
  "next_head R h c = (if c < h then end_block R c h else c)"

fun healthy_rounds :: "nat \<Rightarrow> nat \<Rightarrow> relay_lib \<Rightarrow> relay \<Rightarrow> int \<Rightarrow> int \<Rightarrow> relay_env list \<Rightarrow> bool" where
  "healthy_rounds fuel depth L R h c [] = True"
| "healthy_rounds fuel depth L R h c (E # Es) \<longleftrightarrow> healthy_round fuel depth L R h c E \<and> healthy_rounds fuel depth L R h (next_head R h c) Es"

text \<open>The estimate of the search is not above zero when the previous batch reached the head of the contract.\<close>

definition estimate_ok :: "relay \<Rightarrow> int option \<Rightarrow> int \<Rightarrow> bool" where
  "estimate_ok R prev c \<longleftrightarrow> (case prev of None \<Rightarrow> True | Some p \<Rightarrow> c \<le> p + rl_totalSubmitBlock R)"

lemma healthy_base:
  assumes "healthy_round fuel depth L R h c E" "0 \<le> c" "estimate_ok R prev c"
  shows "common_ancestor fuel R E prev c = c"
proof -
  let ?p = "round_predicate fuel E"
  define est where "est = (case prev of None \<Rightarrow> 0 | Some p \<Rightarrow> c - (p + rl_totalSubmitBlock R))"
  have est: "est \<le> 0" using assms(3) by (auto simp: est_def estimate_ok_def split: option.splits)
  have p: "?p v \<longleftrightarrow> 0 \<le> v" if "v \<le> c" for v using assms(1) that by (simp add: healthy_round_def)
  have "fst (binarySearchWithEstimate 0 c est ?p) = 0"
  proof (cases "est = 0")
    case True
    then show ?thesis using p [of 0] assms(2) by (simp add: search_at_lower_limit)
  next
    case False
    have mono: "mono_upto c ?p" using p by (auto simp: mono_upto_def)
    have "\<not> ?p est" using p [of est] est False assms(2) by simp
    have "?p c" "est \<le> c" using p [of c] est assms(2) by simp_all
    from search_up [OF mono this \<open>\<not> ?p est\<close> surjective_pairing]
    obtain r where r: "r = fst (binarySearchWithEstimate 0 c est ?p)" "?p r" "r \<le> c" "\<forall>i<r. \<not> ?p i" by blast
    then have "0 \<le> r" using p [of r] by blast
    moreover have "\<not> 0 < r" using r(4) p [of 0] assms(2) by blast
    ultimately show ?thesis using r(1) by simp
  qed
  then show ?thesis by (simp add: common_ancestor_def est_def Let_def)
qed

definition submitted :: "round_result \<Rightarrow> int list" where
  "submitted r = (case r of Submitted numbers acts \<Rightarrow> numbers | _ \<Rightarrow> [])"

lemma healthy_result:
  assumes "healthy_round fuel depth L R h c E" "0 \<le> c" "estimate_ok R prev c"
  shows "\<exists>r. relay_round fuel depth L R E prev = (Some c, r) \<and> submitted r = [c + 1..next_head R h c] \<and> (\<forall>e. r \<noteq> SubmitFailed e)"
proof (cases "c < h")
  case True
  have "\<forall>r \<in> set (map (submitBlock depth L R) (map (\<lambda>i. getParseBlock L (re_node E i)) [c + 1..end_block R c h])). \<exists>a. r = Inr a"
    using assms(1) by (auto simp: healthy_round_def)
  then obtain acts where acts: "res_list (map (submitBlock depth L R) (map (\<lambda>i. getParseBlock L (re_node E i)) [c + 1..end_block R c h])) = Inr acts"
    using res_list_all_Inr by blast
  then show ?thesis
    using True assms healthy_base [OF assms] by (simp add: relay_round_def healthy_round_def submit_blocks_def submitted_def next_head_def)
next
  case False
  then show ?thesis
    using assms healthy_base [OF assms] by (simp add: relay_round_def healthy_round_def submitted_def next_head_def)
qed

section \<open>The rounds together\<close>

lemma next_head_bounds:
  assumes "1 \<le> rl_totalSubmitBlock R" "c \<le> h"
  shows "c \<le> next_head R h c" "next_head R h c \<le> h" "next_head R h c \<le> c + rl_totalSubmitBlock R"
  using assms by (auto simp: next_head_def end_block_def)

lemma heads_grow:
  assumes "1 \<le> rl_totalSubmitBlock R" "c \<le> h"
  shows "c \<le> (next_head R h ^^ n) c \<and> (next_head R h ^^ n) c \<le> h"
  using assms(2)
proof (induction n)
  case (Suc n)
  then show ?case using next_head_bounds [OF assms(1), of "(next_head R h ^^ n) c" h] by auto
qed simp

lemma healthy_run:
  assumes "1 \<le> rl_totalSubmitBlock R" "0 \<le> c" "c \<le> h" "healthy_rounds fuel depth L R h c Es" "estimate_ok R prev c"
  shows "\<exists>rs prev'. relay_run fuel depth L R Es (prev, n) = (rs, prev', n) \<and> concat (map submitted rs) = [c + 1..(next_head R h ^^ length Es) c]"
  using assms(2-5)
proof (induction Es arbitrary: c prev)
  case (Cons E Es)
  let ?c = "next_head R h c"
  note b = next_head_bounds [OF assms(1) Cons.prems(2)]
  obtain r where r: "relay_round fuel depth L R E prev = (Some c, r)" "submitted r = [c + 1..?c]" "\<forall>e. r \<noteq> SubmitFailed e"
    using healthy_result [of fuel depth L R h c E prev] Cons.prems by auto
  obtain rs prev' where rs: "relay_run fuel depth L R Es (Some c, n) = (rs, prev', n)"
    "concat (map submitted rs) = [?c + 1..(next_head R h ^^ length Es) ?c]"
    using Cons.IH [of ?c "Some c"] Cons.prems b by (auto simp: estimate_ok_def)
  have "?c \<le> (next_head R h ^^ length Es) ?c"
    using heads_grow [OF assms(1) b(2)] by blast
  then have "[c + 1..?c] @ [?c + 1..(next_head R h ^^ length Es) ?c] = [c + 1..(next_head R h ^^ length Es) ?c]"
    using b(1) upto_split2 [of "c + 1" ?c "(next_head R h ^^ length Es) ?c"] by (cases "?c = c") simp_all
  then show ?case using r rs by (auto simp: funpow_swap1 split: round_result.splits)
qed simp

text \<open>While the contract has fewer than five blocks the relay submits one at a time.\<close>

lemma heads_reach:
  assumes total: "1 \<le> rl_totalSubmitBlock R"
  shows "0 \<le> c \<Longrightarrow> c \<le> h \<Longrightarrow> h - c \<le> (int n - max 0 (5 - c)) * rl_totalSubmitBlock R \<Longrightarrow> (next_head R h ^^ n) c = h"
proof (induction n arbitrary: c)
  case 0
  have "(int 0 - max 0 (5 - c)) * rl_totalSubmitBlock R \<le> 0" using total by (intro mult_nonpos_nonneg) auto
  with 0 show ?case by simp
next
  case (Suc n)
  let ?t = "rl_totalSubmitBlock R"
  show ?case
  proof (cases "c < h")
    case True
    have "(next_head R h ^^ n) (next_head R h c) = h"
    proof (cases "next_head R h c = h")
      case True
      then show ?thesis using heads_grow [OF total, of h h n] by simp
    next
      case False
      have "h - next_head R h c \<le> (int n - max 0 (5 - next_head R h c)) * ?t"
      proof (cases "c < 5")
        case True
        then have eq: "int (Suc n) - max 0 (5 - c) = int n - max 0 (5 - (c + 1))" "next_head R h c = c + 1"
          using \<open>c < h\<close> by (auto simp: next_head_def end_block_def)
        show ?thesis using Suc.prems(3) unfolding eq by linarith
      next
        case five: False
        then have "next_head R h c = c + ?t" using False \<open>c < h\<close> by (auto simp: next_head_def end_block_def min_def split: if_splits)
        moreover have "max 0 (5 - c) = 0" "max 0 (5 - (c + ?t)) = 0" using five total by simp_all
        ultimately show ?thesis using Suc.prems(3) by (simp add: algebra_simps)
      qed
      then show ?thesis using Suc.IH [of "next_head R h c"] next_head_bounds [OF total Suc.prems(2)] Suc.prems(1) by auto
    qed
    then show ?thesis by (simp add: funpow_swap1)
  next
    case False
    then show ?thesis using Suc.prems(2) heads_grow [OF total, of c h "Suc n"] by auto
  qed
qed


definition demo_progress :: "int \<Rightarrow> relay_env" where
  "demo_progress c = demo_env\<lparr>re_clientHead := Inr c, re_attempts := (\<lambda>v i. (Inr (Some \<lparr>eb_hash = ''0xab'', eb_baseFeePerGas = None, eb_fields = []\<rparr>),
     Inr (if 0 \<le> v then [''0xab''] else [])))\<rparr>"

lemma demo_submits:
  "\<exists>a. submitBlock (Suc (Suc (Suc 0))) demo_relay_lib demo_relay (getParseBlock demo_relay_lib (re_node (demo_progress c) i)) = Inr a"
  by (simp add: submitBlock_def getParseBlock_def getEthBlock_first demo_progress_def demo_env_def web3BlockToRlp_def
      demo_relay_lib_def header_args_def h512s_def dag_nodes_arg_def demo_hexlib_def hex_digit_def serialize_def
      client_borshSchema_def demo_writer_def)

lemma demo_healthy: "healthy_round (Suc 0) (Suc (Suc (Suc 0))) demo_relay_lib demo_relay 101 c (demo_progress c)"
  using demo_submits by (auto simp: healthy_round_def demo_progress_def demo_env_def)



section \<open>After a batch that the head of the chain cut short\<close>

lemma search_asks_estimate: "\<exists>qs. snd (binarySearchWithEstimate lo hi est p) = est # qs"
  by (auto simp: binarySearchWithEstimate_def Let_def split: prod.splits)

lemma predicate_waits: "(\<And>i. fst (att i) = Inr None) \<Longrightarrow> predicate fuel att i = None"
proof (induction fuel arbitrary: i)
  case (Suc fuel)
  obtain hashes where "att i = (Inr None, hashes)" using Suc.prems [of i] by (metis prod.collapse)
  then show ?case using Suc by simp
qed simp

text \<open>
  The estimate assumes that the previous batch was full. After a batch from \<open>c\<close> that ended at the head \<open>h\<close> of the chain it is negative, and the first block
  the next round asks for is \<open>c + totalSubmitBlock\<close>, above that head; until the chain has this block the round does not go on, whatever blocks
  could be submitted.
\<close>

lemma short_batch_waits:
  assumes "h < c + rl_totalSubmitBlock R"
    and "est = h - (c + rl_totalSubmitBlock R)" "\<And>i. fst (re_attempts E est i) = Inr None"
  shows "\<exists>qs. snd (binarySearchWithEstimate 0 h est (round_predicate fuel E)) = est # qs" "h < h - est" "predicate fuel (re_attempts E est) 0 = None"
  using assms search_asks_estimate predicate_waits by auto

end
