(* ===== verification/Sol_Memory.thy ===== *)
theory Sol_Memory
  imports Sol_Borsh
begin

text \<open>
  \<^verbatim>\<open>Borsh.sol\<close> and \<^verbatim>\<open>Utils.sol\<close> as they run: on the memory of the Ethereum machine, with pointers of 256 bits. The readers of
  \<^verbatim>\<open>Sol_Borsh\<close> work on a byte string with an offset; here a \<^verbatim>\<open>Borsh.Data\<close> is its two pointers, a read is the 32-byte word at the pointer,
  and \<^verbatim>\<open>memoryToBytes\<close> copies word by word to the free memory. The theorems show that the second implements the first.

  The readers that no message of the bridge uses (\<^verbatim>\<open>decodeU16\<close>, \<^verbatim>\<open>decodeU256\<close>, \<^verbatim>\<open>decodeBytes20\<close>, \<^verbatim>\<open>peekKeccak256\<close>) are here too.
\<close>

unbundle bit_operations_syntax

section \<open>The remaining byte swaps and readers\<close>

definition swapBytes2 :: "16 word \<Rightarrow> 16 word" where
  "swapBytes2 v = push_bit 8 v OR drop_bit 8 v"

definition swapBytes32 :: "256 word \<Rightarrow> 256 word" where
  "swapBytes32 v0 = (let
      v1 = push_bit 8 (v0 AND 0x00ff00ff00ff00ff00ff00ff00ff00ff00ff00ff00ff00ff00ff00ff00ff00ff) OR
            drop_bit 8 (v0 AND 0xff00ff00ff00ff00ff00ff00ff00ff00ff00ff00ff00ff00ff00ff00ff00ff00);
      v2 = push_bit 16 (v1 AND 0x0000ffff0000ffff0000ffff0000ffff0000ffff0000ffff0000ffff0000ffff) OR
            drop_bit 16 (v1 AND 0xffff0000ffff0000ffff0000ffff0000ffff0000ffff0000ffff0000ffff0000);
      v3 = push_bit 32 (v2 AND 0x00000000ffffffff00000000ffffffff00000000ffffffff00000000ffffffff) OR
            drop_bit 32 (v2 AND 0xffffffff00000000ffffffff00000000ffffffff00000000ffffffff00000000);
      v4 = push_bit 64 (v3 AND 0x0000000000000000ffffffffffffffff0000000000000000ffffffffffffffff) OR
            drop_bit 64 (v3 AND 0xffffffffffffffff0000000000000000ffffffffffffffff0000000000000000)
     in push_bit 128 v4 OR drop_bit 128 v4)"

definition decodeU16 :: "cursor \<Rightarrow> sol_error + 16 word \<times> cursor" where
  "decodeU16 c = res_bind (sol_read 2 c) (\<lambda>(bs, c1). Inr (swapBytes2 (be_word bs), c1))"

definition decodeU256 :: "cursor \<Rightarrow> sol_error + 256 word \<times> cursor" where
  "decodeU256 c = res_bind (sol_read 32 c) (\<lambda>(bs, c1). Inr (swapBytes32 (be_word bs), c1))"

definition decodeBytes20 :: "cursor \<Rightarrow> sol_error + bytes \<times> cursor" where
  "decodeBytes20 c = sol_read 20 c"

definition peekKeccak256 :: "(bytes \<Rightarrow> bytes) \<Rightarrow> nat \<Rightarrow> cursor \<Rightarrow> sol_error + bytes" where
  "peekKeccak256 keccak len c = res_bind (requireSpace len c) (\<lambda>_. Inr (keccak (take len (drop (coff c) (cbuf c)))))"

text \<open>One stage of a swap exchanges neighbouring blocks of bits.\<close>

definition flip_block :: "nat \<Rightarrow> nat \<Rightarrow> nat" where
  "flip_block s n = (if even (n div s) then n + s else n - s)"

lemma bit_swapBytes2: "n < 16 \<Longrightarrow> bit (swapBytes2 v) n = bit v (8 * (1 - n div 8) + n mod 8)"
proof -
  have "list_all (\<lambda>n. bit (swapBytes2 v) n = bit v (8 * (1 - n div 8) + n mod 8)) [0..<16]"
    by (auto simp: swapBytes2_def bit_simps upt_rec [of 0] upt_rec [of "Suc 0"] numeral_2_eq_2 [symmetric] dest: bit_imp_le_length)
  then show "n < 16 \<Longrightarrow> ?thesis" by (simp add: list_all_iff)
qed

lemma swap_stages:
  fixes v :: "256 word"
  shows "list_all (\<lambda>n. bit (push_bit 8 (v AND 0x00ff00ff00ff00ff00ff00ff00ff00ff00ff00ff00ff00ff00ff00ff00ff00ff) OR
            drop_bit 8 (v AND 0xff00ff00ff00ff00ff00ff00ff00ff00ff00ff00ff00ff00ff00ff00ff00ff00)) n = bit v (flip_block 8 n)) [0..<256]"
    "list_all (\<lambda>n. bit (push_bit 16 (v AND 0x0000ffff0000ffff0000ffff0000ffff0000ffff0000ffff0000ffff0000ffff) OR
            drop_bit 16 (v AND 0xffff0000ffff0000ffff0000ffff0000ffff0000ffff0000ffff0000ffff0000)) n = bit v (flip_block 16 n)) [0..<256]"
    "list_all (\<lambda>n. bit (push_bit 32 (v AND 0x00000000ffffffff00000000ffffffff00000000ffffffff00000000ffffffff) OR
            drop_bit 32 (v AND 0xffffffff00000000ffffffff00000000ffffffff00000000ffffffff00000000)) n = bit v (flip_block 32 n)) [0..<256]"
    "list_all (\<lambda>n. bit (push_bit 64 (v AND 0x0000000000000000ffffffffffffffff0000000000000000ffffffffffffffff) OR
            drop_bit 64 (v AND 0xffffffffffffffff0000000000000000ffffffffffffffff0000000000000000)) n = bit v (flip_block 64 n)) [0..<256]"
  by (simp_all add: bit_simps flip_block_def upt_rec [of 0] upt_rec [of "Suc 0"] numeral_2_eq_2 [symmetric])

lemma bit_swapBytes32:
  assumes "n < 256"
  shows "bit (swapBytes32 v) n = bit v (8 * (31 - n div 8) + n mod 8)"
proof -
  define v1 where "v1 = push_bit 8 (v AND 0x00ff00ff00ff00ff00ff00ff00ff00ff00ff00ff00ff00ff00ff00ff00ff00ff) OR
            drop_bit 8 (v AND 0xff00ff00ff00ff00ff00ff00ff00ff00ff00ff00ff00ff00ff00ff00ff00ff00)"
  define v2 where "v2 = push_bit 16 (v1 AND 0x0000ffff0000ffff0000ffff0000ffff0000ffff0000ffff0000ffff0000ffff) OR
            drop_bit 16 (v1 AND 0xffff0000ffff0000ffff0000ffff0000ffff0000ffff0000ffff0000ffff0000)"
  define v3 where "v3 = push_bit 32 (v2 AND 0x00000000ffffffff00000000ffffffff00000000ffffffff00000000ffffffff) OR
            drop_bit 32 (v2 AND 0xffffffff00000000ffffffff00000000ffffffff00000000ffffffff00000000)"
  define v4 where "v4 = push_bit 64 (v3 AND 0x0000000000000000ffffffffffffffff0000000000000000ffffffffffffffff) OR
            drop_bit 64 (v3 AND 0xffffffffffffffff0000000000000000ffffffffffffffff0000000000000000)"
  note st = swap_stages(1) [of v, folded v1_def] swap_stages(2) [of v1, folded v2_def] swap_stages(3) [of v2, folded v3_def]
    swap_stages(4) [of v3, folded v4_def]
  let ?f = "\<lambda>n. if n < 128 then n + 128 else n - 128"
  have "bit (push_bit 128 v4 OR drop_bit 128 v4) n = bit v4 (?f n)"
    using assms by (auto simp: bit_simps add.commute dest: bit_imp_le_length)
  moreover have "list_all (\<lambda>n. flip_block 64 (?f n) < 256 \<and> flip_block 32 (flip_block 64 (?f n)) < 256 \<and> flip_block 16 (flip_block 32 (flip_block 64 (?f n))) < 256
     \<and> ?f n < 256 \<and> flip_block 8 (flip_block 16 (flip_block 32 (flip_block 64 (?f n)))) = 8 * (31 - n div 8) + n mod 8) [0..<256]"
    by code_simp
  moreover have "swapBytes32 v = push_bit 128 v4 OR drop_bit 128 v4"
    by (simp only: swapBytes32_def Let_def v1_def v2_def v3_def v4_def)
  ultimately show ?thesis using assms st by (simp add: list_all_iff)
qed

lemma unat_swapBytes2: "length bs = 2 \<Longrightarrow> unat (swapBytes2 (be_word bs)) = le_nat bs"
  by (rule reversed_word [where k = 2]) (simp_all add: bit_swapBytes2)

lemma unat_swapBytes32: "length bs = 32 \<Longrightarrow> unat (swapBytes32 (be_word bs)) = le_nat bs"
  by (rule reversed_word [where k = 32]) (simp_all add: bit_swapBytes32)

text \<open>
  C20. The byte swaps of \<^verbatim>\<open>Utils.sol\<close>, written with masks and shifts, read little-endian numbers: for every width of \<^verbatim>\<open>Borsh.sol\<close>, swapping the
  big-endian word of the little-endian bytes of a number gives that number, modulo the width.
\<close>

theorem swapBytes_little_endian:
  "swapBytes2 (be_word (le_bytes 2 n)) = word_of_nat n \<and> swapBytes4 (be_word (le_bytes 4 n)) = word_of_nat n
   \<and> swapBytes8 (be_word (le_bytes 8 n)) = word_of_nat n \<and> swapBytes16 (be_word (le_bytes 16 n)) = word_of_nat n
   \<and> swapBytes32 (be_word (le_bytes 32 n)) = word_of_nat n"
  by (simp add: word_unat_eq_iff unat_swapBytes2 unat_swapBytes4 unat_swapBytes8 unat_swapBytes16 unat_swapBytes32 le_nat_le_bytes_mod unat_of_nat)

section \<open>Memory\<close>

type_synonym memory = "256 word \<Rightarrow> byte"

definition mem_bytes :: "memory \<Rightarrow> 256 word \<Rightarrow> nat \<Rightarrow> bytes" where
  "mem_bytes m p n = map (\<lambda>i. m (p + word_of_nat i)) [0..<n]"

text \<open>\<^verbatim>\<open>mload\<close> and \<^verbatim>\<open>mstore\<close>: 32 bytes, the most significant first.\<close>

definition readMemory :: "memory \<Rightarrow> 256 word \<Rightarrow> 256 word" where
  "readMemory m p = be_word (mem_bytes m p 32)"

definition writeMemory :: "memory \<Rightarrow> 256 word \<Rightarrow> 256 word \<Rightarrow> memory" where
  "writeMemory m p v = (\<lambda>a. let i = unat (a - p) in if i < 32 then ucast (drop_bit (8 * (31 - i)) v) else m a)"

text \<open>The loop of \<^verbatim>\<open>memoryToBytes\<close>; \<open>None\<close> when \<open>fuel\<close> words are not enough.\<close>

fun copy_loop :: "nat \<Rightarrow> memory \<Rightarrow> 256 word \<Rightarrow> 256 word \<Rightarrow> 256 word \<Rightarrow> memory option" where
  "copy_loop 0 m destPtr endPtr ptr = None"
| "copy_loop (Suc fuel) m destPtr endPtr ptr = (let m' = writeMemory m destPtr (readMemory m ptr); destPtr' = destPtr + 32
     in if destPtr' = endPtr then Some m' else copy_loop fuel m' destPtr' endPtr (ptr + 32))"

text \<open>An empty result is the pointer \<^verbatim>\<open>0x60\<close> of Solidity's empty arrays.\<close>

definition memoryToBytes :: "nat \<Rightarrow> memory \<Rightarrow> 256 word \<Rightarrow> 256 word \<Rightarrow> (memory \<times> 256 word) option" where
  "memoryToBytes fuel m ptr len = (if len \<noteq> 0 then
     (let res = readMemory m 0x40;
          endPtr = res + ((len + 63) AND 0xffffffffffffffffffffffffffffffffffffffffffffffffffffffffffffffe0);
          m1 = writeMemory m 0x40 endPtr;
          m2 = writeMemory m1 res len
      in map_option (\<lambda>m3. (m3, res)) (copy_loop fuel m2 (res + 32) endPtr ptr))
     else Some (m, 0x60))"

definition bytes_at :: "memory \<Rightarrow> 256 word \<Rightarrow> bytes" where
  "bytes_at m p = mem_bytes m (p + 32) (unat (readMemory m p))"

lemma bit_be_word: "bit (be_word bs :: 'a::len word) n \<longleftrightarrow> n < LENGTH('a) \<and> n div 8 < length bs \<and> bit (bs ! (length bs - 1 - n div 8)) (n mod 8)"
  by (auto simp: be_word_def bit_simps bit_le_nat rev_nth)

lemma byte_of_word:
  assumes "length bs = 32" "i < 32"
  shows "ucast (drop_bit (8 * (31 - i)) (be_word bs :: 256 word)) = bs ! i"
proof (rule bit_word_eqI)
  fix j assume "j < LENGTH(8)"
  then have j: "j < 8" by simp
  have "(8 * (31 - i) + j) div 8 = 31 - i" "(8 * (31 - i) + j) mod 8 = j" using j by simp_all
  moreover have "8 * (31 - i) + j < 256" using j assms(2) by simp
  ultimately show "bit (ucast (drop_bit (8 * (31 - i)) (be_word bs :: 256 word)) :: byte) j = bit (bs ! i) j"
    using j assms by (simp add: bit_simps bit_be_word)
qed

lemma mem_bytes_nth [simp]: "length (mem_bytes m p n) = n" "i < n \<Longrightarrow> mem_bytes m p n ! i = m (p + word_of_nat i)"
  by (simp_all add: mem_bytes_def)

lemma copy_word:
  "unat (a - p) < 32 \<Longrightarrow> writeMemory m p (readMemory m' q) a = m' (q + (a - p))"
  "\<not> unat (a - p) < 32 \<Longrightarrow> writeMemory m p v a = m a"
  by (simp_all add: writeMemory_def readMemory_def byte_of_word Let_def)

lemma offset_inj: "i < 2 ^ 256 \<Longrightarrow> j < 2 ^ 256 \<Longrightarrow> (b :: 256 word) + word_of_nat i = b + word_of_nat j \<longleftrightarrow> i = j"
  by (simp add: word_of_nat_eq_iff take_bit_nat_eq_self)

lemma copy_block:
  assumes "m' = writeMemory m (base + word_of_nat (32 * j)) (readMemory m (src + word_of_nat (32 * j)))"
  shows "32 * j \<le> k \<Longrightarrow> k < 32 * j + 32 \<Longrightarrow> m' (base + word_of_nat k) = m (src + word_of_nat k)"
    and "\<forall>k. 32 * j \<le> k \<and> k < 32 * j + 32 \<longrightarrow> a \<noteq> base + word_of_nat k \<Longrightarrow> m' a = m a"
proof -
  assume k: "32 * j \<le> k" "k < 32 * j + 32"
  then obtain i where i: "k = 32 * j + i" "i < 32" by (metis le_add_diff_inverse nat_add_left_cancel_less)
  then have "base + word_of_nat k - (base + word_of_nat (32 * j)) = word_of_nat i" by simp
  moreover have "unat (word_of_nat i :: 256 word) = i" using i(2) by (simp add: unat_of_nat)
  ultimately show "m' (base + word_of_nat k) = m (src + word_of_nat k)"
    using i unfolding assms by (simp add: copy_word(1) add.assoc)
next
  assume out: "\<forall>k. 32 * j \<le> k \<and> k < 32 * j + 32 \<longrightarrow> a \<noteq> base + word_of_nat k"
  let ?i = "unat (a - (base + word_of_nat (32 * j)))"
  have eq: "a = base + word_of_nat (32 * j + ?i)" by simp
  have "\<not> ?i < 32"
  proof
    assume "?i < 32"
    then have "32 * j \<le> 32 * j + ?i \<and> 32 * j + ?i < 32 * j + 32" by simp
    with out eq show False by blast
  qed
  then show "m' a = m a" unfolding assms by (rule copy_word(2))
qed

text \<open>
  The bytes outside of the copied region stay, and every byte of the source that the region does not overlap arrives; the last words may
  carry bytes that follow the source.
\<close>

lemma copy_loop_copies:
  assumes "32 * (j + Suc n) < 2 ^ 256" "\<forall>i<len. \<forall>k<32 * (j + Suc n). src + word_of_nat i \<noteq> base + word_of_nat k"
  shows "\<exists>m'. copy_loop (Suc n + extra) m (base + word_of_nat (32 * j)) (base + word_of_nat (32 * (j + Suc n))) (src + word_of_nat (32 * j)) = Some m'
    \<and> (\<forall>a. (\<forall>k. 32 * j \<le> k \<and> k < 32 * (j + Suc n) \<longrightarrow> a \<noteq> base + word_of_nat k) \<longrightarrow> m' a = m a)
    \<and> (\<forall>k. 32 * j \<le> k \<and> k < 32 * (j + Suc n) \<and> k < len \<longrightarrow> m' (base + word_of_nat k) = m (src + word_of_nat k))"
  using assms
proof (induction n arbitrary: j m)
  case 0
  define m1 where "m1 = writeMemory m (base + word_of_nat (32 * j)) (readMemory m (src + word_of_nat (32 * j)))"
  have "base + word_of_nat (32 * j) + 32 = base + word_of_nat (32 * (j + Suc 0))" by simp
  then have "copy_loop (Suc 0 + extra) m (base + word_of_nat (32 * j)) (base + word_of_nat (32 * (j + Suc 0))) (src + word_of_nat (32 * j)) = Some m1"
    by (simp add: m1_def Let_def)
  then show ?case using copy_block [OF m1_def] by (intro exI [of _ m1]) simp
next
  case (Suc n)
  define m1 where "m1 = writeMemory m (base + word_of_nat (32 * j)) (readMemory m (src + word_of_nat (32 * j)))"
  note blk = copy_block [OF m1_def]
  have next_ptr: "p + word_of_nat (32 * j) + 32 = p + word_of_nat (32 * Suc j)" for p :: "256 word" by simp
  have "base + word_of_nat (32 * Suc j) \<noteq> base + word_of_nat (32 * (j + Suc (Suc n)))"
    using Suc.prems(1) by (subst offset_inj) auto
  then have loop: "copy_loop (Suc (Suc n) + extra) m (base + word_of_nat (32 * j)) (base + word_of_nat (32 * (j + Suc (Suc n)))) (src + word_of_nat (32 * j))
      = copy_loop (Suc n + extra) m1 (base + word_of_nat (32 * Suc j)) (base + word_of_nat (32 * (Suc j + Suc n))) (src + word_of_nat (32 * Suc j))"
    by (simp only: copy_loop.simps add_Suc Let_def m1_def next_ptr) simp
  obtain m' where m': "copy_loop (Suc n + extra) m1 (base + word_of_nat (32 * Suc j)) (base + word_of_nat (32 * (Suc j + Suc n))) (src + word_of_nat (32 * Suc j)) = Some m'"
    "\<And>a. \<forall>k. 32 * Suc j \<le> k \<and> k < 32 * (Suc j + Suc n) \<longrightarrow> a \<noteq> base + word_of_nat k \<Longrightarrow> m' a = m1 a"
    "\<And>k. 32 * Suc j \<le> k \<Longrightarrow> k < 32 * (Suc j + Suc n) \<Longrightarrow> k < len \<Longrightarrow> m' (base + word_of_nat k) = m1 (src + word_of_nat k)"
    using Suc.IH [of "Suc j" m1] Suc.prems by auto
  have "m' a = m a" if "\<forall>k. 32 * j \<le> k \<and> k < 32 * (j + Suc (Suc n)) \<longrightarrow> a \<noteq> base + word_of_nat k" for a
    using m'(2) [of a] blk(2) [of a] that by auto
  moreover have "m' (base + word_of_nat k) = m (src + word_of_nat k)" if k: "32 * j \<le> k" "k < 32 * (j + Suc (Suc n))" "k < len" for k
  proof (cases "k < 32 * j + 32")
    case True
    have "base + word_of_nat k \<noteq> base + word_of_nat i" if "32 * Suc j \<le> i" "i < 32 * (Suc j + Suc n)" for i
      using offset_inj [of k i base] that True Suc.prems(1) by auto
    then show ?thesis using m'(2) [of "base + word_of_nat k"] blk(1) [OF k(1) True] by auto
  next
    case False
    have "src + word_of_nat k \<noteq> base + word_of_nat i" if "i < 32 * j + 32" for i using Suc.prems(2) k(3) that by auto
    then show ?thesis using m'(3) [of k] False k blk(2) [of "src + word_of_nat k"] by auto
  qed
  ultimately show ?case using loop m'(1) by (intro exI [of _ m']) auto
qed

section \<open>memoryToBytes\<close>

definition region :: "256 word \<Rightarrow> nat \<Rightarrow> 256 word set" where
  "region p n = (\<lambda>k. p + word_of_nat k) ` {..<n}"

lemma region_32: "a \<in> region p 32 \<longleftrightarrow> unat (a - p) < 32"
proof
  assume "a \<in> region p 32"
  then show "unat (a - p) < 32" by (auto simp: region_def unat_of_nat)
next
  assume "unat (a - p) < 32"
  moreover have "a = p + word_of_nat (unat (a - p))" by simp
  ultimately show "a \<in> region p 32" unfolding region_def by blast
qed

lemma writeMemory_out: "a \<notin> region p 32 \<Longrightarrow> writeMemory m p v a = m a"
  by (simp add: region_32 copy_word(2))

lemma mem_bytes_cong: "\<forall>a\<in>region p n. m' a = m a \<Longrightarrow> mem_bytes m' p n = mem_bytes m p n"
  by (auto simp: mem_bytes_def region_def)

lemma readMemory_cong: "\<forall>a\<in>region p 32. m' a = m a \<Longrightarrow> readMemory m' p = readMemory m p"
  using mem_bytes_cong [of p 32 m' m] by (simp add: readMemory_def)

lemma read_written: "readMemory (writeMemory m p v) p = v"
proof (rule bit_word_eqI)
  fix n assume "n < LENGTH(256)"
  then have n: "n < 256" by simp
  let ?i = "31 - n div 8"
  have i: "?i < 32" "31 - ?i = n div 8" "8 * (n div 8) + n mod 8 = n" "n div 8 < 32" using n by auto
  have "writeMemory m p v (p + word_of_nat ?i) = ucast (drop_bit (8 * (31 - ?i)) v)"
    using i(1) by (simp add: writeMemory_def unat_of_nat)
  then have "bit (readMemory (writeMemory m p v) p) n = bit (ucast (drop_bit (8 * (n div 8)) v) :: byte) (n mod 8)"
    using n i by (simp add: readMemory_def bit_be_word)
  also have "\<dots> = bit v n" using i(3) by (simp add: bit_simps)
  finally show "bit (readMemory (writeMemory m p v) p) n = bit v n" .
qed

lemma round_down:
  assumes "n < 2 ^ 256"
  shows "(word_of_nat n :: 256 word) AND 0xffffffffffffffffffffffffffffffffffffffffffffffffffffffffffffffe0 = word_of_nat (32 * (n div 32))"
proof -
  have "(x :: 256 word) AND NOT (mask 5) = push_bit 5 (drop_bit 5 x)" for x
    by (rule bit_word_eqI) (auto simp: bit_simps)
  moreover have "(0xffffffffffffffffffffffffffffffffffffffffffffffffffffffffffffffe0 :: 256 word) = NOT (mask 5)"
    by (simp add: mask_numeral)
  moreover have "drop_bit 5 (word_of_nat n :: 256 word) = word_of_nat (n div 32)"
    using assms by (simp only: word_unat_eq_iff unat_drop_bit_eq) (simp add: unat_of_nat drop_bit_eq_div)
  ultimately show ?thesis by (simp add: push_bit_eq_mult mult.commute)
qed

lemma round_up:
  fixes len :: "256 word"
  assumes "unat len + 63 < 2 ^ 256"
  shows "(len + 63) AND 0xffffffffffffffffffffffffffffffffffffffffffffffffffffffffffffffe0 = word_of_nat (32 * ((unat len + 63) div 32))"
  using round_down [OF assms] by simp

text \<open>
  The memory \<^verbatim>\<open>memoryToBytes\<close> uses: the slot of the free memory pointer and the result with its length, which overlap neither each other nor the
  source.
\<close>

definition copy_room :: "memory \<Rightarrow> 256 word \<Rightarrow> 256 word \<Rightarrow> bool" where
  "copy_room m ptr len \<longleftrightarrow> (let res = region (readMemory m 0x40) (32 * ((unat len + 63) div 32)) in
     unat len + 63 < 2 ^ 256 \<and> region ptr (unat len) \<inter> (region 0x40 32 \<union> res) = {} \<and> region 0x40 32 \<inter> res = {})"

lemma region_offset: "k < n \<Longrightarrow> p + word_of_nat k \<in> region p n"
  by (auto simp: region_def)

lemma memoryToBytes_copies:
  assumes "len \<noteq> 0" "copy_room m ptr len" "(unat len + 31) div 32 \<le> fuel"
  shows "\<exists>m'. memoryToBytes fuel m ptr len = Some (m', readMemory m 0x40) \<and> bytes_at m' (readMemory m 0x40) = mem_bytes m ptr (unat len)
    \<and> readMemory m' 0x40 = readMemory m 0x40 + word_of_nat (32 * ((unat len + 63) div 32))
    \<and> (\<forall>a. a \<notin> region 0x40 32 \<and> a \<notin> region (readMemory m 0x40) (32 * ((unat len + 63) div 32)) \<longrightarrow> m' a = m a)"
proof -
  define res where "res = readMemory m 0x40"
  define n where "n = (unat len + 31) div 32 - 1"
  have "0 < unat len" using assms(1) by (simp add: unat_gt_0)
  then have size: "(unat len + 63) div 32 = Suc (Suc n)" "unat len \<le> 32 * Suc n" "(unat len + 31) div 32 = Suc n" unfolding n_def by auto
  note room = assms(2) [unfolded copy_room_def Let_def, folded res_def]
  define endPtr where "endPtr = res + word_of_nat (32 * Suc (Suc n))"
  define m1 where "m1 = writeMemory m 0x40 endPtr"
  define m2 where "m2 = writeMemory m1 res len"
  have big: "32 * Suc (Suc n) < 2 ^ 256" using room size(1) by auto
  have base: "res + 32 + word_of_nat k = res + word_of_nat (32 + k)" for k by (simp add: add.assoc)
  have m2: "m2 a = m a" if "a \<notin> region 0x40 32" "a \<notin> region res 32" for a
    using that by (simp add: m1_def m2_def writeMemory_out)
  have src: "ptr + word_of_nat i \<notin> region 0x40 32" "ptr + word_of_nat i \<notin> region res (32 * Suc (Suc n))" if "i < unat len" for i
    using room region_offset [OF that, of ptr] size(1) by auto
  have first: "region res 32 \<subseteq> region res (32 * Suc (Suc n))" by (auto simp: region_def)
  have apart: "\<forall>i<unat len. \<forall>k<32 * (0 + Suc n). ptr + word_of_nat i \<noteq> res + 32 + word_of_nat k"
  proof (intro allI impI)
    fix i k assume ik: "i < unat len" "k < 32 * (0 + Suc n)"
    then have "res + 32 + word_of_nat k \<in> region res (32 * Suc (Suc n))" unfolding base by (intro region_offset) simp
    with src(2) [OF ik(1)] show "ptr + word_of_nat i \<noteq> res + 32 + word_of_nat k" by metis
  qed
  obtain e where e: "fuel = Suc n + e" using assms(3) size(3) by (metis le_iff_add)
  have "32 * (0 + Suc n) < 2 ^ 256" using big by simp
  from copy_loop_copies [OF this apart, of e m2] obtain m' where
    m': "copy_loop fuel m2 (res + 32) (res + 32 + word_of_nat (32 * Suc n)) ptr = Some m'"
      "\<And>a. \<forall>k<32 * Suc n. a \<noteq> res + 32 + word_of_nat k \<Longrightarrow> m' a = m2 a"
      "\<And>k. k < 32 * Suc n \<Longrightarrow> k < unat len \<Longrightarrow> m' (res + 32 + word_of_nat k) = m2 (ptr + word_of_nat k)"
    unfolding e by auto
  have "res + 32 + word_of_nat (32 * Suc n) = endPtr" by (simp only: base endPtr_def) simp
  then have run: "memoryToBytes fuel m ptr len = Some (m', res)"
    using assms(1) m'(1) round_up [of len] room
    by (simp add: memoryToBytes_def Let_def size(1) res_def [symmetric] endPtr_def [symmetric] m1_def [symmetric] m2_def [symmetric] del: mult_Suc_right of_nat_mult)
  have kept: "m' a = m2 a" if "a \<notin> region res (32 * Suc (Suc n)) \<or> a \<in> region res 32" for a
  proof (rule m'(2), intro allI impI)
    fix k assume k: "k < 32 * Suc n"
    have "res + 32 + word_of_nat k \<in> region res (32 * Suc (Suc n))" unfolding base using k by (intro region_offset) simp
    moreover have "res + 32 + word_of_nat k \<notin> region res 32"
      unfolding base region_def using k big offset_inj [of "32 + k" _ res] by auto
    ultimately show "a \<noteq> res + 32 + word_of_nat k" using that by blast
  qed
  have "readMemory m' res = readMemory m2 res" by (rule readMemory_cong) (use kept in blast)
  then have "readMemory m' res = len" by (simp add: m2_def read_written)
  moreover have "m2 (ptr + word_of_nat i) = m (ptr + word_of_nat i)" if "i < unat len" for i using m2 src [OF that] first by blast
  then have "mem_bytes m' (res + 32) (unat len) = mem_bytes m ptr (unat len)"
    using m'(3) size(2) by (intro nth_equalityI) simp_all
  ultimately have bytes: "bytes_at m' res = mem_bytes m ptr (unat len)" by (simp add: bytes_at_def)
  have slot: "a \<notin> region res (32 * Suc (Suc n))" "a \<notin> region res 32" if "a \<in> region 0x40 32" for a
    using that room size(1) first by auto
  have "readMemory m' 0x40 = readMemory m1 0x40"
    by (rule readMemory_cong) (use kept slot in \<open>auto simp: m2_def writeMemory_out\<close>)
  then have "readMemory m' 0x40 = endPtr" by (simp add: m1_def read_written)
  moreover have "m' a = m a" if "a \<notin> region 0x40 32" "a \<notin> region res (32 * Suc (Suc n))" for a
    using that kept [of a] m2 [of a] first by (metis subset_iff)
  ultimately show ?thesis using run bytes unfolding size(1) res_def endPtr_def by blast
qed

section \<open>Borsh.Data\<close>

record borsh_data =
  bd_ptr :: "256 word"
  bd_end :: "256 word"

definition borsh_from :: "memory \<Rightarrow> 256 word \<Rightarrow> borsh_data" where
  "borsh_from m data = (let ptr = data + 32 in \<lparr>bd_ptr = ptr, bd_end = ptr + readMemory m data\<rparr>)"

definition mem_requireSpace :: "256 word \<Rightarrow> borsh_data \<Rightarrow> sol_error + unit" where
  "mem_requireSpace len d = (if bd_ptr d + len \<le> bd_end d then Inr () else Inl (Revert ''Parse error: unexpected EOI''))"

definition mem_read :: "memory \<Rightarrow> 256 word \<Rightarrow> borsh_data \<Rightarrow> sol_error + 256 word \<times> borsh_data" where
  "mem_read m len d = res_bind (mem_requireSpace len d) (\<lambda>_. Inr (readMemory m (bd_ptr d), d\<lparr>bd_ptr := bd_ptr d + len\<rparr>))"

definition mem_done :: "borsh_data \<Rightarrow> sol_error + unit" where
  "mem_done d = (if bd_ptr d = bd_end d then Inr () else Inl (Revert ''Parse error: EOI expected''))"

text \<open>\<^verbatim>\<open>peekSha256\<close> and \<^verbatim>\<open>peekKeccak256\<close>, with the hash as an argument.\<close>

definition mem_peek :: "(bytes \<Rightarrow> bytes) \<Rightarrow> memory \<Rightarrow> 256 word \<Rightarrow> borsh_data \<Rightarrow> sol_error + bytes" where
  "mem_peek hash m len d = res_bind (mem_requireSpace len d) (\<lambda>_. Inr (hash (mem_bytes m (bd_ptr d) (unat len))))"

text \<open>\<^verbatim>\<open>bytesN(w)\<close> and \<^verbatim>\<open>uintM(bytesN(w))\<close>.\<close>

definition top_bytes :: "nat \<Rightarrow> 256 word \<Rightarrow> bytes" where
  "top_bytes k w = map (\<lambda>i. ucast (drop_bit (8 * (31 - i)) w)) [0..<k]"

definition top_uint :: "256 word \<Rightarrow> 'a::len word" where
  "top_uint w = ucast (drop_bit (256 - LENGTH('a)) w)"

definition mem_decodeU8 :: "memory \<Rightarrow> borsh_data \<Rightarrow> sol_error + byte \<times> borsh_data" where
  "mem_decodeU8 m d = res_bind (mem_read m 1 d) (\<lambda>(w, d1). Inr (top_uint w, d1))"

definition mem_decodeU16 :: "memory \<Rightarrow> borsh_data \<Rightarrow> sol_error + 16 word \<times> borsh_data" where
  "mem_decodeU16 m d = res_bind (mem_read m 2 d) (\<lambda>(w, d1). Inr (swapBytes2 (top_uint w), d1))"

definition mem_decodeU32 :: "memory \<Rightarrow> borsh_data \<Rightarrow> sol_error + 32 word \<times> borsh_data" where
  "mem_decodeU32 m d = res_bind (mem_read m 4 d) (\<lambda>(w, d1). Inr (swapBytes4 (top_uint w), d1))"

definition mem_decodeU64 :: "memory \<Rightarrow> borsh_data \<Rightarrow> sol_error + 64 word \<times> borsh_data" where
  "mem_decodeU64 m d = res_bind (mem_read m 8 d) (\<lambda>(w, d1). Inr (swapBytes8 (top_uint w), d1))"

definition mem_decodeU128 :: "memory \<Rightarrow> borsh_data \<Rightarrow> sol_error + 128 word \<times> borsh_data" where
  "mem_decodeU128 m d = res_bind (mem_read m 16 d) (\<lambda>(w, d1). Inr (swapBytes16 (top_uint w), d1))"

definition mem_decodeU256 :: "memory \<Rightarrow> borsh_data \<Rightarrow> sol_error + 256 word \<times> borsh_data" where
  "mem_decodeU256 m d = res_bind (mem_read m 32 d) (\<lambda>(w, d1). Inr (swapBytes32 w, d1))"

definition mem_decodeBytes20 :: "memory \<Rightarrow> borsh_data \<Rightarrow> sol_error + bytes \<times> borsh_data" where
  "mem_decodeBytes20 m d = res_bind (mem_read m 20 d) (\<lambda>(w, d1). Inr (top_bytes 20 w, d1))"

definition mem_decodeBytes32 :: "memory \<Rightarrow> borsh_data \<Rightarrow> sol_error + bytes \<times> borsh_data" where
  "mem_decodeBytes32 m d = res_bind (mem_read m 32 d) (\<lambda>(w, d1). Inr (top_bytes 32 w, d1))"

definition mem_decodeBool :: "memory \<Rightarrow> borsh_data \<Rightarrow> sol_error + bool \<times> borsh_data" where
  "mem_decodeBool m d = res_bind (mem_decodeU8 m d) (\<lambda>(b, d1).
     if b \<le> 1 then Inr (b \<noteq> 0, d1) else Inl (Revert ''Parse error: invalid bool''))"

definition mem_skipBytes :: "memory \<Rightarrow> borsh_data \<Rightarrow> sol_error + borsh_data" where
  "mem_skipBytes m d = res_bind (mem_decodeU32 m d) (\<lambda>(len, d1).
     res_bind (mem_requireSpace (ucast len) d1) (\<lambda>_. Inr (d1\<lparr>bd_ptr := bd_ptr d1 + ucast len\<rparr>)))"

text \<open>The new memory, the pointer to the bytes and the data; \<open>None\<close> when the copy runs out of \<open>fuel\<close>.\<close>

definition mem_decodeBytes :: "nat \<Rightarrow> memory \<Rightarrow> borsh_data \<Rightarrow> (sol_error + memory \<times> 256 word \<times> borsh_data) option" where
  "mem_decodeBytes fuel m d = (case res_bind (mem_decodeU32 m d) (\<lambda>(len, d1). res_bind (mem_requireSpace (ucast len) d1) (\<lambda>_. Inr (len, d1))) of
     Inl e \<Rightarrow> Some (Inl e)
   | Inr (len, d1) \<Rightarrow> map_option (\<lambda>(m', p). Inr (m', p, d1\<lparr>bd_ptr := bd_ptr d1 + ucast len\<rparr>)) (memoryToBytes fuel m (bd_ptr d1) (ucast len)))"

section \<open>The readers on memory implement the readers on a byte string\<close>

definition represents :: "memory \<Rightarrow> 256 word \<Rightarrow> nat \<Rightarrow> borsh_data \<Rightarrow> cursor \<Rightarrow> bool" where
  "represents m base n d c \<longleftrightarrow> cbuf c = mem_bytes m base n \<and> bd_end d = base + word_of_nat n \<and> bd_ptr d = base + word_of_nat (coff c)
     \<and> coff c \<le> n \<and> unat base + n + 2 ^ 32 \<le> 2 ^ 256"

definition refined :: "memory \<Rightarrow> 256 word \<Rightarrow> nat \<Rightarrow> sol_error + 'v \<times> borsh_data \<Rightarrow> sol_error + 'v \<times> cursor \<Rightarrow> bool" where
  "refined m base n x y = (case (x, y) of (Inl e, Inl e') \<Rightarrow> e = e' | (Inr (v, d), Inr (v', c)) \<Rightarrow> v = v' \<and> represents m base n d c | _ \<Rightarrow> False)"

lemma unat_offset: "unat base + k < 2 ^ 256 \<Longrightarrow> unat ((base :: 256 word) + word_of_nat k) = unat base + k"
  by (simp add: unat_word_ariths unat_of_nat)

lemma mem_requireSpace_refines:
  assumes "represents m base n d c" "len < 2 ^ 32"
  shows "mem_requireSpace (word_of_nat len) d = requireSpace len c"
proof -
  have "unat (base + word_of_nat (coff c + len)) = unat base + (coff c + len)" "unat (base + word_of_nat n) = unat base + n"
    using assms by (intro unat_offset; auto simp: represents_def)+
  then have "base + word_of_nat (coff c + len) \<le> base + word_of_nat n \<longleftrightarrow> coff c + len \<le> n"
    by (simp add: word_le_nat_alt)
  then show ?thesis using assms(1) by (simp add: mem_requireSpace_def requireSpace_def represents_def add.assoc)
qed

lemma represents_advance:
  assumes "represents m base n d c" "coff c + len \<le> n"
  shows "represents m base n (d\<lparr>bd_ptr := bd_ptr d + word_of_nat len\<rparr>) (advance len c)"
  using assms by (simp add: represents_def add.assoc)

lemma mem_bytes_slice: "k + len \<le> n \<Longrightarrow> take len (drop k (mem_bytes m base n)) = mem_bytes m (base + word_of_nat k) len"
  by (intro nth_equalityI) (simp_all add: add.assoc)

lemma top_uint_be:
  assumes "length bs = 32" "LENGTH('a) = 8 * k" "k \<le> 32"
  shows "(top_uint (be_word bs) :: 'a::len word) = be_word (take k bs)"
proof (rule bit_word_eqI)
  fix j assume j: "j < LENGTH('a)"
  let ?n = "8 * (32 - k) + j"
  have n: "?n div 8 = 32 - k + j div 8" "?n mod 8 = j mod 8" by simp_all
  have "j div 8 < k" using j assms(2) by auto
  then have "31 - (32 - k + j div 8) = k - 1 - j div 8" "?n < 256" "32 - k + j div 8 < 32" "k - 1 - j div 8 < k"
    using assms j by auto
  moreover have "256 - LENGTH('a) = 8 * (32 - k)" using assms(2) by simp
  ultimately show "bit (top_uint (be_word bs) :: 'a word) j = bit (be_word (take k bs) :: 'a word) j"
    using j n assms \<open>j div 8 < k\<close> by (simp add: top_uint_def bit_simps bit_be_word)
qed

lemma top_bytes_be: "length bs = 32 \<Longrightarrow> k \<le> 32 \<Longrightarrow> top_bytes k (be_word bs) = take k bs"
  by (intro nth_equalityI) (simp_all add: top_bytes_def byte_of_word)

text \<open>A reader that computes \<open>f\<close> of the word at the pointer, and one that computes \<open>g\<close> of its first \<open>k\<close> bytes.\<close>

lemma mem_reader:
  assumes "represents m base n d c" "k \<le> 32" "\<And>bs. length bs = 32 \<Longrightarrow> f (be_word bs) = g (take k bs)"
  shows "refined m base n (res_bind (mem_read m (word_of_nat k) d) (\<lambda>(w, d1). Inr (f w, d1))) (res_bind (sol_read k c) (\<lambda>(bs, c1). Inr (g bs, c1)))"
proof -
  have len: "length (cbuf c) = n" using assms(1) by (simp add: represents_def)
  have space: "mem_requireSpace (word_of_nat k) d = requireSpace k c" using mem_requireSpace_refines [OF assms(1)] assms(2) by simp
  show ?thesis
  proof (cases "coff c + k \<le> n")
    case True
    have "f (readMemory m (bd_ptr d)) = g (take k (drop (coff c) (cbuf c)))"
      using assms True by (simp add: readMemory_def represents_def mem_bytes_slice) (simp add: mem_bytes_def take_map)
    then show ?thesis
      using True represents_advance [OF assms(1) True] len by (simp add: mem_read_def sol_read_def refined_def space requireSpace_def)
  next
    case False
    then show ?thesis using len by (simp add: mem_read_def sol_read_def refined_def space requireSpace_def)
  qed
qed

lemma mem_words:
  assumes "represents m base n d c"
  shows "refined m base n (mem_decodeU8 m d) (decodeU8 c)" "refined m base n (mem_decodeU16 m d) (decodeU16 c)"
    "refined m base n (mem_decodeU32 m d) (decodeU32 c)" "refined m base n (mem_decodeU64 m d) (decodeU64 c)"
    "refined m base n (mem_decodeU128 m d) (decodeU128 c)" "refined m base n (mem_decodeU256 m d) (decodeU256 c)"
  using mem_reader [OF assms, of 1 "top_uint :: 256 word \<Rightarrow> byte" be_word] mem_reader [OF assms, of 2 "\<lambda>w. swapBytes2 (top_uint w)" "\<lambda>bs. swapBytes2 (be_word bs)"]
    mem_reader [OF assms, of 4 "\<lambda>w. swapBytes4 (top_uint w)" "\<lambda>bs. swapBytes4 (be_word bs)"]
    mem_reader [OF assms, of 8 "\<lambda>w. swapBytes8 (top_uint w)" "\<lambda>bs. swapBytes8 (be_word bs)"]
    mem_reader [OF assms, of 16 "\<lambda>w. swapBytes16 (top_uint w)" "\<lambda>bs. swapBytes16 (be_word bs)"]
    mem_reader [OF assms, of 32 swapBytes32 "\<lambda>bs. swapBytes32 (be_word bs)"]
  by (simp_all add: top_uint_be mem_decodeU8_def decodeU8_def mem_decodeU16_def decodeU16_def mem_decodeU32_def decodeU32_def
      mem_decodeU64_def decodeU64_def mem_decodeU128_def decodeU128_def mem_decodeU256_def decodeU256_def)

lemma res_bind_Inr_same [simp]: "res_bind r Inr = r"
  by (cases r) auto

lemma mem_fixed_bytes:
  assumes "represents m base n d c"
  shows "refined m base n (mem_decodeBytes20 m d) (decodeBytes20 c)" "refined m base n (mem_decodeBytes32 m d) (decodeBytes32 c)"
  using mem_reader [OF assms, of 20 "top_bytes 20" "\<lambda>bs. bs"] mem_reader [OF assms, of 32 "top_bytes 32" "\<lambda>bs. bs"]
  by (simp_all add: top_bytes_be mem_decodeBytes20_def decodeBytes20_def mem_decodeBytes32_def decodeBytes32_def)

lemma refined_results:
  "represents m base n d c \<Longrightarrow> refined m base n (Inr (v, d)) (Inr (v, c))" "refined m base n (Inl e) (Inl e)"
  by (simp_all add: refined_def)

lemma refined_cases:
  "refined m base n x y \<Longrightarrow> (\<exists>e. x = Inl e \<and> y = Inl e) \<or> (\<exists>v d c. x = Inr (v, d) \<and> y = Inr (v, c) \<and> represents m base n d c)"
  by (cases x; cases y) (auto simp: refined_def)

lemma refined_bind:
  assumes "refined m base n x y" "\<And>v d c. represents m base n d c \<Longrightarrow> refined m base n (f v d) (g v c)"
  shows "refined m base n (res_bind x (\<lambda>(v, d). f v d)) (res_bind y (\<lambda>(v, c). g v c))"
  using refined_cases [OF assms(1)] assms(2) by (auto simp: refined_results)

lemma mem_bool:
  assumes "represents m base n d c"
  shows "refined m base n (mem_decodeBool m d) (decodeBool c)"
  unfolding mem_decodeBool_def decodeBool_def
  by (rule refined_bind [OF mem_words(1) [OF assms]]) (simp add: refined_results)

text \<open>The length in front of a byte string, with the check that so many bytes follow.\<close>

lemma mem_space:
  assumes "represents m base n d c"
  shows "mem_requireSpace (ucast (len :: 32 word)) d = requireSpace (unat len) c"
proof -
  have "unat len < 2 ^ 32" using unsigned_less [of len, where ?'a = nat] by simp
  from mem_requireSpace_refines [OF assms this] show ?thesis by simp
qed

lemma mem_length:
  assumes "represents m base n d c"
  shows "refined m base n (res_bind (mem_decodeU32 m d) (\<lambda>(len, d1). res_bind (mem_requireSpace (ucast len) d1) (\<lambda>_. Inr (len, d1))))
    (res_bind (decodeU32 c) (\<lambda>(len, c1). res_bind (requireSpace (unat len) c1) (\<lambda>_. Inr (len, c1))))"
  by (rule refined_bind [OF mem_words(3) [OF assms]]) (simp add: mem_space requireSpace_def refined_results)

text \<open>
  The memory of Solidity around the data: the free memory pointer in the slot \<^verbatim>\<open>0x40\<close>, the zero slot \<^verbatim>\<open>0x60\<close>, and the data between \<^verbatim>\<open>0x80\<close> and the
  free memory.
\<close>

definition heap_ok :: "memory \<Rightarrow> 256 word \<Rightarrow> nat \<Rightarrow> bool" where
  "heap_ok m base n \<longleftrightarrow> 0x80 \<le> unat base \<and> unat base + n \<le> unat (readMemory m 0x40)
     \<and> unat (readMemory m 0x40) + 2 ^ 32 + 64 \<le> 2 ^ 256 \<and> readMemory m 0x60 = 0"

lemma region_apart:
  assumes "unat p + n \<le> unat q" "unat q + k \<le> 2 ^ 256"
  shows "region p n \<inter> region q k = {}"
proof -
  have "p + word_of_nat i \<noteq> q + word_of_nat j" if "i < n" "j < k" for i j
  proof -
    have "unat (p + word_of_nat i) = unat p + i" "unat (q + word_of_nat j) = unat q + j" using assms that by (intro unat_offset; linarith)+
    with assms(1) that have "unat (p + word_of_nat i) \<noteq> unat (q + word_of_nat j)" by linarith
    then show ?thesis by metis
  qed
  then show ?thesis by (auto simp: region_def)
qed

lemma heap_room:
  assumes "heap_ok m base n" "represents m base n d c" "coff c + unat len \<le> n" "unat len < 2 ^ 32"
  shows "copy_room m (bd_ptr d) len"
proof -
  let ?res = "readMemory m 0x40"
  have r: "32 * ((unat len + 63) div 32) \<le> unat len + 63" by simp
  have ptr: "unat (bd_ptr d) = unat base + coff c"
    using assms by (auto simp: represents_def heap_ok_def intro: unat_offset)
  have "region (bd_ptr d) (unat len) \<inter> region ?res (32 * ((unat len + 63) div 32)) = {}"
    using assms r ptr by (intro region_apart) (auto simp: heap_ok_def)
  moreover have "region 0x40 32 \<inter> region (bd_ptr d) (unat len) = {}" "region 0x40 32 \<inter> region ?res (32 * ((unat len + 63) div 32)) = {}"
    using assms r ptr by (intro region_apart; auto simp: heap_ok_def)+
  ultimately show ?thesis using assms(4) by (auto simp: copy_room_def Let_def)
qed

lemma represents_elsewhere:
  assumes "represents m base n d c" "heap_ok m base n" "k \<le> 2 ^ 32 + 64"
    and "\<forall>a. a \<notin> region 0x40 32 \<and> a \<notin> region (readMemory m 0x40) k \<longrightarrow> m' a = m a"
  shows "represents m' base n d c"
proof -
  have "region 0x40 32 \<inter> region base n = {}" "region base n \<inter> region (readMemory m 0x40) k = {}"
    using assms(1-3) by (intro region_apart; auto simp: heap_ok_def represents_def)+
  then have "mem_bytes m' base n = mem_bytes m base n" using assms(4) by (intro mem_bytes_cong) blast
  with assms(1) show ?thesis by (simp add: represents_def)
qed

lemma mem_bytes_refines:
  assumes "represents m base n d c" "heap_ok m base n" "2 ^ 27 \<le> fuel"
  shows "case decodeBytes c of Inl e \<Rightarrow> mem_decodeBytes fuel m d = Some (Inl e)
    | Inr (bs, c') \<Rightarrow> \<exists>m' p d'. mem_decodeBytes fuel m d = Some (Inr (m', p, d')) \<and> bytes_at m' p = bs \<and> represents m' base n d' c'"
proof -
  let ?len = "res_bind (decodeU32 c) (\<lambda>(len, c1). res_bind (requireSpace (unat len) c1) (\<lambda>_. Inr (len, c1)))"
  have dec: "decodeBytes c = res_bind ?len (\<lambda>(len, c1). Inr (take (unat len) (drop (coff c1) (cbuf c1)), advance (unat len) c1))"
    by (auto simp: decodeBytes_def res_bind_assoc split_beta intro!: arg_cong2 [where f = res_bind])
  show ?thesis
  proof (cases ?len)
    case (Inl e)
    with refined_cases [OF mem_length [OF assms(1)]] show ?thesis by (auto simp: dec mem_decodeBytes_def)
  next
    case (Inr r)
    obtain len c1 where r: "?len = Inr (len, c1)" using Inr by (cases r) simp
    with refined_cases [OF mem_length [OF assms(1)]] obtain d1 where
      d1: "res_bind (mem_decodeU32 m d) (\<lambda>(len, d1). res_bind (mem_requireSpace (ucast len) d1) (\<lambda>_. Inr (len, d1))) = Inr (len, d1)"
        "represents m base n d1 c1" by auto
    have fits: "coff c1 + unat len \<le> n"
      using r d1(2) by (auto simp: res_bind_eq_Inr_iff requireSpace_def represents_def split: if_splits)
    have small: "unat len < 2 ^ 32" using unsigned_less [of len, where ?'a = nat] by simp
    let ?l = "ucast len :: 256 word"
    have "unat len < 2 ^ 256" using small by (rule less_le_trans) simp
    then have ul: "unat ?l = unat len" by (simp only: unsigned_ucast_eq take_bit_nat_eq_self_iff) simp
    have slice: "take (unat len) (drop (coff c1) (cbuf c1)) = mem_bytes m (bd_ptr d1) (unat len)"
      using d1(2) fits by (simp add: represents_def mem_bytes_slice)
    have adv: "represents m base n (d1\<lparr>bd_ptr := bd_ptr d1 + ?l\<rparr>) (advance (unat len) c1)"
      using represents_advance [OF d1(2) fits] by simp
    show ?thesis
    proof (cases "len = 0")
      case True
      then show ?thesis
        using r d1 adv slice assms(2) by (simp add: dec mem_decodeBytes_def memoryToBytes_def bytes_at_def heap_ok_def mem_bytes_def)
    next
      case False
      have "?l \<noteq> 0" using False ul by (metis unat_eq_0)
      moreover have "copy_room m (bd_ptr d1) ?l" using heap_room [OF assms(2) d1(2), of ?l] fits small ul by simp
      moreover have "(unat ?l + 31) div 32 \<le> fuel" using small ul assms(3) by simp
      ultimately obtain m' where m': "memoryToBytes fuel m (bd_ptr d1) ?l = Some (m', readMemory m 0x40)"
        "bytes_at m' (readMemory m 0x40) = mem_bytes m (bd_ptr d1) (unat len)"
        "\<forall>a. a \<notin> region 0x40 32 \<and> a \<notin> region (readMemory m 0x40) (32 * ((unat len + 63) div 32)) \<longrightarrow> m' a = m a"
        using memoryToBytes_copies [of ?l m "bd_ptr d1" fuel] ul by auto
      have "represents m' base n (d1\<lparr>bd_ptr := bd_ptr d1 + ?l\<rparr>) (advance (unat len) c1)"
        using represents_elsewhere [OF adv assms(2) _ m'(3)] small by simp
      then show ?thesis using r d1(1) m'(1,2) slice by (simp add: dec mem_decodeBytes_def)
    qed
  qed
qed

lemma from_represents:
  assumes "unat (data + 32) + unat (readMemory m data) + 2 ^ 32 \<le> 2 ^ 256"
  shows "represents m (data + 32) (unat (readMemory m data)) (borsh_from m data) \<lparr>cbuf = bytes_at m data, coff = 0\<rparr>"
  using assms by (simp add: represents_def borsh_from_def bytes_at_def Let_def)

lemma mem_done_refines: "represents m base n d c \<Longrightarrow> mem_done d = sol_done c"
  using offset_inj [of "coff c" n base] by (simp add: mem_done_def sol_done_def represents_def)

lemma mem_skip_refines:
  assumes "represents m base n d c"
  shows "case skipBytes c of Inl e \<Rightarrow> mem_skipBytes m d = Inl e | Inr c' \<Rightarrow> \<exists>d'. mem_skipBytes m d = Inr d' \<and> represents m base n d' c'"
proof -
  from refined_cases [OF mem_words(3) [OF assms]] consider (err) e where "mem_decodeU32 m d = Inl e" "decodeU32 c = Inl e"
    | (ok) len d1 c1 where "mem_decodeU32 m d = Inr (len, d1)" "decodeU32 c = Inr (len, c1)" "represents m base n d1 c1" by blast
  then show ?thesis
  proof cases
    case err
    then show ?thesis by (simp add: mem_skipBytes_def skipBytes_def)
  next
    case ok
    have "length (cbuf c1) = n" using ok(3) by (simp add: represents_def)
    then show ?thesis
      using ok represents_advance [OF ok(3), of "unat len"] mem_space [OF ok(3), of len]
      by (auto simp: mem_skipBytes_def skipBytes_def requireSpace_def)
  qed
qed

lemma mem_peek_refines:
  assumes "represents m base n d c" "len < 2 ^ 32"
  shows "mem_peek hash m (word_of_nat len) d = peekSha256 hash len c"
proof -
  have "unat (word_of_nat len :: 256 word) = len" using assms(2) by (simp add: unat_of_nat)
  moreover have "mem_bytes m (bd_ptr d) len = take len (drop (coff c) (cbuf c))" if "coff c + len \<le> n"
    using assms(1) that by (simp add: represents_def mem_bytes_slice)
  moreover have "length (cbuf c) = n" using assms(1) by (simp add: represents_def)
  ultimately show ?thesis
    using mem_requireSpace_refines [OF assms] by (auto simp: mem_peek_def peekSha256_def requireSpace_def)
qed

text \<open>
  C19. The decoder of the contracts does on memory what the model does on byte strings: from corresponding states, in a memory laid out as Solidity
  lays it out, every reader of \<^verbatim>\<open>Borsh.sol\<close> fails with the same message or returns the same value and a corresponding state. The word-wise copy of
  \<^verbatim>\<open>decodeBytes\<close> ends, returns a pointer to exactly the bytes, and leaves the data intact, although its last word may read past their end.
\<close>

theorem borsh_on_memory:
  assumes "represents m base n d c" "heap_ok m base n" "2 ^ 27 \<le> fuel"
  shows "refined m base n (mem_decodeU8 m d) (decodeU8 c) \<and> refined m base n (mem_decodeU16 m d) (decodeU16 c)
    \<and> refined m base n (mem_decodeU32 m d) (decodeU32 c) \<and> refined m base n (mem_decodeU64 m d) (decodeU64 c)
    \<and> refined m base n (mem_decodeU128 m d) (decodeU128 c) \<and> refined m base n (mem_decodeU256 m d) (decodeU256 c)
    \<and> refined m base n (mem_decodeBytes20 m d) (decodeBytes20 c) \<and> refined m base n (mem_decodeBytes32 m d) (decodeBytes32 c)
    \<and> refined m base n (mem_decodeBool m d) (decodeBool c) \<and> mem_done d = sol_done c
    \<and> (case skipBytes c of Inl e \<Rightarrow> mem_skipBytes m d = Inl e | Inr c' \<Rightarrow> \<exists>d'. mem_skipBytes m d = Inr d' \<and> represents m base n d' c')
    \<and> (\<forall>len < 2 ^ 32. mem_peek hash m (word_of_nat len) d = peekSha256 hash len c)
    \<and> (case decodeBytes c of Inl e \<Rightarrow> mem_decodeBytes fuel m d = Some (Inl e)
       | Inr (bs, c') \<Rightarrow> \<exists>m' p d'. mem_decodeBytes fuel m d = Some (Inr (m', p, d')) \<and> bytes_at m' p = bs \<and> represents m' base n d' c')"
  using assms mem_peek_refines [OF assms(1)]
  by (intro conjI mem_words mem_fixed_bytes mem_bool mem_bytes_refines mem_done_refines mem_skip_refines) auto

definition demo_memory :: memory where
  "demo_memory = writeMemory (writeMemory (\<lambda>_. 0) 0x40 1000) 0xa0 (be_word ([3, 0, 0, 0, 7, 8, 9] @ replicate 25 0))"

lemma mem_bytes_written: "length bs = 32 \<Longrightarrow> k \<le> 32 \<Longrightarrow> mem_bytes (writeMemory m p (be_word bs)) p k = take k bs"
  by (intro nth_equalityI) (simp_all add: writeMemory_def byte_of_word unat_of_nat)

lemma le_nat_zeros: "le_nat (replicate n 0) = 0"
  by (induction n) auto

lemma demo_memory_ok:
  "represents demo_memory 0xa0 7 \<lparr>bd_ptr = 0xa0, bd_end = 0xa7\<rparr> \<lparr>cbuf = [3, 0, 0, 0, 7, 8, 9], coff = 0\<rparr>" "heap_ok demo_memory 0xa0 7"
proof -
  have "mem_bytes demo_memory 0xa0 7 = [3, 0, 0, 0, 7, 8, 9]" by (simp add: demo_memory_def mem_bytes_written)
  then show "represents demo_memory 0xa0 7 \<lparr>bd_ptr = 0xa0, bd_end = 0xa7\<rparr> \<lparr>cbuf = [3, 0, 0, 0, 7, 8, 9], coff = 0\<rparr>"
    by (simp add: represents_def)
  have apart: "region 0x40 32 \<inter> region 0xa0 32 = {}" "region 0x60 32 \<inter> region 0xa0 32 = {}" "region 0x40 32 \<inter> region 0x60 32 = {}"
    by (intro region_apart; simp)+
  have "readMemory demo_memory 0x40 = readMemory (writeMemory (\<lambda>_. 0) 0x40 1000) 0x40"
  proof (intro readMemory_cong ballI)
    fix a :: "256 word" assume "a \<in> region 0x40 32"
    with apart(1) have "a \<notin> region 0xa0 32" by blast
    then show "demo_memory a = writeMemory (\<lambda>_. 0) 0x40 1000 a" by (simp add: demo_memory_def writeMemory_out)
  qed
  then have "readMemory demo_memory 0x40 = 1000" by (simp add: read_written)
  moreover have "readMemory demo_memory 0x60 = readMemory (\<lambda>_. 0) 0x60"
  proof (intro readMemory_cong ballI)
    fix a :: "256 word" assume "a \<in> region 0x60 32"
    with apart(2,3) have "a \<notin> region 0xa0 32" "a \<notin> region 0x40 32" by blast+
    then show "demo_memory a = 0" by (simp add: demo_memory_def writeMemory_out)
  qed
  moreover have "readMemory (\<lambda>_. 0) 0x60 = 0" by (simp add: readMemory_def mem_bytes_def map_replicate_const be_word_def le_nat_zeros)
  ultimately show "heap_ok demo_memory 0xa0 7" by (simp add: heap_ok_def)
qed

theorem borsh_on_memory_witness:
  "\<exists>m' p d'. mem_decodeBytes (2 ^ 27) demo_memory \<lparr>bd_ptr = 0xa0, bd_end = 0xa7\<rparr> = Some (Inr (m', p, d')) \<and> bytes_at m' p = [7, 8, 9]"
proof -
  let ?c = "\<lparr>cbuf = [3, 0, 0, 0, 7, 8, 9], coff = 0\<rparr>"
  have "le_bytes 4 (Suc (Suc (Suc 0))) = [3, 0, 0, 0]" by code_simp
  then have "decodeBytes ?c = Inr ([7, 8, 9], advance 7 ?c)"
    using decodeBytes_upcoming [of ?c "[7, 8, 9]"] by simp
  moreover have "case decodeBytes ?c of Inl e \<Rightarrow> mem_decodeBytes (2 ^ 27) demo_memory \<lparr>bd_ptr = 0xa0, bd_end = 0xa7\<rparr> = Some (Inl e)
    | Inr (bs, c') \<Rightarrow> \<exists>m' p d'. mem_decodeBytes (2 ^ 27) demo_memory \<lparr>bd_ptr = 0xa0, bd_end = 0xa7\<rparr> = Some (Inr (m', p, d'))
        \<and> bytes_at m' p = bs \<and> represents m' 0xa0 7 d' c'"
    using borsh_on_memory [OF demo_memory_ok order.refl] by blast
  ultimately show ?thesis by auto
qed

end
